theory Spec2Isabelle
  imports Main "HOL-Library.Char_ord" "HOL-Library.List_Lexorder"
begin

section \<open>Python values, strings and number formatting\<close>

text \<open>
  Strings are lists of 8-bit characters, read as the code points below 256.  The helpers of
  this section embed the Python built-ins that the scripts call: \<open>str.strip\<close>,
  \<open>str.replace(',', '')\<close>, the \<open>in\<close> test on strings, and the integer formats
  \<open>{n}\<close> and \<open>{n:02d}\<close> of f-strings.
\<close>

definition is_digit :: "char \<Rightarrow> bool" where
  "is_digit c = (c \<in> set ''0123456789'')"

definition digit_char :: "nat \<Rightarrow> char" where
  "digit_char n = ''0123456789'' ! (n mod 10)"

text \<open>The value of a decimal digit: its position among the ten digits.\<close>

definition digit_val :: "char \<Rightarrow> nat" where
  "digit_val c = length (takeWhile (\<lambda>d. d \<noteq> c) ''0123456789'')"

fun show_nat :: "nat \<Rightarrow> string" where
  "show_nat n = (if n < 10 then [digit_char n] else show_nat (n div 10) @ [digit_char n])"

declare show_nat.simps [simp del]

text \<open>\<open>int(s)\<close> on a string of decimal digits.\<close>

definition int_of_digits :: "string \<Rightarrow> nat" where
  "int_of_digits s = foldl (\<lambda>acc c. 10 * acc + digit_val c) 0 s"

text \<open>The f-string field \<open>{i}\<close> for an integer.\<close>

definition fmt_d :: "int \<Rightarrow> string" where
  "fmt_d i = (if i < 0 then CHR ''-'' # show_nat (nat (- i)) else show_nat (nat i))"

text \<open>\<open>str.zfill\<close> on a digit string, as the zero flag of a format does.\<close>

definition zfill :: "nat \<Rightarrow> string \<Rightarrow> string" where
  "zfill w s = replicate (w - length s) CHR ''0'' @ s"

text \<open>The f-string field \<open>{i:02d}\<close>: the sign counts towards the width of two.\<close>

definition fmt_02d :: "int \<Rightarrow> string" where
  "fmt_02d i = (if i < 0 then CHR ''-'' # show_nat (nat (- i)) else zfill 2 (show_nat (nat i)))"

text \<open>The characters that \<open>str.strip()\<close> removes, among the code points below 256.\<close>

definition is_space :: "char \<Rightarrow> bool" where
  "is_space c = (c \<in> set [CHR 0x09, CHR 0x0A, CHR 0x0B, CHR 0x0C, CHR 0x0D,
                           CHR 0x1C, CHR 0x1D, CHR 0x1E, CHR 0x1F, CHR 0x20,
                           CHR 0x85, CHR 0xA0])"

definition strip :: "string \<Rightarrow> string" where
  "strip s = rev (dropWhile is_space (rev (dropWhile is_space s)))"

text \<open>\<open>sub in s\<close> for strings.\<close>

fun contains :: "string \<Rightarrow> string \<Rightarrow> bool" where
  "contains sub [] = (sub = [])"
| "contains sub (c # cs) = (take (length sub) (c # cs) = sub \<or> contains sub cs)"

text \<open>
  A \<open>datetime\<close> object, without microseconds and time zone.  \<open>str()\<close> of it is the ISO
  date, a space and the time of day.
\<close>

record datetime =
  dt_year :: nat
  dt_month :: nat
  dt_day :: nat
  dt_hour :: nat
  dt_minute :: nat
  dt_second :: nat

text \<open>
  What a cell of a data frame can hold, as far as the scripts can tell the difference:
  a missing value (\<open>pd.isna\<close> holds: \<open>NaN\<close>, \<open>None\<close>, \<open>NaT\<close>), a \<open>datetime\<close>
  (\<open>pd.Timestamp\<close> is a subclass), a string, or a number given by its \<open>str()\<close> text.
\<close>

datatype cell = Missing | DateTime datetime | Str string | Num string

definition isna :: "cell \<Rightarrow> bool" where
  "isna v = (v = Missing)"

text \<open>
  The ISO form \<open>YYYY-MM-DD\<close> of a date: four digits of year, two of month and of day.
  \<open>datetime.isoformat\<close> and \<open>str()\<close> print a date so, with \<open>%04d-%02d-%02d\<close>.
\<close>

definition iso_date :: "nat \<Rightarrow> nat \<Rightarrow> nat \<Rightarrow> string" where
  "iso_date y m d = zfill 4 (show_nat y) @ ''-'' @ zfill 2 (show_nat m) @ ''-'' @ zfill 2 (show_nat d)"

text \<open>Whether a string has the shape \<open>YYYY-MM-DD\<close>: ten characters, digits but for the
  two hyphens.\<close>

definition iso_shape :: "string \<Rightarrow> bool" where
  "iso_shape s =
     (length s = 10 \<and> list_all is_digit (take 4 s) \<and> s ! 4 = CHR ''-''
      \<and> list_all is_digit (take 2 (drop 5 s)) \<and> s ! 7 = CHR ''-''
      \<and> list_all is_digit (drop 8 s))"

text \<open>\<open>str(v)\<close>.  An empty cell read by pandas is the float \<open>NaN\<close>, printed \<open>nan\<close>.\<close>

definition py_str :: "cell \<Rightarrow> string" where
  "py_str v =
     (case v of
        Missing \<Rightarrow> ''nan''
      | DateTime dt \<Rightarrow> iso_date (dt_year dt) (dt_month dt) (dt_day dt)
                        @ '' '' @ zfill 2 (show_nat (dt_hour dt)) @ '':''
                        @ zfill 2 (show_nat (dt_minute dt)) @ '':'' @ zfill 2 (show_nat (dt_second dt))
      | Str s \<Rightarrow> s
      | Num s \<Rightarrow> s)"

section \<open>etl_import.py: helper functions\<close>

subsection \<open>clean\_value\<close>

text \<open>
  The result of \<open>clean_value\<close>: \<open>None\<close>, a float, or a string.  Floating-point numbers
  are not modelled: \<open>float()\<close> is the parameter \<open>pf\<close>, which gives \<open>None\<close> where Python
  raises \<open>ValueError\<close>.
\<close>

datatype 'f cleaned = CNone | CFloat 'f | CStr string

definition na_sentinels :: "string list" where
  "na_sentinels = [''#N/A'', ''--'', ''#N/A Requesting Data...'', ''N/A'', '''']"

definition remove_commas :: "string \<Rightarrow> string" where
  "remove_commas s = filter (\<lambda>c. c \<noteq> CHR '','') s"

definition clean_value :: "(string \<Rightarrow> 'f option) \<Rightarrow> cell \<Rightarrow> 'f cleaned" where
  "clean_value pf val =
     (if isna val then CNone
      else let val_str = strip (py_str val) in
        if val_str \<in> set na_sentinels then CNone
        else (case pf (remove_commas val_str) of
                Some x \<Rightarrow> CFloat x
              | None \<Rightarrow> CStr val_str))"

subsection \<open>parse\_bloomberg\_date\<close>

text \<open>
  \<open>datetime.strptime\<close> turns the format into a regular expression, one group per
  directive, matches it at the start of the string with backtracking, refuses text left
  over, and builds the date from the groups, which refuses a day the month does not have.
  The groups of the three directives used here are
  \<open>%Y: \d\d\d\d\<close>, \<open>%m: 1[0-2]|0[1-9]|[1-9]\<close> and
  \<open>%d: 3[0-1]|[1-2]\d|0[1-9]|[1-9]| [1-9]\<close>.
\<close>

datatype directive = DirY | DirM | DirD | Lit char

fun parse_format :: "string \<Rightarrow> directive list" where
  "parse_format [] = []"
| "parse_format [c] = [Lit c]"
| "parse_format (c # e # cs) =
     (if c = CHR ''%'' \<and> e = CHR ''Y'' then DirY # parse_format cs
      else if c = CHR ''%'' \<and> e = CHR ''m'' then DirM # parse_format cs
      else if c = CHR ''%'' \<and> e = CHR ''d'' then DirD # parse_format cs
      else Lit c # parse_format (e # cs))"

text \<open>An alternative of a group is a sequence of character classes; a class is the string
  of its members.\<close>

definition alternatives :: "directive \<Rightarrow> string list list" where
  "alternatives d =
     (case d of
        DirY \<Rightarrow> [[''0123456789'', ''0123456789'', ''0123456789'', ''0123456789'']]
      | DirM \<Rightarrow> [[''1'', ''012''], [''0'', ''123456789''], [''123456789'']]
      | DirD \<Rightarrow> [[''3'', ''01''], [''12'', ''0123456789''], [''0'', ''123456789''],
                  [''123456789''], ['' '', ''123456789'']]
      | Lit c \<Rightarrow> [[[c]]])"

fun match_alt :: "string list \<Rightarrow> string \<Rightarrow> (string \<times> string) option" where
  "match_alt [] s = Some ([], s)"
| "match_alt (cls # rest) [] = None"
| "match_alt (cls # rest) (c # s) =
     (if c \<in> set cls
      then (case match_alt rest s of None \<Rightarrow> None | Some (m, r) \<Rightarrow> Some (c # m, r))
      else None)"

fun first_some :: "'a option list \<Rightarrow> 'a option" where
  "first_some [] = None"
| "first_some (None # xs) = first_some xs"
| "first_some (Some x # xs) = Some x"

text \<open>The groups matched, in the order of the format, and the text left over.\<close>

definition add_group ::
  "directive \<Rightarrow> string \<Rightarrow> ((directive \<times> string) list \<times> string) option
     \<Rightarrow> ((directive \<times> string) list \<times> string) option" where
  "add_group d m res =
     (case res of None \<Rightarrow> None | Some (groups, r) \<Rightarrow> Some ((d, m) # groups, r))"

fun regex_match :: "directive list \<Rightarrow> string \<Rightarrow> ((directive \<times> string) list \<times> string) option" where
  "regex_match [] s = Some ([], s)"
| "regex_match (d # ds) s =
     first_some (map (\<lambda>alt.
        (case match_alt alt s of
           None \<Rightarrow> None
         | Some (m, r) \<Rightarrow> add_group d m (regex_match ds r))) (alternatives d))"

text \<open>\<open>int()\<close> of a group: it ignores the blank that \<open>%d\<close> may have matched.\<close>

definition group_int :: "(directive \<times> string) list \<Rightarrow> directive \<Rightarrow> nat" where
  "group_int groups d =
     (case map_of groups d of None \<Rightarrow> 0 | Some m \<Rightarrow> int_of_digits (strip m))"

definition is_leap :: "nat \<Rightarrow> bool" where
  "is_leap y = (y mod 4 = 0 \<and> (y mod 100 \<noteq> 0 \<or> y mod 400 = 0))"

definition days_in_month :: "nat \<Rightarrow> nat \<Rightarrow> nat" where
  "days_in_month y m =
     (if m = 2 then (if is_leap y then 29 else 28)
      else if m \<in> {4, 6, 9, 11} then 30 else 31)"

text \<open>The check of the \<open>datetime\<close> constructor.\<close>

definition valid_date :: "nat \<Rightarrow> nat \<Rightarrow> nat \<Rightarrow> bool" where
  "valid_date y m d =
     (1 \<le> y \<and> y \<le> 9999 \<and> 1 \<le> m \<and> m \<le> 12 \<and> 1 \<le> d \<and> d \<le> days_in_month y m)"

text \<open>\<open>datetime.strptime(date_str, fmt)\<close>, \<open>None\<close> for \<open>ValueError\<close>.\<close>

definition strptime :: "string \<Rightarrow> string \<Rightarrow> (nat \<times> nat \<times> nat) option" where
  "strptime date_str fmt =
     (case regex_match (parse_format fmt) date_str of
        None \<Rightarrow> None
      | Some (groups, rest) \<Rightarrow>
          if rest \<noteq> [] then None
          else let y = group_int groups DirY; m = group_int groups DirM;
                   d = group_int groups DirD
               in if valid_date y m d then Some (y, m, d) else None)"

text \<open>
  \<open>strftime(fmt)\<close> of the date \<open>y\<close>, \<open>m\<close>, \<open>d\<close>.  CPython hands the format to the
  \<open>strftime\<close> of the C library; that of Linux (glibc) prints \<open>%Y\<close> as the plain decimal
  number of the year, without leading zeros, and \<open>%m\<close> and \<open>%d\<close> with two digits:
  \<open>datetime(999, 1, 1).strftime('%Y-%m-%d')\<close> is \<open>'999-01-01'\<close>.
\<close>

definition strftime :: "string \<Rightarrow> nat \<Rightarrow> nat \<Rightarrow> nat \<Rightarrow> string" where
  "strftime fmt y m d =
     concat (map (\<lambda>dir. case dir of
                DirY \<Rightarrow> show_nat y
              | DirM \<Rightarrow> zfill 2 (show_nat m)
              | DirD \<Rightarrow> zfill 2 (show_nat d)
              | Lit c \<Rightarrow> [c]) (parse_format fmt))"

text \<open>\<open>date_val.strftime('%Y-%m-%d')\<close> of a \<open>datetime\<close>.\<close>

definition strftime_iso :: "datetime \<Rightarrow> string" where
  "strftime_iso dt = strftime ''%Y-%m-%d'' (dt_year dt) (dt_month dt) (dt_day dt)"

definition formats :: "string list" where
  "formats = [''%Y-%m-%d'', ''%m/%d/%Y'', ''%d/%m/%Y'',
              ''%Y/%m/%d'', ''%d-%m-%Y'', ''%m-%d-%Y'']"

definition parse_bloomberg_date :: "cell \<Rightarrow> string option" where
  "parse_bloomberg_date date_val =
     (if isna date_val then None
      else case date_val of
        DateTime dt \<Rightarrow> Some (strftime_iso dt)
      | _ \<Rightarrow>
        (let date_str = strip (py_str date_val) in
         first_some (map (\<lambda>fmt.
            (case strptime date_str fmt of
               None \<Rightarrow> None
             | Some (y, m, d) \<Rightarrow> Some (strftime ''%Y-%m-%d'' y m d))) formats)))"

section \<open>etl_import.py: import\_macro, the date of a value column\<close>

text \<open>
  The body of the loop over \<open>col_offset\<close> that fills \<open>date_map\<close>.  The unused
  \<open>target_date\<close> is left out.
\<close>

definition macro_date :: "int \<Rightarrow> string" where
  "macro_date col_offset =
     (let year0 = 2024 - (col_offset div 12);
          month0 = 12 - (col_offset mod 12);
          month1 = (if month0 \<le> 0 then month0 + 12 else month0);
          year1 = (if month0 \<le> 0 then year0 - 1 else year0)
      in fmt_d year1 @ ''-'' @ fmt_02d month1 @ ''-01'')"

text \<open>\<open>date_map\<close> for a frame of \<open>ncols\<close> columns: \<open>range(num_months)\<close> is empty when
  the frame has fewer than two columns.\<close>

definition build_date_map :: "nat \<Rightarrow> (nat \<rightharpoonup> string)" where
  "build_date_map ncols =
     (let num_months = int ncols - 2 in
      fold (\<lambda>col_offset date_map. date_map(2 + col_offset \<mapsto> macro_date (int col_offset)))
           [0..<nat num_months] Map.empty)"

section \<open>fix\_dates.py\<close>

text \<open>A worksheet maps (row, column), both counted from 1, to the value of the cell.\<close>

datatype xl_value = XEmpty | XText string | XNumber string | XDate int int int

type_synonym worksheet = "nat \<times> nat \<Rightarrow> xl_value"

fun annual_loop :: "nat list \<Rightarrow> worksheet \<Rightarrow> worksheet" where
  "annual_loop [] ws = ws"
| "annual_loop (row # rows) ws =
     (let base_year = 2005; year = base_year + (int row - 7) in
      if year > 2024 then ws
      else annual_loop rows (ws((row, 1) := XDate year 12 31)))"

definition quarters :: "(int \<times> int) list" where
  "quarters = [(3, 31), (6, 30), (9, 30), (12, 31)]"

fun quarterly_loop :: "nat list \<Rightarrow> worksheet \<Rightarrow> worksheet" where
  "quarterly_loop [] ws = ws"
| "quarterly_loop (row # rows) ws =
     (let base_year = 2005; quarter_idx = int row - 7;
          year = base_year + (quarter_idx div 4); q = quarter_idx mod 4 in
      if year > 2024 then ws
      else (case quarters ! nat q of (month, day) \<Rightarrow>
              quarterly_loop rows (ws((row, 1) := XDate year month day))))"

text \<open>The edit that \<open>fix_date_column\<close> makes to the active sheet between load and save.\<close>

definition fix_sheet :: "string \<Rightarrow> worksheet \<Rightarrow> worksheet" where
  "fix_sheet period_type ws =
     (if period_type = ''ANNUAL'' then annual_loop [7..<28] ws
      else if period_type = ''QUARTERLY'' then quarterly_loop [7..<88] ws
      else ws)"


section \<open>etl\_import.py: the database and its loaders\<close>

text \<open>
  Python exceptions are values of \<open>error\<close>; a function that may raise returns
  \<open>error + 'a\<close>, with \<open>Inl\<close> for the exception.  The text of a \<open>ValueError\<close> is a
  string, or a string followed by the \<open>repr\<close> of a list of column names.
\<close>

datatype message = Msg string | MsgColumns string "string list"

datatype error =
    FileNotFoundError string
  | KeyError string
  | IndexError
  | TypeError
  | ValueError message
  | AttributeError
  | InvalidIndexError
  | OperationalError string

definition bind_err :: "error + 'a \<Rightarrow> ('a \<Rightarrow> error + 'b) \<Rightarrow> error + 'b" where
  "bind_err r f = (case r of Inl e \<Rightarrow> Inl e | Inr x \<Rightarrow> f x)"

text \<open>A Python \<open>for\<close> loop whose body may raise: the first exception ends the loop.\<close>

fun for_each :: "('a \<Rightarrow> 's \<Rightarrow> error + 's) \<Rightarrow> 'a list \<Rightarrow> 's \<Rightarrow> error + 's" where
  "for_each body [] s = Inr s"
| "for_each body (x # xs) s = bind_err (body x s) (for_each body xs)"

text \<open>
  A frame read with \<open>header=None\<close> is its number of columns and its rows; a row shorter
  than the width is padded with missing values, as pandas does.  A frame read by \<open>read_csv\<close>
  or by \<open>read_excel\<close> with a header row has column names as well.
\<close>

record frame =
  frame_ncols :: nat
  frame_cells :: "cell list list"

record csv_frame =
  csv_columns :: "string list"
  csv_rows :: "cell list list"

definition row_cell :: "cell list \<Rightarrow> nat \<Rightarrow> cell" where
  "row_cell row c = (if c < length row then row ! c else Missing)"

text \<open>\<open>df.iloc[r, c]\<close>.\<close>

definition iloc :: "frame \<Rightarrow> nat \<Rightarrow> nat \<Rightarrow> error + cell" where
  "iloc df r c =
     (if r < length (frame_cells df) \<and> c < frame_ncols df then Inr (row_cell (frame_cells df ! r) c)
      else Inl IndexError)"

text \<open>\<open>df.iloc[r]\<close>: the row as a list of cells, one per column.\<close>

definition iloc_row :: "frame \<Rightarrow> nat \<Rightarrow> error + cell list" where
  "iloc_row df r =
     (if r < length (frame_cells df) then Inr (map (row_cell (frame_cells df ! r)) [0..<frame_ncols df])
      else Inl IndexError)"

fun index_of :: "'a \<Rightarrow> 'a list \<Rightarrow> nat option" where
  "index_of x [] = None"
| "index_of x (y # ys) = (if x = y then Some 0 else map_option Suc (index_of x ys))"

text \<open>\<open>row[name]\<close> and \<open>row.get(name)\<close> on a row of a frame with column names.\<close>

definition row_item :: "string list \<Rightarrow> cell list \<Rightarrow> string \<Rightarrow> error + cell" where
  "row_item cols row name =
     (case index_of name cols of
        None \<Rightarrow> Inl (KeyError name)
      | Some i \<Rightarrow> Inr (row_cell row i))"

definition row_get :: "string list \<Rightarrow> cell list \<Rightarrow> string \<Rightarrow> cell option" where
  "row_get cols row name = map_option (row_cell row) (index_of name cols)"

subsection \<open>Tables\<close>

text \<open>
  The rows of the six tables hold what the \<open>INSERT\<close> statements bind.  A table is the list
  of its rows in insertion order.
\<close>

record 'f company_rec =
  co_ticker :: string
  co_company_name :: "cell option"
  co_country_id :: "string option"
  co_currency :: "cell option"
  co_gics_sector_name :: "'f cleaned"
  co_gics_industry_group_name :: "'f cleaned"
  co_gics_industry_name :: "'f cleaned"
  co_gics_sub_industry_name :: "'f cleaned"
  co_current_market_cap :: "'f cleaned"
  co_is_active :: bool

record 'f company_row = "'f company_rec" +
  co_company_id :: int

record 'f membership_row =
  im_index_id :: cell
  im_company_id :: int
  im_as_of_date :: string
  im_weight :: "'f cleaned"
  im_shares_outstanding :: "'f cleaned"
  im_price :: "'f cleaned"

record 'f price_row =
  pw_company_id :: int
  pw_price_date :: string
  pw_close_price :: "'f cleaned"
  pw_total_return :: "'f cleaned"

record 'f financials_row =
  fi_company_id :: int
  fi_period_end_date :: string
  fi_period_type :: string
  fi_revenue :: "'f cleaned"
  fi_ebitda :: "'f cleaned"
  fi_interest_expense :: "'f cleaned"
  fi_free_cash_flow :: "'f cleaned"
  fi_gross_profit :: "'f cleaned"
  fi_total_debt :: "'f cleaned"
  fi_cost_of_goods_sold :: "'f cleaned"
  fi_currency :: "string option"

record 'f macro_row =
  mi_country_id :: string
  mi_indicator_date :: string
  mi_indicator_name :: string
  mi_bloomberg_ticker :: "string option"
  mi_indicator_value :: "'f cleaned"
  mi_indicator_category :: string

record 'f rate_row =
  ir_country_id :: string
  ir_rate_date :: string
  ir_rate_type :: string
  ir_bloomberg_ticker :: string
  ir_rate_value :: "'f cleaned"

record 'f database =
  companies :: "'f company_row list"
  index_membership :: "'f membership_row list"
  prices_weekly :: "'f price_row list"
  financials :: "'f financials_row list"
  macro_indicators :: "'f macro_row list"
  interest_rates :: "'f rate_row list"

text \<open>
  Modelled from the spec: the table definitions of \<open>schema.sql\<close>, which is not among the
  sources.  The spec names two uniqueness constraints, "one membership row per
  index/company/date; one financial row per company/period/type", enforced by the
  database.  A constraint is given by the key it makes unique.
\<close>

definition membership_key :: "'f membership_row \<Rightarrow> cell \<times> int \<times> string" where
  "membership_key r = (im_index_id r, im_company_id r, im_as_of_date r)"

definition financials_key :: "'f financials_row \<Rightarrow> int \<times> string \<times> string" where
  "financials_key r = (fi_company_id r, fi_period_end_date r, fi_period_type r)"

text \<open>
  Modelled from the spec: the uniqueness constraints of the other three tables, which the
  spec calls ignore-duplicate without naming the key.  They are a parameter: for each table,
  the function from a row to the key that must be unique, a key being made of columns
  that are not null.
\<close>

record ('f, 'kp, 'km, 'kr) table_keys =
  price_key :: "'f price_row \<Rightarrow> 'kp"
  macro_key :: "'f macro_row \<Rightarrow> 'km"
  rate_key :: "'f rate_row \<Rightarrow> 'kr"

text \<open>\<open>INSERT OR IGNORE\<close> and \<open>INSERT OR REPLACE\<close> on a table with a unique key.\<close>

definition insert_or_ignore :: "('r \<Rightarrow> 'k) \<Rightarrow> 'r \<Rightarrow> 'r list \<Rightarrow> 'r list" where
  "insert_or_ignore key r t = (if key r \<in> set (map key t) then t else t @ [r])"

definition insert_or_replace :: "('r \<Rightarrow> 'k) \<Rightarrow> 'r \<Rightarrow> 'r list \<Rightarrow> 'r list" where
  "insert_or_replace key r t = filter (\<lambda>x. key x \<noteq> key r) t @ [r]"

text \<open>
  Modelled from the spec: the key columns of \<open>index_membership\<close> are \<open>NOT NULL\<close>.  In
  SQLite two \<open>NULL\<close>s never conflict in a uniqueness constraint, so "one membership row
  per index/company/date" can only be enforced on rows that have an index.  The one key
  column that the loader can bind to \<open>NULL\<close> is \<open>index_id\<close>, from an empty cell of the
  snapshot; \<open>INSERT OR IGNORE\<close> then skips the row, as it does for every constraint.
\<close>

definition insert_membership :: "'f membership_row \<Rightarrow> 'f membership_row list \<Rightarrow> 'f membership_row list" where
  "insert_membership r t =
     (if isna (im_index_id r) then t else insert_or_ignore membership_key r t)"

text \<open>
  Modelled from the spec: the \<open>companies\<close> table of \<open>schema.sql\<close>.  The ticker is what
  the loaders look a company up by, and \<open>company_id\<close> is not bound by the \<open>INSERT\<close>: it
  is the row id that SQLite assigns, one more than the largest in the table and 1 in an
  empty table.
\<close>

definition next_company_id :: "'f company_row list \<Rightarrow> int" where
  "next_company_id t = (if t = [] then 1 else Max (set (map co_company_id t)) + 1)"

definition insert_company :: "'f company_rec \<Rightarrow> 'f company_row list \<Rightarrow> 'f company_row list" where
  "insert_company r t =
     (if co_ticker r \<in> set (map co_ticker t) then t
      else t @ [company_rec.extend r (company_row.fields (next_company_id t))])"

text \<open>\<open>SELECT company_id FROM companies WHERE ticker = ?\<close> and \<open>fetchone()\<close>.\<close>

definition select_company_id :: "'f company_row list \<Rightarrow> string \<Rightarrow> int option" where
  "select_company_id t tk = map_option co_company_id (find (\<lambda>c. co_ticker c = tk) t)"

text \<open>
  The lookup that the loaders share: the dictionary first; when it has no entry, or the
  entry is 0 (\<open>not company_id\<close>), the table.
\<close>

definition lookup_company ::
  "(string \<rightharpoonup> int) \<Rightarrow> 'f company_row list \<Rightarrow> string \<Rightarrow> int option" where
  "lookup_company ticker_to_id t tk =
     (case ticker_to_id tk of
        Some i \<Rightarrow> if i \<noteq> 0 then Some i else select_company_id t tk
      | None \<Rightarrow> select_company_id t tk)"

subsection \<open>import\_companies\<close>

text \<open>The inputs of the run: the parsed files, by name.  A name without a file is a file
  that does not exist.\<close>

record files =
  csv_files :: "string \<rightharpoonup> csv_frame"
  xlsx_files :: "string \<rightharpoonup> frame"

definition read_csv :: "files \<Rightarrow> string \<Rightarrow> error + csv_frame" where
  "read_csv fs name =
     (case csv_files fs name of None \<Rightarrow> Inl (FileNotFoundError name) | Some df \<Rightarrow> Inr df)"

definition read_excel :: "files \<Rightarrow> string \<Rightarrow> error + frame" where
  "read_excel fs name =
     (case xlsx_files fs name of None \<Rightarrow> Inl (FileNotFoundError name) | Some df \<Rightarrow> Inr df)"

text \<open>\<open>row.get('COUNTRY', '')[:2] if pd.notna(row.get('COUNTRY')) else None\<close>: slicing
  anything but a string raises.\<close>

definition country_of :: "cell option \<Rightarrow> error + string option" where
  "country_of v =
     (case v of
        None \<Rightarrow> Inr None
      | Some Missing \<Rightarrow> Inr None
      | Some (Str s) \<Rightarrow> Inr (Some (take 2 s))
      | Some _ \<Rightarrow> Inl TypeError)"

text \<open>\<open>clean_value(row.get(name))\<close>: an absent column gives \<open>None\<close>, which is missing.\<close>

definition clean_get :: "(string \<Rightarrow> 'f option) \<Rightarrow> string list \<Rightarrow> cell list \<Rightarrow> string \<Rightarrow> 'f cleaned" where
  "clean_get pf cols row name =
     (case row_get cols row name of None \<Rightarrow> CNone | Some v \<Rightarrow> clean_value pf v)"

text \<open>The ticker of a data row: \<open>None\<close> when the first cell is missing.  \<open>row.iloc[0]\<close>
  raises on a frame without columns.\<close>

definition row_ticker :: "string list \<Rightarrow> cell list \<Rightarrow> error + string option" where
  "row_ticker cols row =
     (if cols = [] then Inl IndexError
      else Inr (if isna (row_cell row 0) then None else Some (strip (py_str (row_cell row 0)))))"

text \<open>One pass of the first loop: skip the row, or append its record.\<close>

definition company_record ::
  "(string \<Rightarrow> 'f option) \<Rightarrow> string list \<Rightarrow> cell list \<Rightarrow> 'f company_rec list
     \<Rightarrow> error + 'f company_rec list" where
  "company_record pf cols row recs =
     bind_err (row_ticker cols row) (\<lambda>tk.
       case tk of
         None \<Rightarrow> Inr recs
       | Some t \<Rightarrow>
           if t = [] \<or> t = ''#N/A'' then Inr recs
           else bind_err (country_of (row_get cols row ''COUNTRY'')) (\<lambda>country.
             Inr (recs @ [\<lparr> co_ticker = t,
                     co_company_name = row_get cols row ''NAME'',
                     co_country_id = country,
                     co_currency = row_get cols row ''CRNCY'',
                     co_gics_sector_name = clean_get pf cols row ''GICS_SECTOR_NAME'',
                     co_gics_industry_group_name = clean_get pf cols row ''GICS_INDUSTRY_GROUP_NAME'',
                     co_gics_industry_name = clean_get pf cols row ''GICS_INDUSTRY_NAME'',
                     co_gics_sub_industry_name = clean_get pf cols row ''GICS_SUB_INDUSTRY_NAME'',
                     co_current_market_cap = clean_get pf cols row ''CUR_MKT_CAP'',
                     co_is_active = True \<rparr>])))"

text \<open>\<open>{r['ticker']: i+1 for i, r in enumerate(records)}\<close>: a later record wins.\<close>

definition ticker_dict :: "'f company_rec list \<Rightarrow> (string \<rightharpoonup> int)" where
  "ticker_dict recs =
     fold (\<lambda>(i, r) m. m(co_ticker r \<mapsto> int i + 1)) (enumerate 0 recs) Map.empty"

text \<open>The tickers that the first loop keeps, in row order: the stripped first cells that
  are not missing, empty or \<open>#N/A\<close>.\<close>

definition csv_tickers :: "csv_frame \<Rightarrow> string list" where
  "csv_tickers df =
     filter (\<lambda>t. t \<noteq> [] \<and> t \<noteq> ''#N/A'')
       (map (\<lambda>row. strip (py_str (row_cell row 0)))
          (filter (\<lambda>row. \<not> isna (row_cell row 0)) (csv_rows df)))"

definition import_companies ::
  "(string \<Rightarrow> 'f option) \<Rightarrow> files \<Rightarrow> 'f database
     \<Rightarrow> error + ('f database \<times> (string \<rightharpoonup> int))" where
  "import_companies pf fs db =
     bind_err (read_csv fs ''company_master.csv'') (\<lambda>df.
     bind_err (for_each (company_record pf (csv_columns df)) (csv_rows df) []) (\<lambda>recs.
       Inr (db\<lparr>companies := fold insert_company recs (companies db)\<rparr>, ticker_dict recs)))"

subsection \<open>import\_index\_membership\<close>

text \<open>One pass of the loop over the rows of the snapshot.\<close>

definition membership_step ::
  "(string \<Rightarrow> 'f option) \<Rightarrow> (string \<rightharpoonup> int) \<Rightarrow> string list \<Rightarrow> cell list \<Rightarrow> 'f database
     \<Rightarrow> error + 'f database" where
  "membership_step pf ticker_to_id cols row db =
     bind_err (row_item cols row ''Ticker'') (\<lambda>ticker_cell.
     bind_err (row_item cols row ''index_id'') (\<lambda>index_id.
       case lookup_company ticker_to_id (companies db) (strip (py_str ticker_cell)) of
         None \<Rightarrow> Inr db
       | Some cid \<Rightarrow>
           bind_err (row_item cols row ''as_of_date'') (\<lambda>date_cell.
             case parse_bloomberg_date date_cell of
               None \<Rightarrow> Inr db
             | Some as_of_date \<Rightarrow>
                 if as_of_date = [] then Inr db
                 else
                   bind_err (row_item cols row ''Weight'') (\<lambda>weight.
                   bind_err (row_item cols row ''Shares'') (\<lambda>shares.
                   bind_err (row_item cols row ''Price'') (\<lambda>price.
                     Inr (db\<lparr>index_membership :=
                       insert_membership
                         \<lparr> im_index_id = index_id, im_company_id = cid,
                           im_as_of_date = as_of_date,
                           im_weight = clean_value pf weight,
                           im_shares_outstanding = clean_value pf shares,
                           im_price = clean_value pf price \<rparr>
                         (index_membership db)\<rparr>)))))))"

definition import_index_membership ::
  "(string \<Rightarrow> 'f option) \<Rightarrow> files \<Rightarrow> (string \<rightharpoonup> int) \<Rightarrow> 'f database \<Rightarrow> error + 'f database" where
  "import_index_membership pf fs ticker_to_id db =
     bind_err (read_csv fs ''index_membership_snapshot.csv'') (\<lambda>df.
       for_each (membership_step pf ticker_to_id (csv_columns df)) (csv_rows df) db)"

subsection \<open>import\_prices\_weekly\<close>

text \<open>A Python dictionary that is iterated: an association list in insertion order.
  Assigning to a key that is present keeps its place.\<close>

fun dict_set :: "'k \<Rightarrow> 'v \<Rightarrow> ('k \<times> 'v) list \<Rightarrow> ('k \<times> 'v) list" where
  "dict_set k v [] = [(k, v)]"
| "dict_set k v ((k', v') # kvs) =
     (if k = k' then (k, v) # kvs else (k', v') # dict_set k v kvs)"

record ticker_block =
  price_col :: nat
  return_col :: nat

text \<open>The text of a header cell: \<open>str(cell).strip() if pd.notna(cell) else None\<close>.\<close>

definition cell_text :: "cell \<Rightarrow> string option" where
  "cell_text v = (if isna v then None else Some (strip (py_str v)))"

text \<open>A field label: the same, with the bound check and \<open>''\<close> for a missing label.\<close>

definition field_label :: "cell list \<Rightarrow> nat \<Rightarrow> string" where
  "field_label field_row col =
     (if col < length field_row \<and> \<not> isna (field_row ! col)
      then strip (py_str (field_row ! col)) else '''')"

text \<open>The two columns of the block that starts at \<open>col\<close>, from its two labels.\<close>

definition block_cols :: "nat \<Rightarrow> string \<Rightarrow> string \<Rightarrow> ticker_block" where
  "block_cols col field1 field2 =
     \<lparr> price_col = (if contains ''Price'' field1 then col
                     else (if contains ''Price'' field2 then col + 1 else col)),
       return_col = (if contains ''Return'' field2 then col + 1
                     else (if contains ''Return'' field1 then col else col + 1)) \<rparr>"

text \<open>The loop \<open>while col < len(ticker_row)\<close> that fills \<open>ticker_cols\<close>.\<close>

function ticker_cols_loop ::
  "cell list \<Rightarrow> cell list \<Rightarrow> nat \<Rightarrow> (string \<times> ticker_block) list
     \<Rightarrow> (string \<times> ticker_block) list" where
  "ticker_cols_loop ticker_row field_row col ticker_cols =
     (if col < length ticker_row then
        (case cell_text (ticker_row ! col) of
           None \<Rightarrow> ticker_cols_loop ticker_row field_row (col + 2) ticker_cols
         | Some tk \<Rightarrow>
             if tk \<noteq> [] \<and> tk \<notin> set [''nan'', ''#N/A Requesting Data...'']
             then ticker_cols_loop ticker_row field_row (col + 2)
                    (dict_set tk (block_cols col (field_label field_row col)
                                    (field_label field_row (col + 1))) ticker_cols)
             else ticker_cols_loop ticker_row field_row (col + 2) ticker_cols)
      else ticker_cols)"
  by pat_completeness auto
termination
  by (relation "measure (\<lambda>(ticker_row, field_row, col, ticker_cols). length ticker_row - col)") auto

text \<open>
  The company of a ticker, as the loops over data rows find it: the dictionary, then the
  table; an id found in the table is stored in the dictionary.  \<open>None\<close> is the
  \<open>continue\<close> of a ticker without company.
\<close>

definition resolve_company ::
  "(string \<rightharpoonup> int) \<Rightarrow> 'f company_row list \<Rightarrow> string \<Rightarrow> (int \<times> (string \<rightharpoonup> int)) option" where
  "resolve_company ticker_to_id t tk =
     (let from_table =
        (case select_company_id t tk of
           None \<Rightarrow> None
         | Some cid \<Rightarrow> Some (cid, ticker_to_id(tk \<mapsto> cid)))
      in case ticker_to_id tk of
           Some i \<Rightarrow> if i \<noteq> 0 then Some (i, ticker_to_id) else from_table
         | None \<Rightarrow> from_table)"

text \<open>\<open>clean_value(df.iloc[row_idx, c]) if c and c < df.shape[1] else None\<close>.\<close>

definition guarded_value ::
  "(string \<Rightarrow> 'f option) \<Rightarrow> frame \<Rightarrow> nat \<Rightarrow> nat \<Rightarrow> error + 'f cleaned" where
  "guarded_value pf df row_idx c =
     (if c \<noteq> 0 \<and> c < frame_ncols df
      then bind_err (iloc df row_idx c) (\<lambda>v. Inr (clean_value pf v))
      else Inr CNone)"

definition price_ticker_step ::
  "(string \<Rightarrow> 'f option) \<Rightarrow> ('f price_row \<Rightarrow> 'kp) \<Rightarrow> frame \<Rightarrow> nat \<Rightarrow> string
     \<Rightarrow> string \<times> ticker_block \<Rightarrow> 'f database \<times> (string \<rightharpoonup> int)
     \<Rightarrow> error + ('f database \<times> (string \<rightharpoonup> int))" where
  "price_ticker_step pf key df row_idx price_date entry st =
     (case entry of (tk, cols) \<Rightarrow> case st of (db, ticker_to_id) \<Rightarrow>
        (case resolve_company ticker_to_id (companies db) tk of
           None \<Rightarrow> Inr (db, ticker_to_id)
         | Some (cid, ticker_to_id') \<Rightarrow>
             bind_err (guarded_value pf df row_idx (price_col cols)) (\<lambda>close_price.
             bind_err (guarded_value pf df row_idx (return_col cols)) (\<lambda>total_return.
               if close_price \<noteq> CNone
               then Inr (db\<lparr>prices_weekly :=
                      insert_or_ignore key
                        \<lparr> pw_company_id = cid, pw_price_date = price_date,
                          pw_close_price = close_price, pw_total_return = total_return \<rparr>
                        (prices_weekly db)\<rparr>, ticker_to_id')
               else Inr (db, ticker_to_id')))))"

definition price_row_step ::
  "(string \<Rightarrow> 'f option) \<Rightarrow> ('f price_row \<Rightarrow> 'kp) \<Rightarrow> frame \<Rightarrow> (string \<times> ticker_block) list
     \<Rightarrow> nat \<Rightarrow> 'f database \<times> (string \<rightharpoonup> int)
     \<Rightarrow> error + ('f database \<times> (string \<rightharpoonup> int))" where
  "price_row_step pf key df ticker_cols row_idx st =
     bind_err (iloc df row_idx 0) (\<lambda>date_val.
       case parse_bloomberg_date date_val of
         None \<Rightarrow> Inr st
       | Some price_date \<Rightarrow>
           if price_date = [] then Inr st
           else for_each (price_ticker_step pf key df row_idx price_date) ticker_cols st)"

definition import_prices_weekly ::
  "(string \<Rightarrow> 'f option) \<Rightarrow> ('f price_row \<Rightarrow> 'kp) \<Rightarrow> files
     \<Rightarrow> 'f database \<times> (string \<rightharpoonup> int) \<Rightarrow> error + ('f database \<times> (string \<rightharpoonup> int))" where
  "import_prices_weekly pf key fs st =
     bind_err (read_excel fs ''price_weekly.xlsx.xlsx'') (\<lambda>df.
     bind_err (iloc_row df 3) (\<lambda>ticker_row.
     bind_err (iloc_row df 4) (\<lambda>field_row.
       for_each (price_row_step pf key df (ticker_cols_loop ticker_row field_row 1 []))
         [6..<length (frame_cells df)] st)))"

subsection \<open>import\_financials\<close>

definition field_map :: "(string \<times> string) list" where
  "field_map =
     [(''SALES_REV_TURN'', ''revenue''),
      (''EBITDA'', ''ebitda''),
      (''IS_INT_EXPENSE'', ''interest_expense''),
      (''CF_FREE_CASH_FLOW'', ''free_cash_flow''),
      (''GROSS_PROFIT'', ''gross_profit''),
      (''SHORT_AND_LONG_TERM_DEBT'', ''total_debt''),
      (''ARD_COST_OF_GOODS_SOLD'', ''cost_of_goods_sold'')]"

text \<open>The inner loop over \<open>f_idx\<close>: the columns of one ticker, by database field.\<close>

definition field_step :: "cell list \<Rightarrow> nat \<Rightarrow> nat \<Rightarrow> (string \<times> nat) list \<Rightarrow> (string \<times> nat) list" where
  "field_step field_row base_col f_idx acc =
     (let col = base_col + f_idx in
      if col < length field_row then
        (case cell_text (field_row ! col) of
           None \<Rightarrow> acc
         | Some field \<Rightarrow>
             (case map_of field_map field of
                None \<Rightarrow> acc
              | Some name \<Rightarrow> if field \<noteq> [] then dict_set name col acc else acc))
      else acc)"

text \<open>The loop over \<open>t_idx\<close>.  \<open>base_col\<close> is below \<open>len(ticker_row)\<close> for every
  \<open>t_idx\<close> below \<open>num_tickers\<close>; the model reads a missing cell otherwise.\<close>

definition ticker_fields_step ::
  "cell list \<Rightarrow> cell list \<Rightarrow> nat \<Rightarrow> (string \<times> (string \<times> nat) list) list
     \<Rightarrow> (string \<times> (string \<times> nat) list) list" where
  "ticker_fields_step ticker_row field_row t_idx ticker_fields =
     (let fields_per_ticker = 7; base_col = 1 + t_idx * fields_per_ticker in
      case cell_text (row_cell ticker_row base_col) of
        None \<Rightarrow> ticker_fields
      | Some tk \<Rightarrow>
          if tk \<noteq> [] \<and> tk \<noteq> ''#N/A Requesting Data...''
          then dict_set tk (fold (field_step field_row base_col) [0..<fields_per_ticker] [])
                 ticker_fields
          else ticker_fields)"

definition build_ticker_fields ::
  "cell list \<Rightarrow> cell list \<Rightarrow> (string \<times> (string \<times> nat) list) list" where
  "build_ticker_fields ticker_row field_row =
     (let num_tickers = (int (length ticker_row) - 1) div 7 in
      fold (ticker_fields_step ticker_row field_row) [0..<nat num_tickers] [])"

text \<open>\<open>values.get(name)\<close> on the dictionary of cleaned values.\<close>

definition value_of :: "(string \<times> 'f cleaned) list \<Rightarrow> string \<Rightarrow> 'f cleaned" where
  "value_of vals name = (case map_of vals name of None \<Rightarrow> CNone | Some v \<Rightarrow> v)"

definition financials_ticker_step ::
  "(string \<Rightarrow> 'f option) \<Rightarrow> frame \<Rightarrow> string \<Rightarrow> nat \<Rightarrow> string
     \<Rightarrow> string \<times> (string \<times> nat) list \<Rightarrow> 'f database \<times> (string \<rightharpoonup> int)
     \<Rightarrow> error + ('f database \<times> (string \<rightharpoonup> int))" where
  "financials_ticker_step pf df period_type row_idx period_end_date entry st =
     (case entry of (tk, field_cols) \<Rightarrow> case st of (db, ticker_to_id) \<Rightarrow>
        (case resolve_company ticker_to_id (companies db) tk of
           None \<Rightarrow> Inr (db, ticker_to_id)
         | Some (cid, ticker_to_id') \<Rightarrow>
             bind_err (for_each (\<lambda>(field, col) vals.
                         bind_err (iloc df row_idx col) (\<lambda>v.
                           Inr (vals @ [(field, clean_value pf v)]))) field_cols []) (\<lambda>vals.
               if list_all (\<lambda>(field, v). v = CNone) vals then Inr (db, ticker_to_id')
               else Inr (db\<lparr>financials :=
                      insert_or_replace financials_key
                        \<lparr> fi_company_id = cid, fi_period_end_date = period_end_date,
                          fi_period_type = period_type,
                          fi_revenue = value_of vals ''revenue'',
                          fi_ebitda = value_of vals ''ebitda'',
                          fi_interest_expense = value_of vals ''interest_expense'',
                          fi_free_cash_flow = value_of vals ''free_cash_flow'',
                          fi_gross_profit = value_of vals ''gross_profit'',
                          fi_total_debt = value_of vals ''total_debt'',
                          fi_cost_of_goods_sold = value_of vals ''cost_of_goods_sold'',
                          fi_currency = None \<rparr>
                        (financials db)\<rparr>, ticker_to_id'))))"

definition financials_row_step ::
  "(string \<Rightarrow> 'f option) \<Rightarrow> frame \<Rightarrow> string \<Rightarrow> (string \<times> (string \<times> nat) list) list
     \<Rightarrow> nat \<Rightarrow> 'f database \<times> (string \<rightharpoonup> int)
     \<Rightarrow> error + ('f database \<times> (string \<rightharpoonup> int))" where
  "financials_row_step pf df period_type ticker_fields row_idx st =
     bind_err (iloc df row_idx 0) (\<lambda>date_val.
       case parse_bloomberg_date date_val of
         None \<Rightarrow> Inr st
       | Some period_end_date \<Rightarrow>
           if period_end_date = [] then Inr st
           else for_each (financials_ticker_step pf df period_type row_idx period_end_date)
                  ticker_fields st)"

definition import_financials ::
  "(string \<Rightarrow> 'f option) \<Rightarrow> files \<Rightarrow> string \<Rightarrow> string
     \<Rightarrow> 'f database \<times> (string \<rightharpoonup> int) \<Rightarrow> error + ('f database \<times> (string \<rightharpoonup> int))" where
  "import_financials pf fs filename period_type st =
     bind_err (read_excel fs filename) (\<lambda>df.
     bind_err (iloc_row df 3) (\<lambda>ticker_row.
     bind_err (iloc_row df 5) (\<lambda>field_row.
       for_each (financials_row_step pf df period_type (build_ticker_fields ticker_row field_row))
         [6..<length (frame_cells df)] st)))"

subsection \<open>import\_macro\<close>

text \<open>\<open>str.lower()\<close> on the letters A to Z.  Below code point 256 the other characters
  that it changes become characters outside a to z, so the tests for the ASCII words below
  see the same as in Python.\<close>

definition lower_char :: "char \<Rightarrow> char" where
  "lower_char c =
     (case index_of c ''ABCDEFGHIJKLMNOPQRSTUVWXYZ'' of
        None \<Rightarrow> c
      | Some i \<Rightarrow> ''abcdefghijklmnopqrstuvwxyz'' ! i)"

definition indicator_category :: "string \<Rightarrow> string" where
  "indicator_category indicator_name =
     (let name_lower = map lower_char indicator_name in
      if contains ''gdp'' name_lower then ''GDP''
      else if contains ''cpi'' name_lower \<or> contains ''price'' name_lower
              \<or> contains ''inflation'' name_lower then ''CPI''
      else if contains ''unemploy'' name_lower \<or> contains ''employ'' name_lower then ''Employment''
      else if contains ''housing'' name_lower \<or> contains ''construction'' name_lower then ''Housing''
      else if contains ''rate'' name_lower \<or> contains ''yield'' name_lower then ''Rates''
      else if contains ''trade'' name_lower \<or> contains ''export'' name_lower
              \<or> contains ''import'' name_lower then ''Trade''
      else ''Other'')"

definition macro_col_step ::
  "(string \<Rightarrow> 'f option) \<Rightarrow> ('f macro_row \<Rightarrow> 'km) \<Rightarrow> frame \<Rightarrow> string \<Rightarrow> (nat \<rightharpoonup> string)
     \<Rightarrow> nat \<Rightarrow> string \<Rightarrow> string option \<Rightarrow> nat \<Rightarrow> 'f database \<Rightarrow> error + 'f database" where
  "macro_col_step pf key df country date_map row_idx indicator_name bloomberg_ticker col db =
     (case date_map col of
        None \<Rightarrow> Inr db
      | Some indicator_date \<Rightarrow>
          bind_err (iloc df row_idx col) (\<lambda>v.
            let val = clean_value pf v in
            if val = CNone then Inr db
            else Inr (db\<lparr>macro_indicators :=
                   insert_or_ignore key
                     \<lparr> mi_country_id = country, mi_indicator_date = indicator_date,
                       mi_indicator_name = indicator_name,
                       mi_bloomberg_ticker = bloomberg_ticker,
                       mi_indicator_value = val,
                       mi_indicator_category = indicator_category indicator_name \<rparr>
                     (macro_indicators db)\<rparr>)))"

definition macro_row_step ::
  "(string \<Rightarrow> 'f option) \<Rightarrow> ('f macro_row \<Rightarrow> 'km) \<Rightarrow> frame \<Rightarrow> string \<Rightarrow> (nat \<rightharpoonup> string)
     \<Rightarrow> nat \<Rightarrow> 'f database \<Rightarrow> error + 'f database" where
  "macro_row_step pf key df country date_map row_idx db =
     bind_err (iloc df row_idx 0) (\<lambda>name_cell.
     bind_err (iloc df row_idx 1) (\<lambda>ticker_cell.
       case cell_text name_cell of
         None \<Rightarrow> Inr db
       | Some indicator_name \<Rightarrow>
           if indicator_name = [] \<or> indicator_name = ''nan'' then Inr db
           else for_each (macro_col_step pf key df country date_map row_idx indicator_name
                            (cell_text ticker_cell))
                  [2..<frame_ncols df] db))"

definition import_macro ::
  "(string \<Rightarrow> 'f option) \<Rightarrow> ('f macro_row \<Rightarrow> 'km) \<Rightarrow> files \<Rightarrow> string \<Rightarrow> string
     \<Rightarrow> 'f database \<Rightarrow> error + 'f database" where
  "import_macro pf key fs filename country db =
     bind_err (read_excel fs filename) (\<lambda>df.
       for_each (macro_row_step pf key df country (build_date_map (frame_ncols df)))
         [2..<length (frame_cells df)] db)"

subsection \<open>import\_interest\_rates\<close>

definition col_map :: "(nat \<times> string \<times> string \<times> string) list" where
  "col_map =
     [(1, ''US'', ''10Y_YIELD'', ''USGG10YR Index''),
      (2, ''GB'', ''10Y_YIELD'', ''GTGBP10Y Govt''),
      (3, ''DE'', ''10Y_YIELD'', ''GTDEM10Y Govt''),
      (4, ''JP'', ''10Y_YIELD'', ''GTJPY10Y Govt''),
      (5, ''CN'', ''10Y_YIELD'', ''GTCNY10Y Govt''),
      (6, ''US'', ''POLICY_RATE'', ''FDTR Index''),
      (7, ''GB'', ''POLICY_RATE'', ''UKBRBASE Index''),
      (8, ''DE'', ''POLICY_RATE'', ''EURR002W Index''),
      (9, ''JP'', ''POLICY_RATE'', ''BOJDTR Index''),
      (10, ''CN'', ''POLICY_RATE'', ''PBOC7P Index'')]"

definition rate_col_step ::
  "(string \<Rightarrow> 'f option) \<Rightarrow> ('f rate_row \<Rightarrow> 'kr) \<Rightarrow> frame \<Rightarrow> nat \<Rightarrow> string
     \<Rightarrow> nat \<times> string \<times> string \<times> string \<Rightarrow> 'f database \<Rightarrow> error + 'f database" where
  "rate_col_step pf key df row_idx rate_date entry db =
     (case entry of (col, country, rate_type, tk) \<Rightarrow>
        if col \<ge> frame_ncols df then Inr db
        else bind_err (iloc df row_idx col) (\<lambda>v.
          let val = clean_value pf v in
          if val = CNone then Inr db
          else Inr (db\<lparr>interest_rates :=
                 insert_or_ignore key
                   \<lparr> ir_country_id = country, ir_rate_date = rate_date,
                     ir_rate_type = rate_type, ir_bloomberg_ticker = tk,
                     ir_rate_value = val \<rparr>
                   (interest_rates db)\<rparr>)))"

definition rate_row_step ::
  "(string \<Rightarrow> 'f option) \<Rightarrow> ('f rate_row \<Rightarrow> 'kr) \<Rightarrow> frame \<Rightarrow> nat \<Rightarrow> 'f database
     \<Rightarrow> error + 'f database" where
  "rate_row_step pf key df row_idx db =
     bind_err (iloc df row_idx 0) (\<lambda>date_val.
       case parse_bloomberg_date date_val of
         None \<Rightarrow> Inr db
       | Some rate_date \<Rightarrow>
           if rate_date = [] then Inr db
           else for_each (rate_col_step pf key df row_idx rate_date) col_map db)"

definition import_interest_rates ::
  "(string \<Rightarrow> 'f option) \<Rightarrow> ('f rate_row \<Rightarrow> 'kr) \<Rightarrow> files \<Rightarrow> 'f database \<Rightarrow> error + 'f database" where
  "import_interest_rates pf key fs db =
     bind_err (read_excel fs ''5 countries 10y yield and policy rate.xlsx'') (\<lambda>df.
       for_each (rate_row_step pf key df) [6..<length (frame_cells df)] db)"

subsection \<open>main\<close>

text \<open>
  \<open>main\<close> runs the loaders in order inside \<open>try\<close>; \<open>except Exception\<close> prints the
  error and \<open>finally\<close> closes the connection, so \<open>main\<close> itself returns normally.  Every
  loader commits when it is done, and the connection is closed without a commit after an
  exception: the database is then what the last finished loader left.  The state between
  loaders is the database and \<open>ticker_to_id\<close>.

  \<open>create_database\<close> runs \<open>schema.sql\<close>, which is not among the sources: it is the
  parameter \<open>create\<close>.
\<close>

fun run_steps :: "('s \<Rightarrow> error + 's) list \<Rightarrow> 's \<Rightarrow> 's \<times> error option" where
  "run_steps [] s = (s, None)"
| "run_steps (step # steps) s =
     (case step s of Inl e \<Rightarrow> (s, Some e) | Inr s' \<Rightarrow> run_steps steps s')"

definition macro_files :: "(string \<times> string) list" where
  "macro_files =
     [(''usa_macros_2024~2005.xlsx'', ''US''),
      (''uk_macros_2024~2005.xlsx'', ''GB''),
      (''de_macros_2024~2005.xlsx'', ''DE''),
      (''jp_macros_2024~2005.xlsx'', ''JP''),
      (''cn_macros_2024~2005.xlsx'', ''CN'')]"

text \<open>A step on the database alone leaves the dictionary as it is.\<close>

definition on_db ::
  "('f database \<Rightarrow> error + 'f database) \<Rightarrow> 'f database \<times> (string \<rightharpoonup> int)
     \<Rightarrow> error + ('f database \<times> (string \<rightharpoonup> int))" where
  "on_db step st = bind_err (step (fst st)) (\<lambda>db. Inr (db, snd st))"

definition main_steps ::
  "(string \<Rightarrow> 'f option) \<Rightarrow> ('f, 'kp, 'km, 'kr) table_keys
     \<Rightarrow> ('f database \<Rightarrow> error + 'f database) \<Rightarrow> files
     \<Rightarrow> ('f database \<times> (string \<rightharpoonup> int) \<Rightarrow> error + ('f database \<times> (string \<rightharpoonup> int))) list" where
  "main_steps pf keys create fs =
     [on_db create,
      (\<lambda>st. import_companies pf fs (fst st)),
      (\<lambda>st. on_db (import_index_membership pf fs (snd st)) st),
      import_prices_weekly pf (price_key keys) fs,
      import_financials pf fs ''financials_annual.xlsx'' ''ANNUAL'',
      (\<lambda>st. if xlsx_files fs ''financials_quarterly.xlsx'' \<noteq> None
            then import_financials pf fs ''financials_quarterly.xlsx'' ''QUARTERLY'' st
            else Inr st)]
     @ map (\<lambda>(filename, country) st.
              if xlsx_files fs filename \<noteq> None
              then on_db (import_macro pf (macro_key keys) fs filename country) st
              else Inr st) macro_files
     @ [on_db (import_interest_rates pf (rate_key keys) fs)]"

text \<open>The database file after \<open>main\<close>, and the exception that \<open>main\<close> caught, if any.\<close>

definition main ::
  "(string \<Rightarrow> 'f option) \<Rightarrow> ('f, 'kp, 'km, 'kr) table_keys
     \<Rightarrow> ('f database \<Rightarrow> error + 'f database) \<Rightarrow> files \<Rightarrow> 'f database
     \<Rightarrow> 'f database \<times> error option" where
  "main pf keys create fs db =
     (case run_steps (main_steps pf keys create fs) (db, Map.empty) of
        (st, caught) \<Rightarrow> (fst st, caught))"

section \<open>fix\_dates.py: the files\<close>

text \<open>A workbook is its active sheet.  \<open>load_workbook\<close> raises when there is no file;
  \<open>wb.save\<close> stores the edited sheet under the same name.\<close>

definition fix_date_column ::
  "(string \<rightharpoonup> worksheet) \<Rightarrow> string \<Rightarrow> string \<Rightarrow> error + (string \<rightharpoonup> worksheet)" where
  "fix_date_column disk filename period_type =
     (case disk filename of
        None \<Rightarrow> Inl (FileNotFoundError filename)
      | Some ws \<Rightarrow> Inr (disk(filename \<mapsto> fix_sheet period_type ws)))"

definition fix_dates_files :: "(string \<times> string) list" where
  "fix_dates_files =
     [(''financials_annual.xlsx'', ''ANNUAL''),
      (''financials_quarterly.xlsx'', ''QUARTERLY''),
      (''financials_fiscal_annual.xlsx'', ''ANNUAL''),
      (''financials_fiscal_quarterly.xlsx'', ''QUARTERLY'')]"

text \<open>The loop of the script: \<open>try\<close> around each file, the errors printed.  The state
  is the disk and the errors that were printed.\<close>

definition fix_dates_step ::
  "string \<times> string \<Rightarrow> (string \<rightharpoonup> worksheet) \<times> error list
     \<Rightarrow> (string \<rightharpoonup> worksheet) \<times> error list" where
  "fix_dates_step file st =
     (case file of (filename, period_type) \<Rightarrow> case st of (d, printed) \<Rightarrow>
        (case fix_date_column d filename period_type of
           Inl e \<Rightarrow> (d, printed @ [e])
         | Inr d' \<Rightarrow> (d', printed)))"

definition fix_dates_main :: "(string \<rightharpoonup> worksheet) \<Rightarrow> (string \<rightharpoonup> worksheet) \<times> error list" where
  "fix_dates_main disk = fold fix_dates_step fix_dates_files (disk, [])"

section \<open>combine\_memb.py\<close>

text \<open>
  The directory is the list of its files, each a name and the sheet that
  \<open>pd.read_excel\<close> reads from it: the header row as column names (their \<open>str()\<close>
  text) and the data rows.  \<open>glob\<close> selects by pattern; \<open>sorted\<close> orders the paths,
  which for file names is the order of the strings.
\<close>

definition starts_with :: "string \<Rightarrow> string \<Rightarrow> bool" where
  "starts_with pre s = (take (length pre) s = pre)"

definition ends_with :: "string \<Rightarrow> string \<Rightarrow> bool" where
  "ends_with suf s = (length suf \<le> length s \<and> drop (length s - length suf) s = suf)"

text \<open>The pattern \<open>pre*.xlsx\<close>: the star may be empty, but prefix and suffix do not overlap.\<close>

definition glob_match :: "string \<Rightarrow> string \<Rightarrow> bool" where
  "glob_match pre name =
     (starts_with pre name \<and> ends_with ''.xlsx'' name
      \<and> length pre + length ''.xlsx'' \<le> length name)"

definition selected_files :: "(string \<times> csv_frame) list \<Rightarrow> (string \<times> csv_frame) list" where
  "selected_files dir =
     filter (\<lambda>f. \<not> starts_with ''~$'' (fst f))
       (sort_key fst (filter (\<lambda>f. glob_match ''SPX as of'' (fst f)) dir
                      @ filter (\<lambda>f. glob_match ''UKX as of'' (fst f)) dir))"

text \<open>\<open>re.search(r"(20\d{2})", name)\<close>: the first place where the pattern matches.\<close>

fun find_year :: "string \<Rightarrow> string option" where
  "find_year (a # b # c # d # rest) =
     (if a = CHR ''2'' \<and> b = CHR ''0'' \<and> is_digit c \<and> is_digit d then Some [a, b, c, d]
      else find_year (b # c # d # rest))"
| "find_year _ = None"

record snapshot_row =
  sr_index_id :: string
  sr_as_of_date :: string
  sr_ticker :: string
  sr_name :: cell
  sr_weight :: cell
  sr_shares :: cell
  sr_price :: cell

text \<open>A column of \<open>keep\<close> in a row; a column that the file does not have is missing in
  the concatenated table.\<close>

definition kept :: "string list \<Rightarrow> cell list \<Rightarrow> string \<Rightarrow> cell" where
  "kept cols row name = (case row_get cols row name of None \<Rightarrow> Missing | Some v \<Rightarrow> v)"

text \<open>
  The body of the loop over the files: the rows that one file contributes.  Two column
  names of a file may coincide once stripped; then \<open>df["Ticker"]\<close> or \<open>df["Name"]\<close> is a
  frame of several columns, which has no \<open>.str\<close>: the line that strips the column raises
  \<open>AttributeError\<close>.  Of a \<open>Weight\<close>, \<open>Shares\<close> or \<open>Price\<close> column that occurs more than
  once the row shows the first.
\<close>

definition file_rows :: "string \<times> csv_frame \<Rightarrow> error + snapshot_row list" where
  "file_rows f =
     (case f of (name, df) \<Rightarrow>
        let index_id = take 3 name in
        (case find_year name of
          None \<Rightarrow> Inl (ValueError (Msg (''Cannot find year in filename: '' @ name)))
        | Some m \<Rightarrow>
            let year = int (int_of_digits m);
                as_of_date = fmt_d year @ ''-12-31'';
                cols = map strip (csv_columns df);
                keep = filter (\<lambda>c. c \<in> set cols) [''Ticker'', ''Name'', ''Weight'', ''Shares'', ''Price'']
            in if ''Ticker'' \<notin> set keep
               then Inl (ValueError
                      (MsgColumns (name @ '': missing 'Ticker' column, got columns='') cols))
               else if 1 < count_list cols ''Ticker'' \<or> 1 < count_list cols ''Name''
               then Inl AttributeError
               else Inr (map (\<lambda>row.
                      \<lparr> sr_index_id = index_id, sr_as_of_date = as_of_date,
                        sr_ticker = strip (py_str (kept cols row ''Ticker'')),
                        sr_name = (if ''Name'' \<in> set keep
                                   then Str (strip (py_str (kept cols row ''Name'')))
                                   else Missing),
                        sr_weight = (if ''Weight'' \<in> set keep then kept cols row ''Weight'' else Missing),
                        sr_shares = (if ''Shares'' \<in> set keep then kept cols row ''Shares'' else Missing),
                        sr_price = (if ''Price'' \<in> set keep then kept cols row ''Price'' else Missing) \<rparr>)
                    (filter (\<lambda>row. \<not> isna (kept cols row ''Ticker'')) (csv_rows df)))))"

text \<open>\<open>drop_duplicates(subset=...)\<close> keeps the first row of every key.\<close>

fun drop_duplicates :: "('r \<Rightarrow> 'k) \<Rightarrow> 'k list \<Rightarrow> 'r list \<Rightarrow> 'r list" where
  "drop_duplicates key seen [] = []"
| "drop_duplicates key seen (r # rs) =
     (if key r \<in> set seen then drop_duplicates key seen rs
      else r # drop_duplicates key (key r # seen) rs)"

definition snapshot_key :: "snapshot_row \<Rightarrow> string \<times> string \<times> string" where
  "snapshot_key r = (sr_index_id r, sr_as_of_date r, sr_ticker r)"

text \<open>The frames of the files, in order; the first exception ends the script.\<close>

fun collect_rows :: "(string \<times> csv_frame) list \<Rightarrow> error + snapshot_row list list" where
  "collect_rows [] = Inr []"
| "collect_rows (f # fs) =
     bind_err (file_rows f) (\<lambda>df. bind_err (collect_rows fs) (\<lambda>rest. Inr (df # rest)))"

text \<open>
  The column labels of the frame that the loop appends for a file: the two inserted
  columns, then every column of the file whose stripped name is in \<open>keep\<close>, in the order
  of \<open>keep\<close>.
\<close>

definition frame_columns :: "csv_frame \<Rightarrow> string list" where
  "frame_columns df =
     (let cols = map strip (csv_columns df) in
      [''index_id'', ''as_of_date'']
        @ concat (map (\<lambda>c. filter (\<lambda>x. x = c) cols)
                    [''Ticker'', ''Name'', ''Weight'', ''Shares'', ''Price'']))"

text \<open>
  \<open>pd.concat\<close> stacks the frames as they are when all have the same column labels.
  Otherwise it aligns each frame to the union of the labels, which raises
  \<open>InvalidIndexError\<close> for a frame that has a label twice.
\<close>

definition concat_aligns :: "string list list \<Rightarrow> bool" where
  "concat_aligns labels =
     (list_all (\<lambda>l. l = hd labels) labels \<or> list_all distinct labels)"

text \<open>
  The script: the table written to \<open>index_membership_snapshot.csv\<close>, or the exception
  that ended it before anything was written.  \<open>pd.concat\<close> raises on an empty list.
\<close>

definition combine_memb :: "(string \<times> csv_frame) list \<Rightarrow> error + snapshot_row list" where
  "combine_memb dir =
     bind_err (collect_rows (selected_files dir)) (\<lambda>rows.
       if rows = [] then Inl (ValueError (Msg ''No objects to concatenate''))
       else if \<not> concat_aligns (map (\<lambda>f. frame_columns (snd f)) (selected_files dir))
       then Inl InvalidIndexError
       else Inr (drop_duplicates snapshot_key [] (concat rows)))"

section \<open>Definitions for the proofs and examples\<close>

text \<open>The ticker and id that row \<open>i\<close> of the records gets, counting from \<open>n\<close>.\<close>

definition id_pairs :: "nat \<Rightarrow> 'f company_rec list \<Rightarrow> (string \<times> int) list" where
  "id_pairs n recs = map (\<lambda>(i, r). (co_ticker r, int i + 1)) (enumerate n recs)"

text \<open>A table whose row ids count from 1 in insertion order.\<close>

definition ids_in_order :: "'f company_row list \<Rightarrow> bool" where
  "ids_in_order t = (map co_company_id t = map (\<lambda>k. int k + 1) [0..<length t])"

text \<open>A stand-in for \<open>float()\<close> in the examples: it reads strings of digits.\<close>

definition demo_float :: "string \<Rightarrow> nat option" where
  "demo_float s = (if s \<noteq> [] \<and> list_all is_digit s then Some (int_of_digits s) else None)"

definition empty_db :: "nat database" where
  "empty_db = \<lparr> companies = [], index_membership = [], prices_weekly = [], financials = [],
                macro_indicators = [], interest_rates = [] \<rparr>"

definition demo_company_master :: csv_frame where
  "demo_company_master =
     \<lparr> csv_columns = [''Ticker'', ''NAME'', ''COUNTRY''],
       csv_rows = [[Str '' AAPL US Equity'', Str ''Apple Inc'', Str ''USA''],
                   [Str ''#N/A'', Missing, Missing],
                   [Missing, Str ''no ticker'', Str ''GB''],
                   [Str ''VOD LN Equity'', Str ''Vodafone'', Str ''GBR'']] \<rparr>"

definition demo_files :: files where
  "demo_files = \<lparr> csv_files = [''company_master.csv'' \<mapsto> demo_company_master],
                   xlsx_files = Map.empty \<rparr>"

text \<open>Column \<open>col\<close> of the ticker row starts a block for ticker \<open>tk\<close>: the test of the
  loop in \<open>import_prices_weekly\<close>.\<close>

definition ticker_block_at :: "cell list \<Rightarrow> nat \<Rightarrow> string \<Rightarrow> bool" where
  "ticker_block_at ticker_row col tk =
     (col < length ticker_row \<and> odd col \<and> cell_text (ticker_row ! col) = Some tk
      \<and> tk \<noteq> [] \<and> tk \<notin> set [''nan'', ''#N/A Requesting Data...''])"

text \<open>A match of \<open>20\d{2}\<close>.\<close>

definition is_year :: "string \<Rightarrow> bool" where
  "is_year m = (\<exists>c d. m = [CHR ''2'', CHR ''0'', c, d] \<and> is_digit c \<and> is_digit d)"

definition demo_dir :: "(string \<times> csv_frame) list" where
  "demo_dir =
     [(''UKX as of Dec 30 2005.xlsx'',
         \<lparr> csv_columns = [''Ticker'', ''Name''],
           csv_rows = [[Str ''VOD LN'', Str ''Vodafone '']] \<rparr>),
      (''notes.txt'', \<lparr> csv_columns = [], csv_rows = [] \<rparr>),
      (''SPX as of Dec 31 20241.xlsx'',
         \<lparr> csv_columns = ['' Ticker '', ''Weight''],
           csv_rows = [[Str ''AAPL UW'', Num ''7.1''], [Str '' AAPL UW'', Num ''7.2''],
                       [Missing, Num ''1.0'']] \<rparr>)]"

text \<open>Unique keys for the three tables whose constraint the spec does not name, for the
  examples.\<close>

definition demo_keys ::
  "(nat, int \<times> string, string \<times> string \<times> string, string \<times> string \<times> string) table_keys" where
  "demo_keys =
     \<lparr> price_key = (\<lambda>r. (pw_company_id r, pw_price_date r)),
       macro_key = (\<lambda>r. (mi_country_id r, mi_indicator_date r, mi_indicator_name r)),
       rate_key = (\<lambda>r. (ir_country_id r, ir_rate_date r, ir_rate_type r)) \<rparr>"

text \<open>A disk for \<open>fix_dates.py\<close> that holds the quarterly file only, with an empty
  sheet; and the value of a cell of a file on a disk.\<close>

definition demo_sheet :: worksheet where
  "demo_sheet = (\<lambda>p. XEmpty)"

definition demo_disk :: "string \<rightharpoonup> worksheet" where
  "demo_disk = [''financials_quarterly.xlsx'' \<mapsto> demo_sheet]"

definition sheet_cell :: "(string \<rightharpoonup> worksheet) \<Rightarrow> string \<Rightarrow> nat \<times> nat \<Rightarrow> xl_value option" where
  "sheet_cell disk filename pos = (case disk filename of None \<Rightarrow> None | Some ws \<Rightarrow> Some (ws pos))"

text \<open>A directory for \<open>combine_memb.py\<close> whose only export has no year in its name.\<close>

definition demo_dir_no_year :: "(string \<times> csv_frame) list" where
  "demo_dir_no_year =
     [(''SPX as of today.xlsx'',
         \<lparr> csv_columns = [''Ticker''], csv_rows = [[Str ''AAPL UW'']] \<rparr>)]"

text \<open>Whether a string has four decimal digits in a row somewhere: every match of the
  group of \<open>%Y\<close> is such a place.\<close>

fun has4 :: "string \<Rightarrow> bool" where
  "has4 (a # b # c # d # rest) =
     ((is_digit a \<and> is_digit b \<and> is_digit c \<and> is_digit d) \<or> has4 (b # c # d # rest))"
| "has4 _ = False"

text \<open>
  A loader step \<open>L\<close> is oblivious of its target table when the table's content does not
  decide what the step does: started with any content \<open>t\<close> in the table (\<open>put t s\<close>), it
  either raises the same exception, or runs the same statements \<open>rs\<close> on \<open>t\<close> and leaves
  the other tables (\<open>rest\<close>) as they were.  \<open>ins\<close> is the effect of one statement.
\<close>

definition oblivious ::
  "('r \<Rightarrow> 'r list \<Rightarrow> 'r list) \<Rightarrow> ('r list \<Rightarrow> 's \<Rightarrow> 's) \<Rightarrow> ('s \<Rightarrow> 'x) \<Rightarrow> ('s \<Rightarrow> error + 's) \<Rightarrow> bool" where
  "oblivious ins put rest L =
     (\<forall>s. (\<exists>e. \<forall>t. L (put t s) = Inl e)
        \<or> (\<exists>rs s'. rest s' = rest s \<and> (\<forall>t. L (put t s) = Inr (put (fold ins rs t) s'))))"

text \<open>The rows of a list that are the last of their key, in order: what a run of
  \<open>INSERT OR REPLACE\<close> statements leaves of them.\<close>

fun last_per_key :: "('r \<Rightarrow> 'k) \<Rightarrow> 'r list \<Rightarrow> 'r list" where
  "last_per_key key [] = []"
| "last_per_key key (r # rs) =
     (if key r \<in> set (map key rs) then last_per_key key rs else r # last_per_key key rs)"

text \<open>Small input files for a whole run: two companies, a membership snapshot with a
  repeated row, an unknown ticker and a bad date, and one sheet for each other loader.\<close>

definition demo_date :: "nat \<Rightarrow> nat \<Rightarrow> nat \<Rightarrow> cell" where
  "demo_date y m d =
     DateTime \<lparr>dt_year = y, dt_month = m, dt_day = d, dt_hour = 0, dt_minute = 0, dt_second = 0\<rparr>"

definition demo_membership :: csv_frame where
  "demo_membership =
     \<lparr> csv_columns = [''index_id'', ''as_of_date'', ''Ticker'', ''Weight'', ''Shares'', ''Price''],
       csv_rows =
         [[Str ''SPX'', Str ''2024-12-31'', Str ''AAPL US Equity'', Num ''7'', Num ''100'', Num ''250''],
          [Str ''SPX'', Str ''2024-12-31'', Str ''AAPL US Equity'', Num ''8'', Num ''100'', Num ''250''],
          [Str ''UKX'', Str ''2005-12-31'', Str ''VOD LN Equity'', Num ''3'', Str ''--'', Num ''1''],
          [Str ''SPX'', Str ''year end'', Str ''AAPL US Equity'', Num ''7'', Num ''100'', Num ''250''],
          [Str ''SPX'', Str ''2024-12-31'', Str ''MSFT US Equity'', Num ''6'', Num ''90'', Num ''400'']] \<rparr>"


definition demo_prices :: frame where
  "demo_prices =
     \<lparr> frame_ncols = 3,
       frame_cells =
         [[], [], [],
          [Missing, Str ''AAPL US Equity'', Missing],
          [Missing, Str ''Last Price'', Str ''Day to Day Total Return''],
          [],
          [demo_date 2024 12 27, Num ''255'', Num ''1''],
          [Str ''n/a'', Num ''255'', Num ''1''],
          [demo_date 2024 12 27, Num ''256'', Num ''2'']] \<rparr>"

definition demo_financials :: frame where
  "demo_financials =
     \<lparr> frame_ncols = 8,
       frame_cells =
         [[], [], [],
          [Missing, Str ''VOD LN Equity''],
          [],
          [Str ''Dates'', Str ''SALES_REV_TURN'', Str ''EBITDA'', Str ''IS_INT_EXPENSE'',
           Str ''CF_FREE_CASH_FLOW'', Str ''GROSS_PROFIT'', Str ''SHORT_AND_LONG_TERM_DEBT'',
           Str ''ARD_COST_OF_GOODS_SOLD''],
          [demo_date 2005 12 31, Num ''100'', Num ''20''],
          [demo_date 2005 12 31, Num ''110'', Num ''25'']] \<rparr>"

definition demo_macro :: frame where
  "demo_macro =
     \<lparr> frame_ncols = 4,
       frame_cells =
         [[],
          [Str ''Text'', Str ''Ticker'', Str ''Dec'', Str ''Nov''],
          [Str ''GDP Growth'', Str ''GDP CQOQ Index'', Num ''3'', Num ''2''],
          [Str ''GDP Growth'', Str ''GDP CQOQ Index'', Num ''4'', Str ''#N/A'']] \<rparr>"

definition demo_rates :: frame where
  "demo_rates =
     \<lparr> frame_ncols = 3,
       frame_cells =
         [[], [], [], [], [], [],
          [demo_date 2024 12 27, Num ''4'', Num ''3''],
          [demo_date 2024 12 27, Num ''5'', Missing]] \<rparr>"

definition demo_inputs :: files where
  "demo_inputs =
     \<lparr> csv_files = [''company_master.csv'' \<mapsto> demo_company_master,
                     ''index_membership_snapshot.csv'' \<mapsto> demo_membership],
       xlsx_files = [''price_weekly.xlsx.xlsx'' \<mapsto> demo_prices,
                      ''financials_annual.xlsx'' \<mapsto> demo_financials,
                      ''usa_macros_2024~2005.xlsx'' \<mapsto> demo_macro,
                      ''5 countries 10y yield and policy rate.xlsx'' \<mapsto> demo_rates] \<rparr>"

text \<open>The database and dictionary after \<open>import_companies\<close> on these files.\<close>

definition demo_start :: "nat database \<times> (string \<rightharpoonup> int)" where
  "demo_start =
     (case import_companies demo_float demo_inputs empty_db of
        Inl e \<Rightarrow> (empty_db, Map.empty)
      | Inr st \<Rightarrow> st)"

section \<open>Verification\<close>

subsection \<open>Number formatting\<close>

lemma show_nat_small: "n < 10 \<Longrightarrow> show_nat n = [digit_char n]"
  by (simp add: show_nat.simps)

lemma show_nat_step: "10 \<le> n \<Longrightarrow> show_nat n = show_nat (n div 10) @ [digit_char n]"
  by (subst show_nat.simps) simp

lemma length_show_nat_2: "10 \<le> n \<Longrightarrow> n < 100 \<Longrightarrow> length (show_nat n) = 2"
  by (simp add: show_nat_step show_nat_small)

subsection \<open>Digits and rendered dates\<close>

lemma digit_char_cases: "digit_char n \<in> set ''0123456789''"
proof -
  have "n mod 10 < 10" by simp
  then have "n mod 10 = 0 \<or> n mod 10 = 1 \<or> n mod 10 = 2 \<or> n mod 10 = 3 \<or> n mod 10 = 4
     \<or> n mod 10 = 5 \<or> n mod 10 = 6 \<or> n mod 10 = 7 \<or> n mod 10 = 8 \<or> n mod 10 = 9"
    by arith
  then show ?thesis unfolding digit_char_def by (elim disjE) simp_all
qed

lemma is_digit_digit_char [simp]: "is_digit (digit_char n)"
  using digit_char_cases [of n] by (auto simp: is_digit_def)

lemma digit_val_digit_char [simp]: "digit_val (digit_char n) = n mod 10"
proof -
  have "n mod 10 < 10" by simp
  then have "n mod 10 = 0 \<or> n mod 10 = 1 \<or> n mod 10 = 2 \<or> n mod 10 = 3 \<or> n mod 10 = 4
     \<or> n mod 10 = 5 \<or> n mod 10 = 6 \<or> n mod 10 = 7 \<or> n mod 10 = 8 \<or> n mod 10 = 9"
    by arith
  then show ?thesis unfolding digit_char_def digit_val_def by (elim disjE) simp_all
qed

lemma is_digit_not_space: "is_digit c \<Longrightarrow> \<not> is_space c"
  by (auto simp: is_digit_def is_space_def)

lemma zfill2: "n < 100 \<Longrightarrow> zfill 2 (show_nat n) = [digit_char (n div 10), digit_char n]"
proof (cases "n < 10")
  case True
  then show ?thesis by (simp add: show_nat_small zfill_def digit_char_def)
next
  case False
  assume "n < 100"
  with False show ?thesis by (simp add: show_nat_step show_nat_small zfill_def)
qed

lemma zfill4:
  assumes "y < 10000"
  shows "zfill 4 (show_nat y)
     = [digit_char (y div 1000), digit_char (y div 100), digit_char (y div 10), digit_char y]"
proof -
  consider "y < 10" | "10 \<le> y" "y < 100" | "100 \<le> y" "y < 1000" | "1000 \<le> y" by linarith
  then show ?thesis
  proof cases
    case 1
    then show ?thesis by (simp add: show_nat_small zfill_def digit_char_def numeral_3_eq_3)
  next
    case 2
    then have "y div 100 = 0" "y div 1000 = 0" by simp_all
    then show ?thesis using 2
      by (simp add: show_nat_step show_nat_small zfill_def digit_char_def numeral_2_eq_2)
  next
    case 3
    then have a: "y div 1000 = 0" "10 \<le> y div 10" "y div 10 < 100" by simp_all
    have b: "y div 10 div 10 = y div 100" by (simp add: div_mult2_eq [symmetric])
    have "show_nat y = [digit_char (y div 100), digit_char (y div 10), digit_char y]"
      using 3 a b by (simp add: show_nat_step [of y] show_nat_step [of "y div 10"] show_nat_small)
    then show ?thesis using a by (simp add: zfill_def digit_char_def)
  next
    case 4
    have b: "y div 10 div 10 = y div 100" "y div 100 div 10 = y div 1000"
      by (simp_all add: div_mult2_eq [symmetric])
    have c: "10 \<le> y div 10" "10 \<le> y div 100" "y div 1000 < 10" using 4 assms by simp_all
    have "show_nat y
        = [digit_char (y div 1000), digit_char (y div 100), digit_char (y div 10), digit_char y]"
      using 4 b c
      by (simp add: show_nat_step [of y] show_nat_step [of "y div 10"]
            show_nat_step [of "y div 100"] show_nat_small)
    then show ?thesis by (simp add: zfill_def)
  qed
qed

lemma int_of_digits4:
  assumes "y < 10000"
  shows "int_of_digits
     [digit_char (y div 1000), digit_char (y div 100), digit_char (y div 10), digit_char y] = y"
proof -
  have b: "y div 100 = y div 10 div 10" "y div 1000 = y div 10 div 10 div 10"
    by (simp_all add: div_mult2_eq [symmetric])
  have "y div 1000 < 10" using assms by simp
  then have c: "y div 1000 mod 10 = y div 1000" by simp
  have e1: "10 * (y div 10 div 10 div 10) + y div 10 div 10 mod 10 = y div 10 div 10" by simp
  have e2: "10 * (y div 10 div 10) + y div 10 mod 10 = y div 10" by simp
  have e3: "10 * (y div 10) + y mod 10 = y" by simp
  have "1000 * (y div 10 div 10 div 10) + 100 * (y div 10 div 10 mod 10)
          + 10 * (y div 10 mod 10) + y mod 10 = y"
    using e1 e2 e3 by linarith
  then have "1000 * (y div 1000) + 100 * (y div 100 mod 10) + 10 * (y div 10 mod 10) + y mod 10 = y"
    unfolding b .
  then show ?thesis by (simp add: int_of_digits_def c)
qed

lemma int_of_digits2:
  assumes "n < 100"
  shows "int_of_digits [digit_char (n div 10), digit_char n] = n"
proof -
  have "n div 10 < 10" using assms by simp
  then have c: "n div 10 mod 10 = n div 10" by simp
  have "10 * (n div 10) + n mod 10 = n" by simp
  then show ?thesis by (simp add: int_of_digits_def c)
qed

lemma strip_digits:
  assumes "s \<noteq> []" "is_digit (hd s)" "is_digit (last s)"
  shows "strip s = s"
proof -
  obtain x xs where s: "s = x # xs" using assms(1) by (cases s) auto
  have a: "dropWhile is_space s = s"
    using assms(2) s by (simp add: is_digit_not_space)
  have ns: "\<not> is_space (last s)" using assms(3) by (rule is_digit_not_space)
  have r: "rev s = last s # rev (butlast s)"
    using assms(1) by (metis append_butlast_last_id rev.simps(2) rev_swap rev_append)
  have b: "dropWhile is_space (rev s) = rev s"
    unfolding r using ns by simp
  show ?thesis unfolding strip_def a b by simp
qed

lemma upt_2_32: "[2..<32] = [2, 3, 4, 5, 6, 7, 8, 9, 10, 11, 12, 13, 14, 15, 16, 17, 18, 19, 20,
    21, 22, 23, 24, 25, 26, 27, 28, 29, 30, 31::nat]"
  by (simp del: set_upt)

lemma day_cases:
  assumes "1 \<le> n" "n \<le> 31"
  shows "(n::nat) = 1 \<or> n \<in> set [2, 3, 4, 5, 6, 7, 8, 9, 10, 11, 12, 13, 14, 15, 16, 17, 18, 19,
    20, 21, 22, 23, 24, 25, 26, 27, 28, 29, 30, 31]"
proof -
  have "n = 1 \<or> n \<in> set [2..<32]" using assms by (auto simp del: upt_rec_numeral)
  then show ?thesis unfolding upt_2_32 .
qed

lemma digit_char_digit_val: "is_digit c \<Longrightarrow> digit_char (digit_val c) = c"
  by (auto simp: is_digit_def digit_char_def digit_val_def)

lemma digit_val_less: "is_digit c \<Longrightarrow> digit_val c < 10"
  by (auto simp: is_digit_def digit_val_def)

lemma show_nat4:
  assumes "1000 \<le> y" "y < 10000"
  shows "show_nat y
     = [digit_char (y div 1000), digit_char (y div 100), digit_char (y div 10), digit_char y]"
proof -
  have b: "y div 10 div 10 = y div 100" "y div 100 div 10 = y div 1000"
    by (simp_all add: div_mult2_eq [symmetric])
  have c: "10 \<le> y div 10" "10 \<le> y div 100" "y div 1000 < 10" using assms by simp_all
  show ?thesis
    using assms b c
    by (simp add: show_nat_step [of y] show_nat_step [of "y div 10"]
          show_nat_step [of "y div 100"] show_nat_small)
qed

lemma digit_char_mod: "a mod 10 = b mod 10 \<Longrightarrow> digit_char a = digit_char b"
  by (simp add: digit_char_def)

subsection \<open>The calendar of import\_macro\<close>

lemma date_map_fold:
  "fold (\<lambda>col_offset date_map. date_map(2 + col_offset \<mapsto> macro_date (int col_offset))) [0..<n] Map.empty c
     = (if 2 \<le> c \<and> c < 2 + n then Some (macro_date (int (c - 2))) else None)"
proof (induction n)
  case 0
  then show ?case by simp
next
  case (Suc n)
  then show ?case by (auto simp: le_Suc_eq)
qed

lemma build_date_map_eq:
  "build_date_map ncols c = (if 2 \<le> c \<and> c < ncols then Some (macro_date (int (c - 2))) else None)"
  unfolding build_date_map_def Let_def date_map_fold by auto

lemma macro_month_range: "1 \<le> 12 - (k::int) mod 12 \<and> 12 - k mod 12 \<le> 12"
proof -
  have "0 \<le> k mod 12" "k mod 12 < 12" by simp_all
  then show ?thesis by linarith
qed

lemma macro_date_eq:
  "macro_date k = fmt_d (2024 - k div 12) @ ''-'' @ fmt_02d (12 - k mod 12) @ ''-01''"
proof -
  have "\<not> 12 - k mod 12 \<le> 0" using macro_month_range [of k] by linarith
  then show ?thesis by (simp add: macro_date_def Let_def)
qed

lemma fmt_02d_month:
  assumes "1 \<le> m" "m \<le> 12"
  shows "fmt_02d m = [digit_char (nat m div 10), digit_char (nat m)]"
  using assms by (simp add: fmt_02d_def zfill2)

lemma length_show_nat_3: "n < 1000 \<Longrightarrow> length (show_nat n) \<le> 3"
proof -
  assume n: "n < 1000"
  consider "n < 10" | "10 \<le> n" "n < 100" | "100 \<le> n" by linarith
  then show ?thesis
  proof cases
    case 1
    then show ?thesis by (simp add: show_nat_small)
  next
    case 2
    then show ?thesis by (simp add: show_nat_step show_nat_small)
  next
    case 3
    then have "10 \<le> n div 10" "n div 10 div 10 < 10" using n by simp_all
    then show ?thesis
      using 3 by (simp add: show_nat_step [of n] show_nat_step [of "n div 10"] show_nat_small)
  qed
qed

lemma not_digit_minus: "\<not> is_digit CHR ''-''"
  by (simp add: is_digit_def)

lemma digit_01: "is_digit CHR ''0''" "is_digit CHR ''1''"
  by (simp_all add: is_digit_def)

text \<open>The date of an offset has the shape \<open>YYYY-MM-DD\<close> as long as the year has four
  digits, which is up to offset 12299.\<close>

lemma macro_date_shape: "iso_shape (macro_date (int k)) \<longleftrightarrow> k < 12300"
proof -
  let ?y = "2024 - int k div 12"
  let ?m = "12 - int k mod 12"
  have m: "fmt_02d ?m = [digit_char (nat ?m div 10), digit_char (nat ?m)]"
    using macro_month_range [of "int k"] by (intro fmt_02d_month) simp_all
  have md: "macro_date (int k)
      = fmt_d ?y @ [CHR ''-'', digit_char (nat ?m div 10), digit_char (nat ?m), CHR ''-'',
                    CHR ''0'', CHR ''1'']"
    unfolding macro_date_eq m by simp
  have kd: "int k div 12 = int (k div 12)" by (simp add: zdiv_int)
  consider "k < 12300" | "12300 \<le> k" "k div 12 \<le> 2024" | "2024 < k div 12" by linarith
  then show ?thesis
  proof cases
    case 1
    then have "k div 12 \<le> 1024" by simp
    then have y: "?y = int (2024 - k div 12)" "1000 \<le> 2024 - k div 12" "2024 - k div 12 < 10000"
      unfolding kd by simp_all
    have "fmt_d ?y = show_nat (2024 - k div 12)" unfolding y(1) by (simp add: fmt_d_def)
    then show ?thesis
      using 1 unfolding md
      by (simp add: show_nat4 [OF y(2,3)] iso_shape_def digit_01)
  next
    case 2
    then have "1025 \<le> k div 12" by simp
    then have y: "?y = int (2024 - k div 12)" "2024 - k div 12 < 1000"
      unfolding kd using 2(2) by simp_all
    have "fmt_d ?y = show_nat (2024 - k div 12)" unfolding y(1) by (simp add: fmt_d_def)
    then have "length (macro_date (int k)) \<le> 9"
      unfolding md using length_show_nat_3 [OF y(2)] by simp
    then show ?thesis using 2(1) by (simp add: iso_shape_def)
  next
    case 3
    then have "?y < 0" unfolding kd by simp
    then have "hd (macro_date (int k)) = CHR ''-''" unfolding md by (simp add: fmt_d_def)
    moreover have "macro_date (int k) \<noteq> []" unfolding md by simp
    ultimately have "\<not> list_all is_digit (take 4 (macro_date (int k)))"
      using not_digit_minus by (cases "macro_date (int k)") simp_all
    moreover have "12300 \<le> k" using 3 by simp
    ultimately show ?thesis by (simp add: iso_shape_def)
  qed
qed

text \<open>
  C1 as stated fails for a wide sheet: a sheet may have 16384 columns, and from offset
  12300 on the year 2024 - k div 12 lies below 1000 and is printed with fewer than four
  digits.  In a frame of 12303 columns the last column gets \<open>999-12-01\<close>.
\<close>

theorem import_macro_date_counterexample:
  "build_date_map 12303 (2 + 12300) = Some ''999-12-01'' \<and> \<not> iso_shape ''999-12-01''"
proof -
  have "macro_date (int 12300) = ''999-12-01''"
    by (simp add: macro_date_eq fmt_d_def fmt_02d_def zfill_def show_nat_small show_nat_step
          digit_char_def)
  then show ?thesis by (simp add: build_date_map_eq iso_shape_def)
qed

text \<open>
  C1, amended.  In a macro-indicator frame of \<open>ncols\<close> columns, the value column at offset
  \<open>k\<close> (frame column \<open>2 + k\<close>, for every \<open>k\<close> below the number of value columns) gets the
  date string made of the year \<open>2024 - k div 12\<close> as a plain decimal number, the two-digit
  month \<open>12 - k mod 12\<close> and day \<open>01\<close>.  The month lies between 1 and 12, and the month
  is exactly \<open>k\<close> months before December 2024: counted in months, \<open>12 * year + month\<close> is
  \<open>12 * 2024 + 12 - k\<close>.  The string has the form \<open>YYYY-MM-01\<close> exactly for the offsets
  below 12300, where it is the ISO date of the first of that month.  Offsets 0, 1 and 12
  give 2024-12-01, 2024-11-01 and 2023-12-01.
\<close>

theorem import_macro_date_of_offset:
  assumes "k < nat (int ncols - 2)"
  shows "build_date_map ncols (2 + k) = Some (macro_date (int k))
       \<and> macro_date (int k)
           = fmt_d (2024 - int k div 12) @ ''-'' @ fmt_02d (12 - int k mod 12) @ ''-01''
       \<and> 1 \<le> 12 - int k mod 12 \<and> 12 - int k mod 12 \<le> 12
       \<and> 12 * (2024 - int k div 12) + (12 - int k mod 12) = 12 * 2024 + 12 - int k
       \<and> length (fmt_02d (12 - int k mod 12)) = 2
       \<and> (iso_shape (macro_date (int k)) \<longleftrightarrow> k < 12300)
       \<and> (k < 12300 \<longrightarrow>
            macro_date (int k) = iso_date (2024 - k div 12) (12 - k mod 12) 1)
       \<and> macro_date 0 = ''2024-12-01'' \<and> macro_date 1 = ''2024-11-01''
       \<and> macro_date 12 = ''2023-12-01''"
proof -
  have a: "build_date_map ncols (2 + k) = Some (macro_date (int k))"
    using assms by (simp add: build_date_map_eq)
  have b: "12 * (2024 - int k div 12) + (12 - int k mod 12) = 12 * 2024 + 12 - int k"
    by presburger
  have c: "macro_date 0 = ''2024-12-01''" "macro_date 1 = ''2024-11-01''"
    "macro_date 12 = ''2023-12-01''"
    by (simp_all add: macro_date_eq fmt_d_def fmt_02d_def zfill_def show_nat_small show_nat_step digit_char_def)
  have m: "fmt_02d (12 - int k mod 12)
      = [digit_char (nat (12 - int k mod 12) div 10), digit_char (nat (12 - int k mod 12))]"
    using macro_month_range [of "int k"] by (intro fmt_02d_month) simp_all
  have d: "macro_date (int k) = iso_date (2024 - k div 12) (12 - k mod 12) 1" if k: "k < 12300"
  proof -
    have kd: "int k div 12 = int (k div 12)" "int k mod 12 = int (k mod 12)"
      by (simp_all add: zdiv_int zmod_int)
    have "k div 12 \<le> 1024" using k by simp
    then have y: "2024 - int k div 12 = int (2024 - k div 12)" "2024 - k div 12 < 10000"
      "1000 \<le> 2024 - k div 12"
      unfolding kd by simp_all
    have "k mod 12 \<le> 12" by simp
    then have mm: "12 - int k mod 12 = int (12 - k mod 12)"
      unfolding kd by simp
    have z: "zfill 4 (show_nat (2024 - k div 12)) = show_nat (2024 - k div 12)"
      using show_nat4 [OF y(3,2)] by (simp add: zfill_def)
    have f: "fmt_d (int n) = show_nat n" "fmt_02d (int n) = zfill 2 (show_nat n)" for n
      by (simp_all add: fmt_d_def fmt_02d_def)
    have o: "zfill 2 (show_nat 1) = ''01''"
      by (simp add: zfill_def show_nat_small digit_char_def)
    show ?thesis
      unfolding macro_date_eq y(1) mm iso_date_def z f o by simp
  qed
  show ?thesis
    using a b c d m macro_date_eq [of "int k"] macro_month_range [of "int k"]
      macro_date_shape [of k] by simp
qed

theorem import_macro_date_of_offset_witness:
  "build_date_map 242 (2 + 239) = Some ''2005-01-01'' \<and> iso_shape ''2005-01-01''
   \<and> iso_date (2024 - 239 div 12) (12 - 239 mod 12) 1 = ''2005-01-01''"
proof -
  have h: "(239::nat) < nat (int 242 - 2)" by simp
  have "macro_date (int 239) = ''2005-01-01''"
    by (simp add: macro_date_eq fmt_d_def fmt_02d_def zfill_def show_nat_small show_nat_step digit_char_def)
  moreover have "iso_date 2005 1 1 = ''2005-01-01''"
    by (simp add: iso_date_def zfill_def show_nat_small show_nat_step digit_char_def)
  moreover have "iso_shape ''2005-01-01''" by (simp add: iso_shape_def is_digit_def)
  ultimately show ?thesis using import_macro_date_of_offset [OF h] by simp
qed

subsection \<open>clean\_value\<close>

text \<open>
  C4.  \<open>clean_value\<close> returns \<open>None\<close> exactly when the input is missing or its stripped
  string form is one of the five sentinels; for every other input it returns the float that
  \<open>float()\<close> (here \<open>pf\<close>) gives for the stripped string without its commas, when there is
  one, and the stripped string itself otherwise.
\<close>

theorem clean_value_spec:
  "(clean_value pf v = CNone \<longleftrightarrow>
      isna v \<or> strip (py_str v) \<in> {''#N/A'', ''--'', ''#N/A Requesting Data...'', ''N/A'', ''''})
   \<and> (\<not> isna v \<and> strip (py_str v) \<notin> {''#N/A'', ''--'', ''#N/A Requesting Data...'', ''N/A'', ''''}
        \<longrightarrow> clean_value pf v =
             (case pf (remove_commas (strip (py_str v))) of
                Some x \<Rightarrow> CFloat x
              | None \<Rightarrow> CStr (strip (py_str v))))"
  by (cases "pf (remove_commas (strip (py_str v)))")
     (simp_all add: clean_value_def na_sentinels_def Let_def)

lemma strip_example: "strip '' 1,234 '' = ''1,234''"
  by (simp add: strip_def is_space_def)

theorem clean_value_spec_witness:
  "clean_value (\<lambda>s. if s = ''1234'' then Some (1234::nat) else None) (Str '' 1,234 '') = CFloat 1234
   \<and> clean_value (\<lambda>s. if s = ''1234'' then Some (1234::nat) else None) (Str ''N/A'') = CNone"
proof -
  let ?pf = "\<lambda>s. if s = ''1234'' then Some (1234::nat) else None"
  have a: "strip (py_str (Str '' 1,234 '')) = ''1,234''"
    by (simp add: py_str_def strip_example)
  have b: "strip (py_str (Str ''N/A'')) = ''N/A''"
    by (simp add: py_str_def strip_def is_space_def)
  have c: "remove_commas ''1,234'' = ''1234''"
    by (simp add: remove_commas_def)
  show ?thesis
    using clean_value_spec [of ?pf "Str '' 1,234 ''"] clean_value_spec [of ?pf "Str ''N/A''"]
    by (simp add: a b c isna_def)
qed

subsection \<open>fix\_dates.py: the cells that are written\<close>





subsection \<open>Matching the groups of a format\<close>

lemma first_some_Cons: "first_some (x # xs) = (if x = None then first_some xs else x)"
  by (cases x) simp_all

lemma add_group_None [simp]: "add_group d m None = None"
  by (simp add: add_group_def)

lemma add_group_Some [simp]: "add_group d m (Some (g, r)) = Some ((d, m) # g, r)"
  by (simp add: add_group_def)

lemma rm_lit:
  "regex_match (Lit c # ds) (c' # r)
     = (if c' = c then add_group (Lit c) [c] (regex_match ds r) else None)"
  by (simp add: alternatives_def first_some_Cons)

lemma rm_year_sep:
  "regex_match (DirY # ds) (digit_char a # digit_char b # digit_char c # digit_char d # r)
     = add_group DirY [digit_char a, digit_char b, digit_char c, digit_char d] (regex_match ds r)"
  using is_digit_digit_char [of a] is_digit_digit_char [of b] is_digit_digit_char [of c]
    is_digit_digit_char [of d]
  unfolding is_digit_def by (simp add: alternatives_def first_some_Cons)

lemma rm_year_fail:
  assumes "c' = CHR ''-'' \<or> c' = CHR ''/''"
  shows "regex_match (DirY # ds) (x1 # x2 # c' # r) = None"
  using assms by (auto simp: alternatives_def)

lemma day_disj:
  assumes "1 \<le> dd" "dd \<le> 31"
  shows "dd = 31 \<or> dd = 30 \<or> dd = 29 \<or> dd = 28 \<or> dd = 27 \<or> dd = 26 \<or> dd = 25 \<or> dd = 24 \<or> dd = 23 \<or> dd = 22 \<or> dd = 21 \<or> dd = 20 \<or> dd = 19 \<or> dd = 18 \<or> dd = 17 \<or> dd = 16 \<or> dd = 15 \<or> dd = 14 \<or> dd = 13 \<or> dd = 12 \<or> dd = 11 \<or> dd = 10 \<or> dd = 9 \<or> dd = 8 \<or> dd = 7 \<or> dd = 6 \<or> dd = 5 \<or> dd = 4 \<or> dd = 3 \<or> dd = 2 \<or> (dd::nat) = 1"
  using day_cases [OF assms] by auto

lemma rm_month_sep:
  assumes "1 \<le> n" "n \<le> 31" "c = CHR ''-'' \<or> c = CHR ''/''"
  shows "regex_match (DirM # Lit c # ds) (digit_char (n div 10) # digit_char n # r)
     = (if n \<le> 12
        then add_group DirM [digit_char (n div 10), digit_char n] (regex_match (Lit c # ds) r)
        else None)"
proof -
  have "regex_match (DirM # Lit c # ds) (digit_char (n div 10) # digit_char n # r)
     = first_some (map (\<lambda>alt.
        (case match_alt alt (digit_char (n div 10) # digit_char n # r) of
           None \<Rightarrow> None
         | Some (m, r) \<Rightarrow> add_group DirM m (regex_match (Lit c # ds) r))) (alternatives DirM))"
    by simp
  also have "\<dots> = (if n \<le> 12
        then add_group DirM [digit_char (n div 10), digit_char n] (regex_match (Lit c # ds) r)
        else None)"
    using day_disj [OF assms(1,2)] assms(3)
    by (elim disjE; simp add: alternatives_def digit_char_def first_some_Cons rm_lit
          del: regex_match.simps)
  finally show ?thesis .
qed

lemma rm_day_sep:
  assumes "1 \<le> n" "n \<le> 31" "c = CHR ''-'' \<or> c = CHR ''/''"
  shows "regex_match (DirD # Lit c # ds) (digit_char (n div 10) # digit_char n # r)
     = add_group DirD [digit_char (n div 10), digit_char n] (regex_match (Lit c # ds) r)"
proof -
  have "regex_match (DirD # Lit c # ds) (digit_char (n div 10) # digit_char n # r)
     = first_some (map (\<lambda>alt.
        (case match_alt alt (digit_char (n div 10) # digit_char n # r) of
           None \<Rightarrow> None
         | Some (m, r) \<Rightarrow> add_group DirD m (regex_match (Lit c # ds) r))) (alternatives DirD))"
    by simp
  also have "\<dots>
      = add_group DirD [digit_char (n div 10), digit_char n] (regex_match (Lit c # ds) r)"
    using day_disj [OF assms(1,2)] assms(3)
    by (elim disjE; simp add: alternatives_def digit_char_def first_some_Cons rm_lit
          del: regex_match.simps)
  finally show ?thesis .
qed

lemma rm_day_end:
  assumes "1 \<le> n" "n \<le> 31"
  shows "regex_match [DirD] [digit_char (n div 10), digit_char n]
     = Some ([(DirD, [digit_char (n div 10), digit_char n])], [])"
  using day_disj [OF assms(1,2)]
  by (elim disjE; simp add: alternatives_def digit_char_def first_some_Cons)

lemma rm_month_fail:
  assumes "is_digit x2" "is_digit x3" "c = CHR ''-'' \<or> c = CHR ''/''"
  shows "regex_match (DirM # Lit c # ds) (x1 # x2 # x3 # r) = None"
proof -
  have "x2 \<noteq> c" "x3 \<noteq> c" using assms by (auto simp: is_digit_def)
  then show ?thesis
    by (subst regex_match.simps)
       (simp add: alternatives_def first_some_Cons rm_lit del: regex_match.simps)
qed

lemma rm_day_fail:
  assumes "is_digit x2" "is_digit x3" "c = CHR ''-'' \<or> c = CHR ''/''"
  shows "regex_match (DirD # Lit c # ds) (x1 # x2 # x3 # r) = None"
proof -
  have "x2 \<noteq> c" "x3 \<noteq> c" using assms by (auto simp: is_digit_def)
  then show ?thesis
    by (subst regex_match.simps)
       (simp add: alternatives_def first_some_Cons rm_lit del: regex_match.simps)
qed

lemma days_in_month_le: "days_in_month y m \<le> 31"
  by (simp add: days_in_month_def)

lemma days_in_month_ge: "28 \<le> days_in_month y m"
  by (simp add: days_in_month_def)

lemma valid_date_bounds:
  assumes "valid_date y m d"
  shows "y < 10000" "1 \<le> y" "1 \<le> m" "m \<le> 12" "m \<le> 31" "m < 100" "1 \<le> d" "d \<le> 31" "d < 100"
  using assms days_in_month_le [of y m] by (auto simp: valid_date_def)

lemma valid_date_swap:
  assumes "valid_date y m d" "d \<le> 12"
  shows "valid_date y d m"
  using assms days_in_month_ge [of y d] by (auto simp: valid_date_def)

lemma group2 [simp]:
  "n < 100 \<Longrightarrow> int_of_digits (strip [digit_char (n div 10), digit_char n]) = n"
  by (simp add: strip_digits int_of_digits2)

lemma group4 [simp]:
  "y < 10000 \<Longrightarrow> int_of_digits (strip
      [digit_char (y div 1000), digit_char (y div 100), digit_char (y div 10), digit_char y]) = y"
  by (simp add: strip_digits int_of_digits4)

lemmas rm_simps = rm_lit rm_year_sep rm_year_fail rm_month_sep rm_day_sep rm_day_end
  rm_month_fail rm_day_fail


text \<open>What each format makes of a date of a four-digit year rendered in each format that
  is tried before it or is the format itself.\<close>

lemma strptime_1_1:
  assumes "valid_date y m d" "1000 \<le> y"
  shows "strptime (strftime ''%Y-%m-%d'' y m d) ''%Y-%m-%d'' = Some (y, m, d)"
  using assms valid_date_bounds [OF assms(1)] valid_date_swap [OF assms(1)]
  by (simp add: strptime_def strftime_def zfill2 show_nat4 rm_simps group_int_def
        del: regex_match.simps(2))

lemma strptime_2_1:
  assumes "valid_date y m d" "1000 \<le> y"
  shows "strptime (strftime ''%m/%d/%Y'' y m d) ''%Y-%m-%d'' = None"
  using assms valid_date_bounds [OF assms(1)] valid_date_swap [OF assms(1)]
  by (simp add: strptime_def strftime_def zfill2 show_nat4 rm_simps group_int_def
        del: regex_match.simps(2))

lemma strptime_2_2:
  assumes "valid_date y m d" "1000 \<le> y"
  shows "strptime (strftime ''%m/%d/%Y'' y m d) ''%m/%d/%Y'' = Some (y, m, d)"
  using assms valid_date_bounds [OF assms(1)] valid_date_swap [OF assms(1)]
  by (simp add: strptime_def strftime_def zfill2 show_nat4 rm_simps group_int_def
        del: regex_match.simps(2))

lemma strptime_3_1:
  assumes "valid_date y m d" "1000 \<le> y"
  shows "strptime (strftime ''%d/%m/%Y'' y m d) ''%Y-%m-%d'' = None"
  using assms valid_date_bounds [OF assms(1)] valid_date_swap [OF assms(1)]
  by (simp add: strptime_def strftime_def zfill2 show_nat4 rm_simps group_int_def
        del: regex_match.simps(2))

lemma strptime_3_2:
  assumes "valid_date y m d" "1000 \<le> y"
  shows "strptime (strftime ''%d/%m/%Y'' y m d) ''%m/%d/%Y'' = (if d \<le> 12 then Some (y, d, m) else None)"
  using assms valid_date_bounds [OF assms(1)] valid_date_swap [OF assms(1)]
  by (simp add: strptime_def strftime_def zfill2 show_nat4 rm_simps group_int_def
        del: regex_match.simps(2))

lemma strptime_3_3:
  assumes "valid_date y m d" "1000 \<le> y"
  shows "strptime (strftime ''%d/%m/%Y'' y m d) ''%d/%m/%Y'' = Some (y, m, d)"
  using assms valid_date_bounds [OF assms(1)] valid_date_swap [OF assms(1)]
  by (simp add: strptime_def strftime_def zfill2 show_nat4 rm_simps group_int_def
        del: regex_match.simps(2))

lemma strptime_4_1:
  assumes "valid_date y m d" "1000 \<le> y"
  shows "strptime (strftime ''%Y/%m/%d'' y m d) ''%Y-%m-%d'' = None"
  using assms valid_date_bounds [OF assms(1)] valid_date_swap [OF assms(1)]
  by (simp add: strptime_def strftime_def zfill2 show_nat4 rm_simps group_int_def
        del: regex_match.simps(2))

lemma strptime_4_2:
  assumes "valid_date y m d" "1000 \<le> y"
  shows "strptime (strftime ''%Y/%m/%d'' y m d) ''%m/%d/%Y'' = None"
  using assms valid_date_bounds [OF assms(1)] valid_date_swap [OF assms(1)]
  by (simp add: strptime_def strftime_def zfill2 show_nat4 rm_simps group_int_def
        del: regex_match.simps(2))

lemma strptime_4_3:
  assumes "valid_date y m d" "1000 \<le> y"
  shows "strptime (strftime ''%Y/%m/%d'' y m d) ''%d/%m/%Y'' = None"
  using assms valid_date_bounds [OF assms(1)] valid_date_swap [OF assms(1)]
  by (simp add: strptime_def strftime_def zfill2 show_nat4 rm_simps group_int_def
        del: regex_match.simps(2))

lemma strptime_4_4:
  assumes "valid_date y m d" "1000 \<le> y"
  shows "strptime (strftime ''%Y/%m/%d'' y m d) ''%Y/%m/%d'' = Some (y, m, d)"
  using assms valid_date_bounds [OF assms(1)] valid_date_swap [OF assms(1)]
  by (simp add: strptime_def strftime_def zfill2 show_nat4 rm_simps group_int_def
        del: regex_match.simps(2))

lemma strptime_5_1:
  assumes "valid_date y m d" "1000 \<le> y"
  shows "strptime (strftime ''%d-%m-%Y'' y m d) ''%Y-%m-%d'' = None"
  using assms valid_date_bounds [OF assms(1)] valid_date_swap [OF assms(1)]
  by (simp add: strptime_def strftime_def zfill2 show_nat4 rm_simps group_int_def
        del: regex_match.simps(2))

lemma strptime_5_2:
  assumes "valid_date y m d" "1000 \<le> y"
  shows "strptime (strftime ''%d-%m-%Y'' y m d) ''%m/%d/%Y'' = None"
  using assms valid_date_bounds [OF assms(1)] valid_date_swap [OF assms(1)]
  by (simp add: strptime_def strftime_def zfill2 show_nat4 rm_simps group_int_def
        del: regex_match.simps(2))

lemma strptime_5_3:
  assumes "valid_date y m d" "1000 \<le> y"
  shows "strptime (strftime ''%d-%m-%Y'' y m d) ''%d/%m/%Y'' = None"
  using assms valid_date_bounds [OF assms(1)] valid_date_swap [OF assms(1)]
  by (simp add: strptime_def strftime_def zfill2 show_nat4 rm_simps group_int_def
        del: regex_match.simps(2))

lemma strptime_5_4:
  assumes "valid_date y m d" "1000 \<le> y"
  shows "strptime (strftime ''%d-%m-%Y'' y m d) ''%Y/%m/%d'' = None"
  using assms valid_date_bounds [OF assms(1)] valid_date_swap [OF assms(1)]
  by (simp add: strptime_def strftime_def zfill2 show_nat4 rm_simps group_int_def
        del: regex_match.simps(2))

lemma strptime_5_5:
  assumes "valid_date y m d" "1000 \<le> y"
  shows "strptime (strftime ''%d-%m-%Y'' y m d) ''%d-%m-%Y'' = Some (y, m, d)"
  using assms valid_date_bounds [OF assms(1)] valid_date_swap [OF assms(1)]
  by (simp add: strptime_def strftime_def zfill2 show_nat4 rm_simps group_int_def
        del: regex_match.simps(2))

lemma strptime_6_1:
  assumes "valid_date y m d" "1000 \<le> y"
  shows "strptime (strftime ''%m-%d-%Y'' y m d) ''%Y-%m-%d'' = None"
  using assms valid_date_bounds [OF assms(1)] valid_date_swap [OF assms(1)]
  by (simp add: strptime_def strftime_def zfill2 show_nat4 rm_simps group_int_def
        del: regex_match.simps(2))

lemma strptime_6_2:
  assumes "valid_date y m d" "1000 \<le> y"
  shows "strptime (strftime ''%m-%d-%Y'' y m d) ''%m/%d/%Y'' = None"
  using assms valid_date_bounds [OF assms(1)] valid_date_swap [OF assms(1)]
  by (simp add: strptime_def strftime_def zfill2 show_nat4 rm_simps group_int_def
        del: regex_match.simps(2))

lemma strptime_6_3:
  assumes "valid_date y m d" "1000 \<le> y"
  shows "strptime (strftime ''%m-%d-%Y'' y m d) ''%d/%m/%Y'' = None"
  using assms valid_date_bounds [OF assms(1)] valid_date_swap [OF assms(1)]
  by (simp add: strptime_def strftime_def zfill2 show_nat4 rm_simps group_int_def
        del: regex_match.simps(2))

lemma strptime_6_4:
  assumes "valid_date y m d" "1000 \<le> y"
  shows "strptime (strftime ''%m-%d-%Y'' y m d) ''%Y/%m/%d'' = None"
  using assms valid_date_bounds [OF assms(1)] valid_date_swap [OF assms(1)]
  by (simp add: strptime_def strftime_def zfill2 show_nat4 rm_simps group_int_def
        del: regex_match.simps(2))

lemma strptime_6_5:
  assumes "valid_date y m d" "1000 \<le> y"
  shows "strptime (strftime ''%m-%d-%Y'' y m d) ''%d-%m-%Y'' = (if d \<le> 12 then Some (y, d, m) else None)"
  using assms valid_date_bounds [OF assms(1)] valid_date_swap [OF assms(1)]
  by (simp add: strptime_def strftime_def zfill2 show_nat4 rm_simps group_int_def
        del: regex_match.simps(2))

lemma strptime_6_6:
  assumes "valid_date y m d" "1000 \<le> y"
  shows "strptime (strftime ''%m-%d-%Y'' y m d) ''%m-%d-%Y'' = Some (y, m, d)"
  using assms valid_date_bounds [OF assms(1)] valid_date_swap [OF assms(1)]
  by (simp add: strptime_def strftime_def zfill2 show_nat4 rm_simps group_int_def
        del: regex_match.simps(2))

lemma show_nat_digits: "show_nat n \<noteq> [] \<and> list_all is_digit (show_nat n)"
proof (induction n rule: show_nat.induct)
  case (1 n)
  show ?case
  proof (cases "n < 10")
    case True
    then show ?thesis by (simp add: show_nat_small)
  next
    case False
    then show ?thesis using 1 by (simp add: show_nat_step)
  qed
qed

lemma hd_last_show_nat: "is_digit (hd (show_nat n))" "is_digit (last (show_nat n))"
  using show_nat_digits [of n] hd_in_set [of "show_nat n"] last_in_set [of "show_nat n"]
  by (simp_all add: list_all_iff)

lemma strip_strftime:
  assumes "valid_date y m d" "fmt \<in> set formats"
  shows "strip (strftime fmt y m d) = strftime fmt y m d"
proof -
  have a: "show_nat y \<noteq> []" using show_nat_digits [of y] by simp
  have "fmt = ''%Y-%m-%d'' \<or> fmt = ''%m/%d/%Y'' \<or> fmt = ''%d/%m/%Y'' \<or> fmt = ''%Y/%m/%d''
     \<or> fmt = ''%d-%m-%Y'' \<or> fmt = ''%m-%d-%Y''"
    using assms(2) by (simp add: formats_def)
  then show ?thesis
    using valid_date_bounds [OF assms(1)] a hd_last_show_nat [of y]
    by (elim disjE; intro strip_digits; simp add: strftime_def zfill2)
qed

lemmas strptime_table = strptime_1_1 strptime_2_1 strptime_2_2 strptime_3_1 strptime_3_2
  strptime_3_3 strptime_4_1 strptime_4_2 strptime_4_3 strptime_4_4 strptime_5_1 strptime_5_2
  strptime_5_3 strptime_5_4 strptime_5_5 strptime_6_1 strptime_6_2 strptime_6_3 strptime_6_4
  strptime_6_5 strptime_6_6

lemma parse_rendered:
  assumes "valid_date y m d" "1000 \<le> y" "fmt \<in> set formats"
  shows "parse_bloomberg_date (Str (strftime fmt y m d))
     = Some (if d \<le> 12 \<and> fmt \<in> {''%d/%m/%Y'', ''%m-%d-%Y''}
             then strftime ''%Y-%m-%d'' y d m else strftime ''%Y-%m-%d'' y m d)"
proof -
  have s: "strip (py_str (Str (strftime fmt y m d))) = strftime fmt y m d"
    using strip_strftime [OF assms(1,3)] by (simp add: py_str_def)
  have "fmt = ''%Y-%m-%d'' \<or> fmt = ''%m/%d/%Y'' \<or> fmt = ''%d/%m/%Y'' \<or> fmt = ''%Y/%m/%d''
     \<or> fmt = ''%d-%m-%Y'' \<or> fmt = ''%m-%d-%Y''"
    using assms(3) by (simp add: formats_def)
  then show ?thesis
    unfolding parse_bloomberg_date_def s Let_def
    by (elim disjE; simp add: isna_def formats_def strptime_table [OF assms(1,2)])
qed

text \<open>With four digits of year, \<open>strftime('%Y-%m-%d')\<close> is the ISO date; with fewer it is
  shorter.\<close>

lemma strftime_iso_date:
  assumes "1000 \<le> y" "y < 10000"
  shows "strftime ''%Y-%m-%d'' y m d = iso_date y m d"
  using show_nat4 [OF assms] by (simp add: strftime_def iso_date_def zfill_def)

lemma strftime_short_year:
  assumes "y < 1000" "m < 100" "d < 100"
  shows "\<not> iso_shape (strftime ''%Y-%m-%d'' y m d)"
proof -
  have "length (strftime ''%Y-%m-%d'' y m d) \<le> 9"
    using length_show_nat_3 [OF assms(1)] assms(2,3) by (simp add: strftime_def zfill2)
  then show ?thesis by (simp add: iso_shape_def)
qed

subsection \<open>Strings without a year\<close>

lemma has4_Cons: "has4 s \<Longrightarrow> has4 (x # s)"
  by (cases s rule: has4.cases) simp_all

lemma has4_append: "has4 r \<Longrightarrow> has4 (m @ r)"
  by (induction m) (simp_all add: has4_Cons)

lemma match_alt_append: "match_alt alt s = Some (m, r) \<Longrightarrow> s = m @ r"
proof (induction alt s arbitrary: m r rule: match_alt.induct)
  case (3 cls rest c s)
  then show ?case by (auto split: if_splits option.splits)
qed simp_all

lemma match_alt_year:
  assumes "match_alt [''0123456789'', ''0123456789'', ''0123456789'', ''0123456789''] s
             = Some (m, r)"
  shows "has4 s"
  using assms
  by (cases s rule: has4.cases) (auto simp: is_digit_def split: if_splits option.splits)

lemma first_some_in: "first_some xs = Some v \<Longrightarrow> Some v \<in> set xs"
  by (induction xs rule: first_some.induct) auto

lemma first_some_None: "(\<forall>x \<in> set xs. x = None) \<Longrightarrow> first_some xs = None"
  by (induction xs rule: first_some.induct) auto

text \<open>A string that a format with \<open>%Y\<close> matches has four digits in a row.\<close>

lemma regex_match_year:
  assumes "regex_match ds s = Some res" "DirY \<in> set ds"
  shows "has4 s"
  using assms
proof (induction ds arbitrary: s res)
  case Nil
  then show ?case by simp
next
  case (Cons d ds)
  from Cons.prems(1) have
    "Some res \<in> set (map (\<lambda>alt.
        (case match_alt alt s of
           None \<Rightarrow> None
         | Some (m, r) \<Rightarrow> add_group d m (regex_match ds r))) (alternatives d))"
    by (intro first_some_in) simp
  then obtain alt where alt: "alt \<in> set (alternatives d)"
    and c: "(case match_alt alt s of
           None \<Rightarrow> None
         | Some (m, r) \<Rightarrow> add_group d m (regex_match ds r)) = Some res"
    by auto
  from c obtain m r where mr: "match_alt alt s = Some (m, r)"
    "add_group d m (regex_match ds r) = Some res"
    by (auto split: option.splits)
  from mr(2) obtain res' where r: "regex_match ds r = Some res'"
    by (cases "regex_match ds r") simp_all
  show ?case
  proof (cases "d = DirY")
    case True
    then have "alt = [''0123456789'', ''0123456789'', ''0123456789'', ''0123456789'']"
      using alt by (simp add: alternatives_def)
    then show ?thesis using mr(1) match_alt_year by blast
  next
    case False
    then have "DirY \<in> set ds" using Cons.prems(2) by simp
    from Cons.IH [OF r this] have "has4 r" .
    then show ?thesis unfolding match_alt_append [OF mr(1)] by (rule has4_append)
  qed
qed

lemma strptime_no_year:
  assumes "\<not> has4 s" "f \<in> set formats"
  shows "strptime s f = None"
proof (cases "regex_match (parse_format f) s")
  case None
  then show ?thesis by (simp add: strptime_def)
next
  case (Some res)
  have "DirY \<in> set (parse_format f)" using assms(2) by (auto simp: formats_def)
  from regex_match_year [OF Some this] assms(1) show ?thesis by simp
qed

lemma parse_no_year:
  assumes "\<not> has4 (strip s)"
  shows "parse_bloomberg_date (Str s) = None"
proof -
  have "first_some (map (\<lambda>fmt.
            (case strptime (strip s) fmt of
               None \<Rightarrow> None
             | Some (y, m, d) \<Rightarrow> Some (strftime ''%Y-%m-%d'' y m d))) formats) = None"
    by (rule first_some_None) (auto simp: strptime_no_year [OF assms])
  then show ?thesis by (simp add: parse_bloomberg_date_def isna_def py_str_def)
qed

lemma show_nat_short:
  assumes "n < 1000"
  shows "\<exists>a b c. show_nat n = [a] \<or> show_nat n = [a, b] \<or> show_nat n = [a, b, c]"
proof -
  consider "n < 10" | "10 \<le> n" "n < 100" | "100 \<le> n" by linarith
  then show ?thesis
  proof cases
    case 1
    then show ?thesis by (simp add: show_nat_small)
  next
    case 2
    then show ?thesis by (simp add: show_nat_step show_nat_small)
  next
    case 3
    then have "10 \<le> n div 10" "n div 10 div 10 < 10" using assms by simp_all
    then show ?thesis
      using 3 by (simp add: show_nat_step [of n] show_nat_step [of "n div 10"] show_nat_small)
  qed
qed

lemma not_digit_sep: "\<not> is_digit CHR ''-''" "\<not> is_digit CHR ''/''"
  by (simp_all add: is_digit_def)

text \<open>A date of a year below 1000 is rendered without four digits in a row.\<close>

lemma short_year_no_has4:
  assumes "valid_date y m d" "y < 1000" "fmt \<in> set formats"
  shows "\<not> has4 (strftime fmt y m d)"
proof -
  from show_nat_short [OF assms(2)] obtain a b c where
    y: "show_nat y = [a] \<or> show_nat y = [a, b] \<or> show_nat y = [a, b, c]" by blast
  have "fmt = ''%Y-%m-%d'' \<or> fmt = ''%m/%d/%Y'' \<or> fmt = ''%d/%m/%Y'' \<or> fmt = ''%Y/%m/%d''
     \<or> fmt = ''%d-%m-%Y'' \<or> fmt = ''%m-%d-%Y''"
    using assms(3) by (simp add: formats_def)
  then show ?thesis
    using valid_date_bounds [OF assms(1)] y
    by (elim disjE; simp add: strftime_def zfill2 not_digit_sep)
qed

lemma parse_short_year:
  assumes "valid_date y m d" "y < 1000" "fmt \<in> set formats"
  shows "parse_bloomberg_date (Str (strftime fmt y m d)) = None"
  using short_year_no_has4 [OF assms] strip_strftime [OF assms(1,3)]
  by (intro parse_no_year) simp

subsection \<open>parse\_bloomberg\_date on rendered dates\<close>

lemma show_nat_2024: "show_nat 2024 = ''2024''"
  by (simp add: show_nat_step show_nat_small digit_char_def)

lemma strftime_examples:
  "strftime ''%d/%m/%Y'' 2024 3 5 = ''05/03/2024''"
  "strftime ''%Y-%m-%d'' 2024 3 5 = ''2024-03-05''"
  "strftime ''%Y-%m-%d'' 2024 5 3 = ''2024-05-03''"
  "strftime ''%Y-%m-%d'' 2024 3 25 = ''2024-03-25''"
  "strftime ''%d/%m/%Y'' 2024 3 25 = ''25/03/2024''"
  "strftime ''%Y/%m/%d'' 2024 3 5 = ''2024/03/05''"
  "strftime ''%Y-%m-%d'' 999 2 3 = ''999-02-03''"
  "strftime ''%m/%d/%Y'' 999 2 3 = ''02/03/999''"
  by (simp_all add: strftime_def zfill_def show_nat_2024 show_nat_small show_nat_step
        digit_char_def)

lemma iso_date_examples:
  "iso_date 2024 3 5 = ''2024-03-05''"
  "iso_date 2024 3 25 = ''2024-03-25''"
  "iso_date 999 2 3 = ''0999-02-03''"
  by (simp_all add: iso_date_def zfill_def show_nat_2024 show_nat_small show_nat_step
        digit_char_def)

lemma valid_date_examples: "valid_date 2024 3 5" "valid_date 2024 3 25" "valid_date 999 2 3"
  by (simp_all add: valid_date_def days_in_month_def)

lemma strip_short_year: "strip ''999-02-03'' = ''999-02-03''"
  by (simp add: strip_def is_space_def)

text \<open>
  C2 as stated fails: the day-first rendering of 5 March 2024 is read month-first, because
  \<open>%m/%d/%Y\<close> is tried before \<open>%d/%m/%Y\<close>, and comes back as 3 May 2024.  It also fails
  for the calendar dates of the years before 1000: 3 February 999 is rendered
  \<open>999-02-03\<close>, with three digits of year, which no format reads, and as a \<open>datetime\<close>
  it comes back as \<open>999-02-03\<close>, which is not the ISO form \<open>0999-02-03\<close>.
\<close>

theorem parse_bloomberg_date_roundtrip_counterexample:
  "valid_date 2024 3 5
   \<and> strftime ''%d/%m/%Y'' 2024 3 5 = ''05/03/2024''
   \<and> parse_bloomberg_date (Str ''05/03/2024'') = Some ''2024-05-03''
   \<and> strftime ''%Y-%m-%d'' 2024 3 5 = ''2024-03-05''
   \<and> valid_date 999 2 3
   \<and> strftime ''%Y-%m-%d'' 999 2 3 = ''999-02-03''
   \<and> parse_bloomberg_date (Str ''999-02-03'') = None
   \<and> parse_bloomberg_date (demo_date 999 2 3) = Some ''999-02-03''
   \<and> iso_date 999 2 3 = ''0999-02-03''"
proof -
  have "\<not> has4 (strip ''999-02-03'')"
    unfolding strip_short_year by (simp add: is_digit_def)
  then have a: "parse_bloomberg_date (Str ''999-02-03'') = None" by (rule parse_no_year)
  have b: "parse_bloomberg_date (demo_date 999 2 3) = Some ''999-02-03''"
    by (simp add: parse_bloomberg_date_def isna_def demo_date_def strftime_iso_def
          strftime_examples)
  show ?thesis
    using parse_rendered [OF valid_date_examples(1), of "''%d/%m/%Y''"] a b
    by (simp add: strftime_examples iso_date_examples valid_date_examples formats_def)
qed

text \<open>
  C2, amended.  For every calendar date of a year from 1000 to 9999, rendering it as
  \<open>%Y-%m-%d\<close>, \<open>%m/%d/%Y\<close>, \<open>%Y/%m/%d\<close> or \<open>%d-%m-%Y\<close> and parsing the string gives
  the same date in the ISO form \<open>YYYY-MM-DD\<close>.  Rendering it as \<open>%d/%m/%Y\<close> or
  \<open>%m-%d-%Y\<close> gives the same date when the day is above 12 (or equals the month), and the
  date with day and month exchanged otherwise, because the format tried earlier reads the
  string too.  For a calendar date of a year below 1000 the year is rendered without
  leading zeros, and parsing any of the six renderings gives \<open>None\<close>.  A \<open>datetime\<close> is
  formatted directly with \<open>strftime('%Y-%m-%d')\<close>, which is the ISO form from the year
  1000 on and a shorter string before.  A missing value, or a string that none of the six
  formats parses, gives \<open>None\<close>.
\<close>

theorem parse_bloomberg_date_formats:
  assumes "valid_date y m d"
  shows "(1000 \<le> y \<and> fmt \<in> {''%Y-%m-%d'', ''%m/%d/%Y'', ''%Y/%m/%d'', ''%d-%m-%Y''} \<longrightarrow>
            parse_bloomberg_date (Str (strftime fmt y m d)) = Some (iso_date y m d))
       \<and> (1000 \<le> y \<and> fmt \<in> {''%d/%m/%Y'', ''%m-%d-%Y''} \<longrightarrow>
            parse_bloomberg_date (Str (strftime fmt y m d))
              = Some (if d \<le> 12 then iso_date y d m else iso_date y m d))
       \<and> (y < 1000 \<and> fmt \<in> set formats \<longrightarrow>
            parse_bloomberg_date (Str (strftime fmt y m d)) = None)
       \<and> parse_bloomberg_date (demo_date y m d) = Some (strftime ''%Y-%m-%d'' y m d)
       \<and> (1000 \<le> y \<longrightarrow> strftime ''%Y-%m-%d'' y m d = iso_date y m d)
       \<and> (y < 1000 \<longrightarrow> \<not> iso_shape (strftime ''%Y-%m-%d'' y m d))
       \<and> parse_bloomberg_date (DateTime dt)
           = Some (strftime ''%Y-%m-%d'' (dt_year dt) (dt_month dt) (dt_day dt))
       \<and> parse_bloomberg_date Missing = None
       \<and> ((\<forall>f \<in> set formats. strptime (strip s) f = None) \<longrightarrow>
            parse_bloomberg_date (Str s) = None)"
proof -
  note vb = valid_date_bounds [OF assms]
  have iso: "strftime ''%Y-%m-%d'' y' m' d' = iso_date y' m' d'"
    if "1000 \<le> y'" "y' < 10000" for y' m' d'
    using that by (rule strftime_iso_date)
  have a: "1000 \<le> y \<and> fmt \<in> {''%Y-%m-%d'', ''%m/%d/%Y'', ''%Y/%m/%d'', ''%d-%m-%Y''} \<longrightarrow>
            parse_bloomberg_date (Str (strftime fmt y m d)) = Some (iso_date y m d)"
  proof
    assume f: "1000 \<le> y \<and> fmt \<in> {''%Y-%m-%d'', ''%m/%d/%Y'', ''%Y/%m/%d'', ''%d-%m-%Y''}"
    then have "fmt \<in> set formats" "1000 \<le> y" by (auto simp: formats_def)
    from parse_rendered [OF assms this(2,1)] f iso [OF this(2) vb(1)]
    show "parse_bloomberg_date (Str (strftime fmt y m d)) = Some (iso_date y m d)"
      by auto
  qed
  have b: "1000 \<le> y \<and> fmt \<in> {''%d/%m/%Y'', ''%m-%d-%Y''} \<longrightarrow>
            parse_bloomberg_date (Str (strftime fmt y m d))
              = Some (if d \<le> 12 then iso_date y d m else iso_date y m d)"
  proof
    assume f: "1000 \<le> y \<and> fmt \<in> {''%d/%m/%Y'', ''%m-%d-%Y''}"
    then have "fmt \<in> set formats" "1000 \<le> y" by (auto simp: formats_def)
    from parse_rendered [OF assms this(2,1)] f iso [OF this(2) vb(1)]
    show "parse_bloomberg_date (Str (strftime fmt y m d))
              = Some (if d \<le> 12 then iso_date y d m else iso_date y m d)"
      by auto
  qed
  have n: "y < 1000 \<and> fmt \<in> set formats \<longrightarrow>
            parse_bloomberg_date (Str (strftime fmt y m d)) = None"
    using parse_short_year [OF assms] by blast
  have c: "parse_bloomberg_date (DateTime dt')
           = Some (strftime ''%Y-%m-%d'' (dt_year dt') (dt_month dt') (dt_day dt'))"
    "parse_bloomberg_date Missing = None" for dt'
    by (simp_all add: parse_bloomberg_date_def isna_def strftime_iso_def)
  have c': "parse_bloomberg_date (demo_date y m d) = Some (strftime ''%Y-%m-%d'' y m d)"
    unfolding demo_date_def c(1) by simp
  have e: "1000 \<le> y \<longrightarrow> strftime ''%Y-%m-%d'' y m d = iso_date y m d"
    using iso [of y m d] vb(1) by blast
  have g: "y < 1000 \<longrightarrow> \<not> iso_shape (strftime ''%Y-%m-%d'' y m d)"
    using strftime_short_year [of y m d] vb(6,9) by blast
  have h: "(\<forall>f \<in> set formats. strptime (strip s) f = None) \<longrightarrow>
            parse_bloomberg_date (Str s) = None"
    by (simp add: parse_bloomberg_date_def isna_def py_str_def formats_def)
  show ?thesis using a b n c c' e g h by blast
qed

lemma strptime_hello: "\<forall>f \<in> set formats. strptime (strip ''n/a'') f = None"
  by (simp add: formats_def strptime_def strip_def is_space_def alternatives_def)

theorem parse_bloomberg_date_formats_witness:
  "valid_date 2024 3 25
   \<and> parse_bloomberg_date (Str ''25/03/2024'') = Some ''2024-03-25''
   \<and> parse_bloomberg_date (Str ''2024/03/05'') = Some ''2024-03-05''
   \<and> valid_date 999 2 3
   \<and> parse_bloomberg_date (Str ''02/03/999'') = None
   \<and> map (strptime (strip ''n/a'')) formats = [None, None, None, None, None, None]
   \<and> parse_bloomberg_date (Str ''n/a'') = None"
  using parse_bloomberg_date_formats [OF valid_date_examples(2), of "''%d/%m/%Y''"
      "\<lparr>dt_year = 2024, dt_month = 3, dt_day = 25, dt_hour = 0, dt_minute = 0, dt_second = 0\<rparr>"
      "''n/a''"]
    parse_bloomberg_date_formats [OF valid_date_examples(1), of "''%Y/%m/%d''"
      "\<lparr>dt_year = 2024, dt_month = 3, dt_day = 25, dt_hour = 0, dt_minute = 0, dt_second = 0\<rparr>"
      "''n/a''"]
    parse_bloomberg_date_formats [OF valid_date_examples(3), of "''%m/%d/%Y''"
      "\<lparr>dt_year = 2024, dt_month = 3, dt_day = 25, dt_hour = 0, dt_minute = 0, dt_second = 0\<rparr>"
      "''n/a''"]
    strptime_hello
  by (simp add: strftime_examples iso_date_examples valid_date_examples formats_def)

subsection \<open>import\_companies: the dictionary and the row ids\<close>

lemma bind_err_Inr_iff:
  "bind_err r f = Inr y \<longleftrightarrow> (\<exists>x. r = Inr x \<and> f x = Inr y)"
  by (cases r) (simp_all add: bind_err_def)

lemma bind_err_simps [simp]:
  "bind_err (Inl e) f = Inl e" "bind_err (Inr x) f = f x"
  by (simp_all add: bind_err_def)

lemma company_record_tickers:
  assumes "company_record pf cols row recs = Inr recs'"
  shows "map co_ticker recs' = map co_ticker recs
     @ filter (\<lambda>t. t \<noteq> [] \<and> t \<noteq> ''#N/A'')
         (map (\<lambda>row. strip (py_str (row_cell row 0))) (filter (\<lambda>row. \<not> isna (row_cell row 0)) [row]))"
  using assms
  by (auto simp: company_record_def row_ticker_def bind_err_Inr_iff
        split: if_splits option.splits)

lemma company_records_tickers:
  assumes "for_each (company_record pf cols) rows recs = Inr recs'"
  shows "map co_ticker recs' = map co_ticker recs
     @ filter (\<lambda>t. t \<noteq> [] \<and> t \<noteq> ''#N/A'')
         (map (\<lambda>row. strip (py_str (row_cell row 0))) (filter (\<lambda>row. \<not> isna (row_cell row 0)) rows))"
  using assms
proof (induction rows arbitrary: recs)
  case Nil
  then show ?case by simp
next
  case (Cons row rows)
  from Cons.prems obtain mid where
    m: "company_record pf cols row recs = Inr mid"
    and r: "for_each (company_record pf cols) rows mid = Inr recs'"
    by (auto simp: bind_err_Inr_iff)
  show ?case
    using Cons.IH [OF r] company_record_tickers [OF m] by auto
qed

lemma map_fst_id_pairs: "map fst (id_pairs n recs) = map co_ticker recs"
  by (induction recs arbitrary: n) (simp_all add: id_pairs_def)

lemma select_company_id_map_of:
  "select_company_id t tk = map_of (map (\<lambda>c. (co_ticker c, co_company_id c)) t) tk"
  by (induction t) (simp_all add: select_company_id_def)

lemma ticker_dict_fold:
  "fold (\<lambda>(i, r) m. m(co_ticker r \<mapsto> int i + 1)) (enumerate n recs) m0
     = m0 ++ map_of (rev (id_pairs n recs))"
proof (induction recs arbitrary: n m0)
  case Nil
  then show ?case by (simp add: id_pairs_def)
next
  case (Cons r recs)
  let ?F = "\<lambda>(i, r) m. m(co_ticker r \<mapsto> int i + 1)"
  have "fold ?F (enumerate n (r # recs)) m0
      = fold ?F (enumerate (Suc n) recs) (?F (n, r) m0)"
    by (simp only: enumerate_simps fold_simps comp_apply)
  also have "\<dots> = ?F (n, r) m0 ++ map_of (rev (id_pairs (Suc n) recs))"
    by (rule Cons.IH)
  also have "\<dots> = m0 ++ map_of (rev (id_pairs n (r # recs)))"
    by (simp add: id_pairs_def map_add_def fun_eq_iff split: option.splits)
  finally show ?case .
qed

lemma ticker_dict_map_of:
  assumes "distinct (map co_ticker recs)"
  shows "ticker_dict recs = map_of (id_pairs 0 recs)"
proof -
  have d: "distinct (map fst (id_pairs 0 recs))" using assms by (simp add: map_fst_id_pairs)
  have "ticker_dict recs = map_of (rev (id_pairs 0 recs))"
    unfolding ticker_dict_def ticker_dict_fold by simp
  also have "\<dots> = map_of (id_pairs 0 recs)"
    using d by (subst map_of_inject_set) (simp_all add: rev_map [symmetric])
  finally show ?thesis .
qed

lemma next_company_id_in_order:
  assumes "ids_in_order t"
  shows "next_company_id t = int (length t) + 1"
proof (cases "t = []")
  case True
  then show ?thesis by (simp add: next_company_id_def)
next
  case False
  then have n: "0 < length t" by simp
  have s: "set (map co_company_id t) = (\<lambda>k. int k + 1) ` {0..<length t}"
    using assms by (simp add: ids_in_order_def)
  have "Max ((\<lambda>k. int k + 1) ` {0..<length t}) = int (length t)"
  proof (rule Max_eqI)
    show "finite ((\<lambda>k. int k + 1) ` {0..<length t})" by simp
    show "y \<le> int (length t)" if "y \<in> (\<lambda>k. int k + 1) ` {0..<length t}" for y
      using that by auto
    obtain m where m: "length t = Suc m" using n by (cases "length t") auto
    have "int (length t) = int m + 1" "m \<in> {0..<length t}" using m by simp_all
    then show "int (length t) \<in> (\<lambda>k. int k + 1) ` {0..<length t}"
      by (rule image_eqI)
  qed
  then show ?thesis using False s by (simp add: next_company_id_def)
qed

lemma fold_insert_company:
  assumes "ids_in_order t" "distinct (map co_ticker t @ map co_ticker recs)"
  shows "map (\<lambda>c. (co_ticker c, co_company_id c)) (fold insert_company recs t)
     = map (\<lambda>c. (co_ticker c, co_company_id c)) t @ id_pairs (length t) recs
     \<and> ids_in_order (fold insert_company recs t)"
  using assms
proof (induction recs arbitrary: t)
  case Nil
  then show ?case by (simp add: id_pairs_def)
next
  case (Cons r recs)
  let ?row = "company_rec.extend r (company_row.fields (next_company_id t))"
  have fresh: "co_ticker r \<notin> set (map co_ticker t)" using Cons.prems(2) by auto
  then have ins: "insert_company r t = t @ [?row]" by (simp add: insert_company_def)
  have row: "co_ticker ?row = co_ticker r" "co_company_id ?row = int (length t) + 1"
    using next_company_id_in_order [OF Cons.prems(1)]
    by (simp_all add: company_rec.defs company_row.defs)
  have io: "ids_in_order (t @ [?row])"
    using Cons.prems(1) row by (simp add: ids_in_order_def)
  have di: "distinct (map co_ticker (t @ [?row]) @ map co_ticker recs)"
    using Cons.prems(2) row by auto
  show ?case
    using Cons.IH [OF io di] row by (simp add: ins id_pairs_def)
qed

text \<open>
  C9.  When the \<open>companies\<close> table is empty at the start and no two data rows of
  \<open>company_master.csv\<close> have the same ticker (missing, empty and \<open>#N/A\<close> tickers
  apart), the dictionary that \<open>import_companies\<close> returns agrees with the table: it maps
  exactly the tickers of the file, and each to the \<open>company_id\<close> of that ticker's row.
\<close>

theorem import_companies_dict_agrees:
  assumes "csv_files fs ''company_master.csv'' = Some df"
    and "distinct (csv_tickers df)"
    and "companies db = []"
    and "import_companies pf fs db = Inr (db', ticker_to_id)"
  shows "ticker_to_id tk = select_company_id (companies db') tk
       \<and> dom ticker_to_id = set (csv_tickers df)"
proof -
  from assms(1,4) obtain recs where
    recs: "for_each (company_record pf (csv_columns df)) (csv_rows df) [] = Inr recs"
    and db': "db' = db\<lparr>companies := fold insert_company recs (companies db)\<rparr>"
    and dict: "ticker_to_id = ticker_dict recs"
    by (auto simp: import_companies_def read_csv_def bind_err_Inr_iff)
  have tk: "map co_ticker recs = csv_tickers df"
    using company_records_tickers [OF recs] by (simp add: csv_tickers_def)
  then have d: "distinct (map co_ticker recs)" using assms(2) by simp
  have "ids_in_order ([] :: 'a company_row list)" by (simp add: ids_in_order_def)
  moreover have "distinct (map co_ticker ([] :: 'a company_row list) @ map co_ticker recs)"
    using d by simp
  ultimately have
    "map (\<lambda>c. (co_ticker c, co_company_id c)) (fold insert_company recs [])
       = id_pairs 0 recs"
    using fold_insert_company [of "[]" recs] by simp
  then have "select_company_id (companies db') tk = map_of (id_pairs 0 recs) tk"
    using db' assms(3) by (simp add: select_company_id_map_of)
  moreover have "ticker_to_id = map_of (id_pairs 0 recs)"
    using dict ticker_dict_map_of [OF d] by simp
  moreover have "dom (map_of (id_pairs 0 recs)) = set (map co_ticker recs)"
    by (metis dom_map_of_conv_image_fst set_map map_fst_id_pairs)
  ultimately show ?thesis using tk by simp
qed

lemma demo_strips:
  "strip '' AAPL US Equity'' = ''AAPL US Equity''"
  "strip ''VOD LN Equity'' = ''VOD LN Equity''"
  "strip ''#N/A'' = ''#N/A''"
  by (simp_all add: strip_def is_space_def)

lemma demo_tickers: "csv_tickers demo_company_master = [''AAPL US Equity'', ''VOD LN Equity'']"
  by (simp add: csv_tickers_def demo_company_master_def row_cell_def isna_def py_str_def
        demo_strips)

lemma demo_import_runs:
  "\<exists>db' t. import_companies demo_float demo_files empty_db = Inr (db', t)
     \<and> t ''VOD LN Equity'' = Some 2"
  by (simp add: import_companies_def read_csv_def demo_files_def demo_company_master_def
        company_record_def row_ticker_def row_cell_def isna_def py_str_def demo_strips
        country_of_def row_get_def ticker_dict_def)

theorem import_companies_dict_agrees_witness:
  "case import_companies demo_float demo_files empty_db of
     Inl e \<Rightarrow> False
   | Inr (db', t) \<Rightarrow>
       t ''VOD LN Equity'' = Some 2
       \<and> select_company_id (companies db') ''VOD LN Equity'' = Some 2
       \<and> dom t = {''AAPL US Equity'', ''VOD LN Equity''}"
proof -
  obtain db' t where run: "import_companies demo_float demo_files empty_db = Inr (db', t)"
    and v: "t ''VOD LN Equity'' = Some 2"
    using demo_import_runs by blast
  have f: "csv_files demo_files ''company_master.csv'' = Some demo_company_master"
    by (simp add: demo_files_def)
  have d: "distinct (csv_tickers demo_company_master)" by (simp add: demo_tickers)
  have e: "companies empty_db = []" by (simp add: empty_db_def)
  from import_companies_dict_agrees [OF f d e run, of "''VOD LN Equity''"] v
  show ?thesis by (simp add: run demo_tickers insert_commute)
qed

subsection \<open>import\_prices\_weekly: the columns of a ticker\<close>

lemma map_of_dict_set: "map_of (dict_set k v kvs) = (map_of kvs)(k \<mapsto> v)"
  by (induction kvs) (auto simp: fun_eq_iff)

declare ticker_cols_loop.simps [simp del]

lemma ticker_cols_loop_sound:
  assumes "map_of (ticker_cols_loop ticker_row field_row c acc) tk = Some b"
  shows "map_of acc tk = Some b
     \<or> (\<exists>col. c \<le> col \<and> even (col - c) \<and> col < length ticker_row
          \<and> cell_text (ticker_row ! col) = Some tk
          \<and> tk \<noteq> [] \<and> tk \<notin> set [''nan'', ''#N/A Requesting Data...'']
          \<and> b = block_cols col (field_label field_row col) (field_label field_row (col + 1)))"
  using assms
proof (induction ticker_row field_row c acc rule: ticker_cols_loop.induct)
  case (1 ticker_row field_row col ticker_cols)
  let ?P = "\<lambda>c. \<exists>col'. c \<le> col' \<and> even (col' - c) \<and> col' < length ticker_row
          \<and> cell_text (ticker_row ! col') = Some tk
          \<and> tk \<noteq> [] \<and> tk \<notin> set [''nan'', ''#N/A Requesting Data...'']
          \<and> b = block_cols col' (field_label field_row col') (field_label field_row (col' + 1))"
  have up: "?P (col + 2) \<Longrightarrow> ?P col"
  proof -
    assume "?P (col + 2)"
    then obtain col' where c: "col + 2 \<le> col'" "even (col' - (col + 2))" "col' < length ticker_row"
      "cell_text (ticker_row ! col') = Some tk" "tk \<noteq> []"
      "tk \<notin> set [''nan'', ''#N/A Requesting Data...'']"
      "b = block_cols col' (field_label field_row col') (field_label field_row (col' + 1))"
      by blast
    have "col' - col = (col' - (col + 2)) + 2" using c(1) by simp
    then have "even (col' - col)" using c(2) by simp
    then show "?P col" using c by (intro exI [of _ col']) simp
  qed
  show ?case
  proof (cases "col < length ticker_row")
    case False
    then show ?thesis using "1.prems" by (simp add: ticker_cols_loop.simps [of _ _ col])
  next
    case inside: True
    show ?thesis
    proof (cases "cell_text (ticker_row ! col)")
      case None
      then have "map_of (ticker_cols_loop ticker_row field_row (col + 2) ticker_cols) tk = Some b"
        using "1.prems" inside by (simp add: ticker_cols_loop.simps [of _ _ col])
      from "1.IH"(1) [OF inside None this] up show ?thesis by blast
    next
      case (Some t)
      show ?thesis
      proof (cases "t \<noteq> [] \<and> t \<notin> set [''nan'', ''#N/A Requesting Data...'']")
        case False
        then have "map_of (ticker_cols_loop ticker_row field_row (col + 2) ticker_cols) tk = Some b"
          using "1.prems" inside Some by (auto simp: ticker_cols_loop.simps [of _ _ col])
        from "1.IH"(3) [OF inside Some False this] up show ?thesis by blast
      next
        case True
        let ?acc = "dict_set t (block_cols col (field_label field_row col)
                                    (field_label field_row (col + 1))) ticker_cols"
        have "map_of (ticker_cols_loop ticker_row field_row (col + 2) ?acc) tk = Some b"
          using "1.prems" inside Some True by (auto simp: ticker_cols_loop.simps [of _ _ col])
        from "1.IH"(2) [OF inside Some True this]
        have "map_of ?acc tk = Some b \<or> ?P (col + 2)" .
        then show ?thesis
        proof
          assume a: "map_of ?acc tk = Some b"
          show ?thesis
          proof (cases "tk = t")
            case True
            with a have "b = block_cols col (field_label field_row col)
                                    (field_label field_row (col + 1))"
              by (simp add: map_of_dict_set)
            then have "?P col" using inside Some \<open>t \<noteq> [] \<and> t \<notin> set [''nan'', ''#N/A Requesting Data...'']\<close> True
              by (intro exI [of _ col]) simp
            then show ?thesis by blast
          next
            case False
            with a show ?thesis by (simp add: map_of_dict_set)
          qed
        next
          assume "?P (col + 2)"
          with up show ?thesis by blast
        qed
      qed
    qed
  qed
qed

lemma ticker_cols_loop_dom:
  "dom (map_of acc) \<subseteq> dom (map_of (ticker_cols_loop ticker_row field_row c acc))"
proof (induction ticker_row field_row c acc rule: ticker_cols_loop.induct)
  case (1 ticker_row field_row col ticker_cols)
  show ?case
  proof (cases "col < length ticker_row")
    case False
    then show ?thesis by (simp add: ticker_cols_loop.simps [of _ _ col])
  next
    case inside: True
    show ?thesis
    proof (cases "cell_text (ticker_row ! col)")
      case None
      then show ?thesis using "1.IH"(1) [OF inside None] inside
        by (simp add: ticker_cols_loop.simps [of _ _ col])
    next
      case (Some t)
      show ?thesis
      proof (cases "t \<noteq> [] \<and> t \<notin> set [''nan'', ''#N/A Requesting Data...'']")
        case False
        then show ?thesis using "1.IH"(3) [OF inside Some False] inside Some
          by (auto simp: ticker_cols_loop.simps [of _ _ col])
      next
        case True
        have "dom (map_of ticker_cols) \<subseteq> dom (map_of (dict_set t (block_cols col
                (field_label field_row col) (field_label field_row (col + 1))) ticker_cols))"
          by (auto simp: map_of_dict_set)
        then show ?thesis using "1.IH"(2) [OF inside Some True] inside Some True
          by (auto simp: ticker_cols_loop.simps [of _ _ col])
      qed
    qed
  qed
qed

lemma ticker_cols_loop_complete:
  assumes "c \<le> col" "even (col - c)" "col < length ticker_row"
    "cell_text (ticker_row ! col) = Some tk" "tk \<noteq> []"
    "tk \<notin> set [''nan'', ''#N/A Requesting Data...'']"
  shows "tk \<in> dom (map_of (ticker_cols_loop ticker_row field_row c acc))"
  using assms
proof (induction ticker_row field_row c acc rule: ticker_cols_loop.induct)
  case (1 ticker_row field_row c ticker_cols)
  have inside: "c < length ticker_row" using "1.prems" by simp
  show ?case
  proof (cases "c = col")
    case True
    let ?acc = "dict_set tk (block_cols c (field_label field_row c)
                                    (field_label field_row (c + 1))) ticker_cols"
    have "ticker_cols_loop ticker_row field_row c ticker_cols
        = ticker_cols_loop ticker_row field_row (c + 2) ?acc"
      using "1.prems" True by (subst ticker_cols_loop.simps) simp
    moreover have "tk \<in> dom (map_of ?acc)" by (simp add: map_of_dict_set)
    ultimately show ?thesis
      using ticker_cols_loop_dom [of ?acc ticker_row field_row "c + 2"] by auto
  next
    case False
    then have "c < col" using "1.prems"(1) by simp
    then have "c + 2 \<le> col" using "1.prems"(2) by (cases "col = c + 1") auto
    moreover have "even (col - (c + 2))" using "1.prems"(2) \<open>c + 2 \<le> col\<close> by simp
    ultimately have "c + 2 \<le> col \<and> even (col - (c + 2))" by simp
    show ?thesis
    proof (cases "cell_text (ticker_row ! c)")
      case None
      from "1.IH"(1) [OF inside None \<open>c + 2 \<le> col\<close> \<open>even (col - (c + 2))\<close> "1.prems"(3-6)]
      show ?thesis using inside None by (simp add: ticker_cols_loop.simps [of _ _ c])
    next
      case (Some t)
      show ?thesis
      proof (cases "t \<noteq> [] \<and> t \<notin> set [''nan'', ''#N/A Requesting Data...'']")
        case False
        from "1.IH"(3) [OF inside Some False \<open>c + 2 \<le> col\<close> \<open>even (col - (c + 2))\<close> "1.prems"(3-6)]
        show ?thesis using inside Some False by (auto simp: ticker_cols_loop.simps [of _ _ c])
      next
        case True
        from "1.IH"(2) [OF inside Some True \<open>c + 2 \<le> col\<close> \<open>even (col - (c + 2))\<close> "1.prems"(3-6)]
        show ?thesis using inside Some True by (simp add: ticker_cols_loop.simps [of _ _ c])
      qed
    qed
  qed
qed

text \<open>
  C8.  For the block of two columns that starts at \<open>col\<close>: when neither of its two labels
  contains \<open>Price\<close>, the price column is the first column of the block; when neither
  contains \<open>Return\<close>, the return column is the second.  The mapper is a total function of
  the two header rows: every block with a ticker gets an entry in \<open>ticker_cols\<close>, and every
  entry is what \<open>block_cols\<close> gives for a block of that ticker, whatever the labels are.
\<close>

theorem price_header_defaults:
  "(\<not> contains ''Price'' field1 \<and> \<not> contains ''Price'' field2
      \<longrightarrow> price_col (block_cols col field1 field2) = col)
   \<and> (\<not> contains ''Return'' field1 \<and> \<not> contains ''Return'' field2
      \<longrightarrow> return_col (block_cols col field1 field2) = col + 1)
   \<and> (ticker_block_at ticker_row col tk
      \<longrightarrow> tk \<in> dom (map_of (ticker_cols_loop ticker_row field_row 1 [])))
   \<and> (map_of (ticker_cols_loop ticker_row field_row 1 []) tk = Some b
      \<longrightarrow> (\<exists>c. ticker_block_at ticker_row c tk
             \<and> b = block_cols c (field_label field_row c) (field_label field_row (c + 1))))"
proof -
  have a: "ticker_block_at ticker_row col tk
      \<longrightarrow> tk \<in> dom (map_of (ticker_cols_loop ticker_row field_row 1 []))"
  proof
    assume h: "ticker_block_at ticker_row col tk"
    then have "1 \<le> col" "even (col - 1)" by (auto simp: ticker_block_at_def elim: oddE)
    then show "tk \<in> dom (map_of (ticker_cols_loop ticker_row field_row 1 []))"
      using h ticker_cols_loop_complete [of 1 col ticker_row tk field_row "[]"]
      by (simp add: ticker_block_at_def)
  qed
  have b: "map_of (ticker_cols_loop ticker_row field_row 1 []) tk = Some b
      \<longrightarrow> (\<exists>c. ticker_block_at ticker_row c tk
             \<and> b = block_cols c (field_label field_row c) (field_label field_row (c + 1)))"
  proof
    assume "map_of (ticker_cols_loop ticker_row field_row 1 []) tk = Some b"
    from ticker_cols_loop_sound [OF this]
    obtain c where c: "1 \<le> c" "even (c - 1)" "c < length ticker_row"
      "cell_text (ticker_row ! c) = Some tk" "tk \<noteq> []"
      "tk \<notin> set [''nan'', ''#N/A Requesting Data...'']"
      "b = block_cols c (field_label field_row c) (field_label field_row (c + 1))"
      by auto
    have "odd c" using c(1,2) by (metis even_Suc le_add_diff_inverse plus_1_eq_Suc)
    then have "ticker_block_at ticker_row c tk" using c by (simp add: ticker_block_at_def)
    then show "\<exists>c. ticker_block_at ticker_row c tk
             \<and> b = block_cols c (field_label field_row c) (field_label field_row (c + 1))"
      using c(7) by blast
  qed
  show ?thesis using a b by (simp add: block_cols_def)
qed

theorem price_header_defaults_witness:
  "price_col (block_cols 1 ''PX_LAST'' ''CHG_PCT_1D'') = 1
   \<and> return_col (block_cols 1 ''PX_LAST'' ''CHG_PCT_1D'') = 2
   \<and> ''AAPL US Equity''
       \<in> dom (map_of (ticker_cols_loop [Missing, Str ''AAPL US Equity'', Missing]
                        [Missing, Str ''PX_LAST'', Str ''CHG_PCT_1D''] 1 []))"
proof -
  have h: "ticker_block_at [Missing, Str ''AAPL US Equity'', Missing] 1 ''AAPL US Equity''"
    by (simp add: ticker_block_at_def cell_text_def isna_def py_str_def strip_def is_space_def)
  have n: "\<not> contains ''Price'' ''PX_LAST''" "\<not> contains ''Price'' ''CHG_PCT_1D''"
    "\<not> contains ''Return'' ''PX_LAST''" "\<not> contains ''Return'' ''CHG_PCT_1D''"
    by simp_all
  show ?thesis
    using h n price_header_defaults [of "''PX_LAST''" "''CHG_PCT_1D''" 1
        "[Missing, Str ''AAPL US Equity'', Missing]" "''AAPL US Equity''"
        "[Missing, Str ''PX_LAST'', Str ''CHG_PCT_1D'']"]
    by simp
qed

subsection \<open>Rows that the loaders skip\<close>










text \<open>The dictionary that \<open>import_companies\<close> returns names tickers of the table only.\<close>

lemma select_company_id_Some_iff:
  "select_company_id t tk \<noteq> None \<longleftrightarrow> tk \<in> set (map co_ticker t)"
proof -
  have "dom (map_of (map (\<lambda>c. (co_ticker c, co_company_id c)) t)) = set (map co_ticker t)"
    by (simp add: dom_map_of_conv_image_fst image_image)
  then show ?thesis unfolding select_company_id_map_of by (metis domIff)
qed

lemma tickers_insert_company:
  "set (map co_ticker (insert_company r t)) = insert (co_ticker r) (set (map co_ticker t))"
  by (auto simp: insert_company_def company_rec.defs)

lemma tickers_fold_insert_company:
  "set (map co_ticker (fold insert_company recs t)) = set (map co_ticker recs) \<union> set (map co_ticker t)"
proof (induction recs arbitrary: t)
  case Nil
  then show ?case by simp
next
  case (Cons r recs)
  show ?case
    unfolding fold_simps comp_apply Cons.IH tickers_insert_company by auto
qed

lemma dom_ticker_dict: "dom (ticker_dict recs) = set (map co_ticker recs)"
proof -
  have "dom (ticker_dict recs) = fst ` set (id_pairs 0 recs)"
    unfolding ticker_dict_def ticker_dict_fold by (simp add: dom_map_of_conv_image_fst)
  then show ?thesis by (metis set_map map_fst_id_pairs)
qed

lemma import_companies_dict_in_table:
  assumes "import_companies pf fs db = Inr (db', ticker_to_id)"
  shows "\<forall>tk \<in> dom ticker_to_id. select_company_id (companies db') tk \<noteq> None"
proof -
  from assms obtain recs where
    "db' = db\<lparr>companies := fold insert_company recs (companies db)\<rparr>"
    "ticker_to_id = ticker_dict recs"
    by (auto simp: import_companies_def bind_err_Inr_iff)
  then show ?thesis
    unfolding select_company_id_Some_iff
    by (simp add: dom_ticker_dict tickers_fold_insert_company del: set_map)
qed

subsection \<open>combine\_memb.py\<close>

lemma find_year_first:
  assumes "find_year name = Some m"
  shows "\<exists>pre post. name = pre @ m @ post \<and> is_year m
           \<and> (\<forall>pre' m' post'. name = pre' @ m' @ post' \<and> is_year m' \<longrightarrow> length pre \<le> length pre')"
  using assms
proof (induction name rule: find_year.induct)
  case (1 a b c d rest)
  show ?case
  proof (cases "a = CHR ''2'' \<and> b = CHR ''0'' \<and> is_digit c \<and> is_digit d")
    case True
    then have m: "m = [a, b, c, d]" using "1.prems" by simp
    have "a # b # c # d # rest = [] @ m @ rest" using m by simp
    moreover have "is_year m" using True m by (auto simp: is_year_def)
    ultimately show ?thesis by (metis le0 list.size(3))
  next
    case False
    then have "find_year (b # c # d # rest) = Some m" using "1.prems" by auto
    from "1.IH" [OF False this] obtain pre post where
      p: "b # c # d # rest = pre @ m @ post" "is_year m"
      "\<forall>pre' m' post'. b # c # d # rest = pre' @ m' @ post' \<and> is_year m' \<longrightarrow> length pre \<le> length pre'"
      by blast
    have first: "length (a # pre) \<le> length pre'"
      if h: "a # b # c # d # rest = pre' @ m' @ post'" "is_year m'" for pre' m' post'
    proof (cases pre')
      case Nil
      then have "take 4 (a # b # c # d # rest) = m'"
        using h by (auto simp: is_year_def)
      then show ?thesis using h(2) False by (auto simp: is_year_def)
    next
      case (Cons x xs)
      then have "b # c # d # rest = xs @ m' @ post'" using h(1) by simp
      then have "length pre \<le> length xs" using p(3) h(2) by blast
      then show ?thesis using Cons by simp
    qed
    have "a # b # c # d # rest = (a # pre) @ m @ post" using p(1) by simp
    then show ?thesis using p(2) first by blast
  qed
qed simp_all

lemma year_text:
  assumes "is_year m"
  shows "fmt_d (int (int_of_digits m)) = m"
proof -
  from assms obtain c d where m: "m = [CHR ''2'', CHR ''0'', c, d]" "is_digit c" "is_digit d"
    by (auto simp: is_year_def)
  define a b where "a = digit_val c" and "b = digit_val d"
  have ab: "a < 10" "b < 10" "digit_char a = c" "digit_char b = d"
    using m(2,3) by (simp_all add: a_def b_def digit_val_less digit_char_digit_val)
  have v: "int_of_digits m = 2000 + 10 * a + b"
    by (simp add: m int_of_digits_def a_def b_def digit_val_def)
  let ?y = "2000 + 10 * a + b"
  have r: "1000 \<le> ?y" "?y < 10000" using ab by simp_all
  have d1: "?y div 1000 = 2" using ab by simp
  have d2: "?y div 100 = 20" using ab by simp
  have d3: "?y div 10 = 200 + a" using ab by simp
  have "show_nat ?y = [digit_char 2, digit_char 20, digit_char (200 + a), digit_char ?y]"
    using show_nat4 [OF r] unfolding d1 d2 d3 .
  moreover have "digit_char 2 = CHR ''2''" "digit_char 20 = CHR ''0''"
    by (simp_all add: digit_char_def)
  moreover have "(10 * 20 + a) mod 10 = a mod 10" "(10 * (200 + a) + b) mod 10 = b mod 10"
    by (rule mod_mult_self4)+
  then have "(200 + a) mod 10 = a mod 10" "?y mod 10 = b mod 10"
    by simp_all
  then have "digit_char (200 + a) = digit_char a" "digit_char ?y = digit_char b"
    by (simp_all add: digit_char_def)
  ultimately have "show_nat ?y = m" using ab m(1) by simp
  then have "show_nat (int_of_digits m) = m" unfolding v .
  moreover have "fmt_d (int n) = show_nat n" for n by (simp add: fmt_d_def)
  ultimately show ?thesis by simp
qed

lemma drop_duplicates_distinct:
  "distinct (map key (drop_duplicates key seen rs))
   \<and> set (map key (drop_duplicates key seen rs)) = set (map key rs) - set seen
   \<and> set (drop_duplicates key seen rs) \<subseteq> set rs"
proof (induction rs arbitrary: seen)
  case Nil
  then show ?case by simp
next
  case (Cons r rs)
  show ?case
  proof (cases "key r \<in> set seen")
    case True
    then show ?thesis using Cons.IH [of seen] by auto
  next
    case False
    then show ?thesis using Cons.IH [of "key r # seen"] by auto
  qed
qed

lemma collect_rows_list_all2:
  assumes "collect_rows fs = Inr rows"
  shows "list_all2 (\<lambda>f rs. file_rows f = Inr rs) fs rows"
  using assms
proof (induction fs arbitrary: rows)
  case Nil
  then show ?case by simp
next
  case (Cons f fs)
  then show ?case by (auto simp: bind_err_Inr_iff)
qed

lemma file_rows_columns:
  assumes "file_rows (name, df) = Inr rs" "r \<in> set rs"
  shows "\<exists>m. find_year name = Some m \<and> sr_index_id r = take 3 name
           \<and> sr_as_of_date r = m @ ''-12-31''"
proof (cases "find_year name")
  case None
  then show ?thesis using assms(1) by (simp add: file_rows_def)
next
  case (Some m)
  have "is_year m" using find_year_first [OF Some] by blast
  then have "fmt_d (int (int_of_digits m)) = m" by (rule year_text)
  then show ?thesis
    using assms Some by (auto simp: file_rows_def Let_def split: if_splits)
qed

text \<open>The column that \<open>df["Ticker"]\<close> is, and the rows that a file contributes.\<close>

lemma index_of_Some: "index_of x xs = Some i \<Longrightarrow> i < length xs \<and> xs ! i = x"
proof (induction xs arbitrary: i)
  case Nil
  then show ?case by simp
next
  case (Cons y ys)
  then show ?case by (cases "x = y") auto
qed

lemma index_of_mem: "x \<in> set xs \<Longrightarrow> \<exists>i. index_of x xs = Some i"
  by (induction xs) auto

lemma index_of_unique:
  assumes "count_list xs x \<le> 1" "i < length xs" "xs ! i = x"
  shows "index_of x xs = Some i"
  using assms
proof (induction xs arbitrary: i)
  case Nil
  then show ?case by simp
next
  case (Cons y ys)
  show ?case
  proof (cases "x = y")
    case True
    then have "count_list ys x = 0" using Cons.prems(1) by simp
    then have n: "x \<notin> set ys" by (simp add: count_list_0_iff)
    have "i = 0"
    proof (rule ccontr)
      assume "i \<noteq> 0"
      then obtain j where j: "i = Suc j" by (cases i) auto
      then have "ys ! j = x" "j < length ys" using Cons.prems(2,3) by simp_all
      then show False using n by (metis nth_mem)
    qed
    then show ?thesis using True by simp
  next
    case False
    then obtain j where j: "i = Suc j" using Cons.prems(3) by (cases i) auto
    have "count_list ys x \<le> 1" using Cons.prems(1) False by simp
    from Cons.IH [OF this, of j] Cons.prems(2,3) j have "index_of x ys = Some j" by simp
    then show ?thesis using False j by simp
  qed
qed

lemma kept_index: "index_of name cols = Some i \<Longrightarrow> kept cols row name = row_cell row i"
  by (simp add: kept_def row_get_def)

lemma file_rows_ticker:
  assumes "file_rows (name, df) = Inr rs"
  shows "\<exists>i. index_of ''Ticker'' (map strip (csv_columns df)) = Some i
           \<and> count_list (map strip (csv_columns df)) ''Ticker'' \<le> 1
           \<and> map sr_ticker rs
                = map (\<lambda>row. strip (py_str (row_cell row i)))
                    (filter (\<lambda>row. row_cell row i \<noteq> Missing) (csv_rows df))"
proof (cases "find_year name")
  case None
  then show ?thesis using assms by (simp add: file_rows_def)
next
  case (Some m)
  let ?cols = "map strip (csv_columns df)"
  have t: "''Ticker'' \<in> set ?cols" and c: "count_list ?cols ''Ticker'' \<le> 1"
    using assms Some by (auto simp: file_rows_def Let_def split: if_splits)
  from index_of_mem [OF t] obtain i where i: "index_of ''Ticker'' ?cols = Some i" by blast
  have k: "kept ?cols row ''Ticker'' = row_cell row i" for row
    using i by (rule kept_index)
  have "map sr_ticker rs
      = map (\<lambda>row. strip (py_str (row_cell row i)))
          (filter (\<lambda>row. row_cell row i \<noteq> Missing) (csv_rows df))"
    using assms Some t
    by (auto simp: file_rows_def Let_def k isna_def comp_def split: if_splits)
  then show ?thesis using i c by blast
qed

lemma file_rows_sound:
  assumes "file_rows (name, df) = Inr rs" "r \<in> set rs"
  shows "\<exists>row i. row \<in> set (csv_rows df) \<and> i < length (csv_columns df)
           \<and> strip (csv_columns df ! i) = ''Ticker'' \<and> row_cell row i \<noteq> Missing
           \<and> sr_ticker r = strip (py_str (row_cell row i))"
proof -
  from file_rows_ticker [OF assms(1)] obtain i where
    i: "index_of ''Ticker'' (map strip (csv_columns df)) = Some i"
    and m: "map sr_ticker rs
                = map (\<lambda>row. strip (py_str (row_cell row i)))
                    (filter (\<lambda>row. row_cell row i \<noteq> Missing) (csv_rows df))"
    by blast
  have "sr_ticker r \<in> set (map sr_ticker rs)" using assms(2) by simp
  then obtain row where "row \<in> set (csv_rows df)" "row_cell row i \<noteq> Missing"
    "sr_ticker r = strip (py_str (row_cell row i))"
    unfolding m by auto
  moreover have il: "i < length (csv_columns df)" using index_of_Some [OF i] by simp
  moreover have "strip (csv_columns df ! i) = ''Ticker''"
    using index_of_Some [OF i] il by auto
  ultimately show ?thesis by blast
qed

lemma file_rows_complete:
  assumes "file_rows (name, df) = Inr rs" "row \<in> set (csv_rows df)"
    and "i < length (csv_columns df)" "strip (csv_columns df ! i) = ''Ticker''"
    and "row_cell row i \<noteq> Missing"
  shows "\<exists>r \<in> set rs. sr_ticker r = strip (py_str (row_cell row i))"
proof -
  from file_rows_ticker [OF assms(1)] obtain j where
    j: "index_of ''Ticker'' (map strip (csv_columns df)) = Some j"
    and c: "count_list (map strip (csv_columns df)) ''Ticker'' \<le> 1"
    and m: "map sr_ticker rs
                = map (\<lambda>row. strip (py_str (row_cell row j)))
                    (filter (\<lambda>row. row_cell row j \<noteq> Missing) (csv_rows df))"
    by blast
  have "index_of ''Ticker'' (map strip (csv_columns df)) = Some i"
    using assms(3,4) by (intro index_of_unique [OF c]) simp_all
  then have "j = i" using j by simp
  then have "strip (py_str (row_cell row i)) \<in> set (map sr_ticker rs)"
    unfolding m using assms(2,5) by auto
  then show ?thesis by auto
qed

text \<open>The files that the two patterns select.\<close>

lemma glob_split:
  assumes "take (length pre) name = pre" "drop (length name - length suf) name = suf"
    and "length pre + length suf \<le> length name"
  shows "\<exists>mid. name = pre @ mid @ suf"
proof -
  let ?front = "take (length name - length suf) name"
  have "length pre \<le> length name - length suf" using assms(3) by linarith
  then have "take (length pre) ?front = pre" using assms(1) by (simp add: min_def)
  then obtain mid where f: "?front = pre @ mid"
    by (metis append_take_drop_id)
  have "name = ?front @ suf" using assms(2) by (metis append_take_drop_id)
  then have "name = pre @ mid @ suf" using f by (metis append.assoc)
  then show ?thesis by blast
qed

lemma glob_match_iff: "glob_match pre name \<longleftrightarrow> (\<exists>mid. name = pre @ mid @ ''.xlsx'')"
proof
  assume g: "glob_match pre name"
  have a: "take (length pre) name = pre"
    using g unfolding glob_match_def starts_with_def by blast
  have b: "drop (length name - length ''.xlsx'') name = ''.xlsx''"
    using g unfolding glob_match_def ends_with_def by blast
  have c: "length pre + length ''.xlsx'' \<le> length name"
    using g unfolding glob_match_def by blast
  show "\<exists>mid. name = pre @ mid @ ''.xlsx''" using a b c by (rule glob_split)
next
  assume "\<exists>mid. name = pre @ mid @ ''.xlsx''"
  then show "glob_match pre name"
    by (auto simp: glob_match_def starts_with_def ends_with_def)
qed

lemma selected_files_iff:
  "(name, df) \<in> set (selected_files dir)
     \<longleftrightarrow> (name, df) \<in> set dir
         \<and> (\<exists>mid. name = ''SPX as of'' @ mid @ ''.xlsx'' \<or> name = ''UKX as of'' @ mid @ ''.xlsx'')"
proof -
  have "\<not> starts_with ''~$'' (''SPX as of'' @ mid @ ''.xlsx'')"
    "\<not> starts_with ''~$'' (''UKX as of'' @ mid @ ''.xlsx'')" for mid
    by (simp_all add: starts_with_def)
  then show ?thesis
    unfolding selected_files_def glob_match_iff by auto
qed

lemma selected_files_subset:
  assumes "f \<in> set (selected_files dir)"
  shows "f \<in> set dir \<and> (glob_match ''SPX as of'' (fst f) \<or> glob_match ''UKX as of'' (fst f))
         \<and> \<not> starts_with ''~$'' (fst f)"
  using assms by (auto simp: selected_files_def)

lemma list_all2_in_set:
  assumes "list_all2 P xs ys" "y \<in> set ys"
  shows "\<exists>x \<in> set xs. P x y"
  using assms by (metis in_set_conv_nth list_all2_conv_all_nth)

lemma list_all2_in_set_left:
  assumes "list_all2 P xs ys" "x \<in> set xs"
  shows "\<exists>y \<in> set ys. P x y"
  using assms by (metis in_set_conv_nth list_all2_conv_all_nth)

text \<open>
  C7.  When the consolidator writes its table, every row of the table comes from a data
  row with a ticker of one of the files of the directory named \<open>SPX as of*.xlsx\<close> or
  \<open>UKX as of*.xlsx\<close>: its \<open>Ticker\<close> is the stripped text of the cell in the column
  whose stripped name is \<open>Ticker\<close>, its \<open>index_id\<close> is the first three characters of the
  name of that file and its \<open>as_of_date\<close> is the first \<open>20XX\<close> in the name followed by
  \<open>-12-31\<close>.  No two rows of the table have the same (\<open>index_id\<close>, \<open>as_of_date\<close>,
  \<open>Ticker\<close>).  And every file of the directory with such a name is merged: each of its
  data rows with a ticker has a row in the table with that ticker, the index of the file
  and the date of the file.
\<close>

theorem combine_memb_rows:
  assumes "combine_memb dir = Inr out"
  shows "(\<forall>r \<in> set out. \<exists>name df mid row i m pre post.
            (name, df) \<in> set dir
            \<and> (name = ''SPX as of'' @ mid @ ''.xlsx'' \<or> name = ''UKX as of'' @ mid @ ''.xlsx'')
            \<and> row \<in> set (csv_rows df) \<and> i < length (csv_columns df)
            \<and> strip (csv_columns df ! i) = ''Ticker'' \<and> row_cell row i \<noteq> Missing
            \<and> sr_ticker r = strip (py_str (row_cell row i))
            \<and> sr_index_id r = take 3 name
            \<and> name = pre @ m @ post \<and> is_year m
            \<and> (\<forall>pre' m' post'. name = pre' @ m' @ post' \<and> is_year m'
                  \<longrightarrow> length pre \<le> length pre')
            \<and> sr_as_of_date r = m @ ''-12-31'')
       \<and> distinct (map snapshot_key out)
       \<and> (\<forall>name df mid row i.
            (name, df) \<in> set dir
            \<and> (name = ''SPX as of'' @ mid @ ''.xlsx'' \<or> name = ''UKX as of'' @ mid @ ''.xlsx'')
            \<and> row \<in> set (csv_rows df) \<and> i < length (csv_columns df)
            \<and> strip (csv_columns df ! i) = ''Ticker'' \<and> row_cell row i \<noteq> Missing
          \<longrightarrow> (\<exists>r m pre post. r \<in> set out
                 \<and> sr_ticker r = strip (py_str (row_cell row i))
                 \<and> sr_index_id r = take 3 name
                 \<and> name = pre @ m @ post \<and> is_year m
                 \<and> (\<forall>pre' m' post'. name = pre' @ m' @ post' \<and> is_year m'
                       \<longrightarrow> length pre \<le> length pre')
                 \<and> sr_as_of_date r = m @ ''-12-31''))"
proof -
  from assms obtain rows where
    rows: "collect_rows (selected_files dir) = Inr rows"
    and out: "out = drop_duplicates snapshot_key [] (concat rows)"
    by (auto simp: combine_memb_def bind_err_Inr_iff split: if_splits)
  note la = collect_rows_list_all2 [OF rows]
  note dd = drop_duplicates_distinct [of snapshot_key "[]" "concat rows"]
  have a: "\<exists>name df mid row i m pre post.
            (name, df) \<in> set dir
            \<and> (name = ''SPX as of'' @ mid @ ''.xlsx'' \<or> name = ''UKX as of'' @ mid @ ''.xlsx'')
            \<and> row \<in> set (csv_rows df) \<and> i < length (csv_columns df)
            \<and> strip (csv_columns df ! i) = ''Ticker'' \<and> row_cell row i \<noteq> Missing
            \<and> sr_ticker r = strip (py_str (row_cell row i))
            \<and> sr_index_id r = take 3 name
            \<and> name = pre @ m @ post \<and> is_year m
            \<and> (\<forall>pre' m' post'. name = pre' @ m' @ post' \<and> is_year m'
                  \<longrightarrow> length pre \<le> length pre')
            \<and> sr_as_of_date r = m @ ''-12-31''" if r: "r \<in> set out" for r
  proof -
    have "r \<in> set (concat rows)" using r dd out by blast
    then obtain rs where rs: "rs \<in> set rows" "r \<in> set rs" by auto
    from list_all2_in_set [OF la rs(1)] obtain f where
      f: "f \<in> set (selected_files dir)" "file_rows f = Inr rs" by blast
    obtain name df where nd: "f = (name, df)" by (cases f)
    from f(1) [unfolded nd selected_files_iff] obtain mid where
      sel: "(name, df) \<in> set dir"
      "name = ''SPX as of'' @ mid @ ''.xlsx'' \<or> name = ''UKX as of'' @ mid @ ''.xlsx''"
      by blast
    from file_rows_columns [OF f(2) [unfolded nd] rs(2)] obtain m where
      m: "find_year name = Some m" "sr_index_id r = take 3 name"
      "sr_as_of_date r = m @ ''-12-31''" by blast
    from find_year_first [OF m(1)] obtain pre post where
      y: "name = pre @ m @ post" "is_year m"
      "\<forall>pre' m' post'. name = pre' @ m' @ post' \<and> is_year m' \<longrightarrow> length pre \<le> length pre'"
      by blast
    from file_rows_sound [OF f(2) [unfolded nd] rs(2)] obtain row i where
      ri: "row \<in> set (csv_rows df)" "i < length (csv_columns df)"
      "strip (csv_columns df ! i) = ''Ticker''" "row_cell row i \<noteq> Missing"
      "sr_ticker r = strip (py_str (row_cell row i))" by blast
    have "(name, df) \<in> set dir
            \<and> (name = ''SPX as of'' @ mid @ ''.xlsx'' \<or> name = ''UKX as of'' @ mid @ ''.xlsx'')
            \<and> row \<in> set (csv_rows df) \<and> i < length (csv_columns df)
            \<and> strip (csv_columns df ! i) = ''Ticker'' \<and> row_cell row i \<noteq> Missing
            \<and> sr_ticker r = strip (py_str (row_cell row i))
            \<and> sr_index_id r = take 3 name
            \<and> name = pre @ m @ post \<and> is_year m
            \<and> (\<forall>pre' m' post'. name = pre' @ m' @ post' \<and> is_year m'
                  \<longrightarrow> length pre \<le> length pre')
            \<and> sr_as_of_date r = m @ ''-12-31''"
      by (intro conjI) fact+
    then show ?thesis by (intro exI)
  qed
  have b: "distinct (map snapshot_key out)" using dd out by simp
  have c: "\<exists>r m pre post. r \<in> set out
                 \<and> sr_ticker r = strip (py_str (row_cell row i))
                 \<and> sr_index_id r = take 3 name
                 \<and> name = pre @ m @ post \<and> is_year m
                 \<and> (\<forall>pre' m' post'. name = pre' @ m' @ post' \<and> is_year m'
                       \<longrightarrow> length pre \<le> length pre')
                 \<and> sr_as_of_date r = m @ ''-12-31''"
    if h: "(name, df) \<in> set dir
            \<and> (name = ''SPX as of'' @ mid @ ''.xlsx'' \<or> name = ''UKX as of'' @ mid @ ''.xlsx'')
            \<and> row \<in> set (csv_rows df) \<and> i < length (csv_columns df)
            \<and> strip (csv_columns df ! i) = ''Ticker'' \<and> row_cell row i \<noteq> Missing"
    for name df mid row i
  proof -
    have f: "(name, df) \<in> set (selected_files dir)"
      unfolding selected_files_iff using h by blast
    from list_all2_in_set_left [OF la f] obtain rs where
      rs: "rs \<in> set rows" "file_rows (name, df) = Inr rs" by blast
    from file_rows_complete [OF rs(2)] h obtain r0 where
      r0: "r0 \<in> set rs" "sr_ticker r0 = strip (py_str (row_cell row i))" by blast
    have "r0 \<in> set (concat rows)" using rs(1) r0(1) by auto
    then have "snapshot_key r0 \<in> set (map snapshot_key (concat rows))" by simp
    also have "\<dots> = set (map snapshot_key out)" using dd out by simp
    finally obtain r where r: "r \<in> set out" "snapshot_key r = snapshot_key r0" by auto
    from file_rows_columns [OF rs(2) r0(1)] obtain m where
      m: "find_year name = Some m" "sr_index_id r0 = take 3 name"
      "sr_as_of_date r0 = m @ ''-12-31''" by blast
    from find_year_first [OF m(1)] obtain pre post where
      y: "name = pre @ m @ post" "is_year m"
      "\<forall>pre' m' post'. name = pre' @ m' @ post' \<and> is_year m' \<longrightarrow> length pre \<le> length pre'"
      by blast
    have k: "sr_ticker r = strip (py_str (row_cell row i))" "sr_index_id r = take 3 name"
      "sr_as_of_date r = m @ ''-12-31''"
      using r(2) r0(2) m(2,3) by (simp_all add: snapshot_key_def)
    have "r \<in> set out
                 \<and> sr_ticker r = strip (py_str (row_cell row i))
                 \<and> sr_index_id r = take 3 name
                 \<and> name = pre @ m @ post \<and> is_year m
                 \<and> (\<forall>pre' m' post'. name = pre' @ m' @ post' \<and> is_year m'
                       \<longrightarrow> length pre \<le> length pre')
                 \<and> sr_as_of_date r = m @ ''-12-31''"
      by (intro conjI) fact+
    then show ?thesis by (intro exI)
  qed
  show ?thesis
  proof (intro conjI ballI allI impI)
    fix r assume "r \<in> set out"
    then show "\<exists>name df mid row i m pre post.
            (name, df) \<in> set dir
            \<and> (name = ''SPX as of'' @ mid @ ''.xlsx'' \<or> name = ''UKX as of'' @ mid @ ''.xlsx'')
            \<and> row \<in> set (csv_rows df) \<and> i < length (csv_columns df)
            \<and> strip (csv_columns df ! i) = ''Ticker'' \<and> row_cell row i \<noteq> Missing
            \<and> sr_ticker r = strip (py_str (row_cell row i))
            \<and> sr_index_id r = take 3 name
            \<and> name = pre @ m @ post \<and> is_year m
            \<and> (\<forall>pre' m' post'. name = pre' @ m' @ post' \<and> is_year m'
                  \<longrightarrow> length pre \<le> length pre')
            \<and> sr_as_of_date r = m @ ''-12-31''" by (rule a)
  next
    show "distinct (map snapshot_key out)" by (rule b)
  next
    fix name df mid row i
    assume "(name, df) \<in> set dir
            \<and> (name = ''SPX as of'' @ mid @ ''.xlsx'' \<or> name = ''UKX as of'' @ mid @ ''.xlsx'')
            \<and> row \<in> set (csv_rows df) \<and> i < length (csv_columns df)
            \<and> strip (csv_columns df ! i) = ''Ticker'' \<and> row_cell row i \<noteq> Missing"
    then show "\<exists>r m pre post. r \<in> set out
                 \<and> sr_ticker r = strip (py_str (row_cell row i))
                 \<and> sr_index_id r = take 3 name
                 \<and> name = pre @ m @ post \<and> is_year m
                 \<and> (\<forall>pre' m' post'. name = pre' @ m' @ post' \<and> is_year m'
                       \<longrightarrow> length pre \<le> length pre')
                 \<and> sr_as_of_date r = m @ ''-12-31''" by (rule c)
  qed
qed

lemma demo_combine:
  "combine_memb demo_dir =
     Inr [\<lparr>sr_index_id = ''SPX'', sr_as_of_date = ''2024-12-31'', sr_ticker = ''AAPL UW'',
            sr_name = Missing, sr_weight = Num ''7.1'', sr_shares = Missing, sr_price = Missing\<rparr>,
          \<lparr>sr_index_id = ''UKX'', sr_as_of_date = ''2005-12-31'', sr_ticker = ''VOD LN'',
            sr_name = Str ''Vodafone'', sr_weight = Missing, sr_shares = Missing,
            sr_price = Missing\<rparr>]"
  by code_simp

theorem combine_memb_rows_witness:
  "combine_memb demo_dir =
     Inr [\<lparr>sr_index_id = ''SPX'', sr_as_of_date = ''2024-12-31'', sr_ticker = ''AAPL UW'',
            sr_name = Missing, sr_weight = Num ''7.1'', sr_shares = Missing, sr_price = Missing\<rparr>,
          \<lparr>sr_index_id = ''UKX'', sr_as_of_date = ''2005-12-31'', sr_ticker = ''VOD LN'',
            sr_name = Str ''Vodafone'', sr_weight = Missing, sr_shares = Missing,
            sr_price = Missing\<rparr>]
   \<and> distinct (map snapshot_key
        [\<lparr>sr_index_id = ''SPX'', sr_as_of_date = ''2024-12-31'', sr_ticker = ''AAPL UW'',
            sr_name = Missing, sr_weight = Num ''7.1'', sr_shares = Missing, sr_price = Missing\<rparr>,
          \<lparr>sr_index_id = ''UKX'', sr_as_of_date = ''2005-12-31'', sr_ticker = ''VOD LN'',
            sr_name = Str ''Vodafone'', sr_weight = Missing, sr_shares = Missing,
            sr_price = Missing\<rparr>])"
  using combine_memb_rows [OF demo_combine] demo_combine by blast

subsection \<open>What an exception ends\<close>

lemma run_steps_fails:
  assumes "run_steps pre s = (s', None)" "step s' = Inl e"
  shows "run_steps (pre @ step # post) s = (s', Some e)"
  using assms
proof (induction pre arbitrary: s)
  case Nil
  then show ?case by simp
next
  case (Cons f pre)
  then show ?case by (cases "f s") auto
qed

lemma collect_rows_fails:
  assumes "collect_rows pre = Inr rows" "file_rows f = Inl e"
  shows "collect_rows (pre @ f # post) = Inl e"
  using assms
proof (induction pre arbitrary: rows)
  case Nil
  then show ?case by simp
next
  case (Cons g pre)
  then show ?case by (auto simp: bind_err_Inr_iff)
qed

lemma file_rows_no_year:
  "find_year name = None
     \<Longrightarrow> file_rows (name, df)
           = Inl (ValueError (Msg (''Cannot find year in filename: '' @ name)))"
  by (simp add: file_rows_def)

lemma file_rows_no_ticker:
  "find_year name = Some m \<Longrightarrow> ''Ticker'' \<notin> set (map strip (csv_columns df))
     \<Longrightarrow> file_rows (name, df)
           = Inl (ValueError (MsgColumns (name @ '': missing 'Ticker' column, got columns='')
                    (map strip (csv_columns df))))"
  by (simp add: file_rows_def Let_def)

lemma fix_dates_step_disk:
  "fix_dates_step (f, p) (d, printed)
     = (case d f of
          None \<Rightarrow> (d, printed @ [FileNotFoundError f])
        | Some ws \<Rightarrow> (d(f \<mapsto> fix_sheet p ws), printed))"
  by (simp add: fix_dates_step_def fix_date_column_def split: option.splits)

lemma fix_dates_fold:
  assumes "distinct (map fst fl)"
  shows "fst (fold fix_dates_step fl (disk, printed)) name
     = (case map_of fl name of
          None \<Rightarrow> disk name
        | Some p \<Rightarrow> map_option (fix_sheet p) (disk name))"
  using assms
proof (induction fl arbitrary: disk printed)
  case Nil
  then show ?case by simp
next
  case (Cons fp fl)
  obtain f p where fp: "fp = (f, p)" by (cases fp)
  have nf: "map_of fl f = None" using Cons.prems fp by (simp add: map_of_eq_None_iff)
  have d: "distinct (map fst fl)" using Cons.prems by simp
  have step: "fold fix_dates_step (fp # fl) (disk, printed)
      = fold fix_dates_step fl (fix_dates_step (f, p) (disk, printed))"
    by (simp add: fp)
  show ?case
  proof (cases "disk f")
    case None
    have "fst (fold fix_dates_step (fp # fl) (disk, printed)) name
        = fst (fold fix_dates_step fl (disk, printed @ [FileNotFoundError f])) name"
      unfolding step fix_dates_step_disk by (simp add: None)
    also have "\<dots> = (case map_of fl name of
          None \<Rightarrow> disk name
        | Some p \<Rightarrow> map_option (fix_sheet p) (disk name))"
      by (rule Cons.IH [OF d])
    also have "\<dots> = (case map_of (fp # fl) name of
          None \<Rightarrow> disk name
        | Some p \<Rightarrow> map_option (fix_sheet p) (disk name))"
      using nf None by (simp add: fp)
    finally show ?thesis .
  next
    case (Some ws)
    let ?d = "disk(f \<mapsto> fix_sheet p ws)"
    have "fst (fold fix_dates_step (fp # fl) (disk, printed)) name
        = fst (fold fix_dates_step fl (?d, printed)) name"
      unfolding step fix_dates_step_disk by (simp add: Some)
    also have "\<dots> = (case map_of fl name of
          None \<Rightarrow> ?d name
        | Some p \<Rightarrow> map_option (fix_sheet p) (?d name))"
      by (rule Cons.IH [OF d])
    also have "\<dots> = (case map_of (fp # fl) name of
          None \<Rightarrow> disk name
        | Some p \<Rightarrow> map_option (fix_sheet p) (disk name))"
      using nf Some by (auto simp: fp split: option.splits)
    finally show ?thesis .
  qed
qed

lemma fix_dates_main_each:
  assumes "(filename, period_type) \<in> set fix_dates_files"
  shows "fst (fix_dates_main disk) filename = map_option (fix_sheet period_type) (disk filename)"
proof -
  have d: "distinct (map fst fix_dates_files)" by (simp add: fix_dates_files_def)
  then have "map_of fix_dates_files filename = Some period_type"
    using assms by (rule map_of_is_SomeI)
  then show ?thesis
    unfolding fix_dates_main_def using fix_dates_fold [OF d, of disk "[]" filename] by simp
qed

lemma demo_fix_dates:
  "snd (fix_dates_main demo_disk)
     = [FileNotFoundError ''financials_annual.xlsx'',
        FileNotFoundError ''financials_fiscal_annual.xlsx'',
        FileNotFoundError ''financials_fiscal_quarterly.xlsx'']"
  "sheet_cell (fst (fix_dates_main demo_disk)) ''financials_quarterly.xlsx'' (7, 1)
     = Some (XDate 2005 3 31)"
  "sheet_cell demo_disk ''financials_quarterly.xlsx'' (7, 1) = Some XEmpty"
  by code_simp+

lemma demo_main:
  "snd (main demo_float demo_keys Inr demo_files empty_db)
     = Some (FileNotFoundError ''index_membership_snapshot.csv'')"
  "map co_ticker (companies (fst (main demo_float demo_keys Inr demo_files empty_db)))
     = [''AAPL US Equity'', ''VOD LN Equity'']"
  by code_simp+

lemma missing_file_raises:
  "csv_files fs ''company_master.csv'' = None
     \<Longrightarrow> import_companies pf fs db = Inl (FileNotFoundError ''company_master.csv'')"
  "csv_files fs ''index_membership_snapshot.csv'' = None
     \<Longrightarrow> import_index_membership pf fs t db = Inl (FileNotFoundError ''index_membership_snapshot.csv'')"
  "xlsx_files fs ''price_weekly.xlsx.xlsx'' = None
     \<Longrightarrow> import_prices_weekly pf pkey fs st = Inl (FileNotFoundError ''price_weekly.xlsx.xlsx'')"
  "xlsx_files fs filename = None
     \<Longrightarrow> import_financials pf fs filename period_type st = Inl (FileNotFoundError filename)"
  "xlsx_files fs ''5 countries 10y yield and policy rate.xlsx'' = None
     \<Longrightarrow> import_interest_rates pf rkey fs db
           = Inl (FileNotFoundError ''5 countries 10y yield and policy rate.xlsx'')"
  by (simp_all add: import_companies_def import_index_membership_def import_prices_weekly_def
        import_financials_def import_interest_rates_def read_csv_def read_excel_def)

text \<open>
  C5 as stated fails twice.  \<open>fix_dates.py\<close> does not abort: with only the quarterly
  file on the disk, the three missing files are reported and the quarterly file, which
  comes second, is still rewritten.  And a failed run of \<open>etl_import.py\<close> leaves output:
  with \<open>index_membership_snapshot.csv\<close> missing, \<open>main\<close> catches the error and the
  companies that were loaded before remain in the database.
\<close>

theorem fatal_error_aborts_counterexample:
  "snd (fix_dates_main demo_disk)
     = [FileNotFoundError ''financials_annual.xlsx'',
        FileNotFoundError ''financials_fiscal_annual.xlsx'',
        FileNotFoundError ''financials_fiscal_quarterly.xlsx'']
   \<and> sheet_cell demo_disk ''financials_quarterly.xlsx'' (7, 1) = Some XEmpty
   \<and> sheet_cell (fst (fix_dates_main demo_disk)) ''financials_quarterly.xlsx'' (7, 1)
       = Some (XDate 2005 3 31)
   \<and> companies empty_db = []
   \<and> snd (main demo_float demo_keys Inr demo_files empty_db)
       = Some (FileNotFoundError ''index_membership_snapshot.csv'')
   \<and> map co_ticker (companies (fst (main demo_float demo_keys Inr demo_files empty_db)))
       = [''AAPL US Equity'', ''VOD LN Equity'']"
  using demo_fix_dates demo_main by (simp add: empty_db_def)

text \<open>
  C5, amended.  In \<open>combine_memb.py\<close> a file name without a year, or an export without a
  \<open>Ticker\<close> column, raises \<open>ValueError\<close>; the script ends there, whatever files follow,
  and writes nothing.  In \<open>etl_import.py\<close> a loader whose input file is missing raises,
  and an exception in a loader ends the run: no later loader runs, \<open>main\<close> catches the
  exception and returns, and the database keeps what the loaders before had committed.  In
  \<open>fix_dates.py\<close> an error on one file is caught and printed, and every one of the four
  files that exists is still rewritten.
\<close>

theorem fatal_errors:
  "(selected_files dir = pre @ f # post \<and> collect_rows pre = Inr rows \<and> file_rows f = Inl e
      \<longrightarrow> combine_memb dir = Inl e)
   \<and> (find_year name = None \<or> ''Ticker'' \<notin> set (map strip (csv_columns df))
      \<longrightarrow> (\<exists>msg. file_rows (name, df) = Inl (ValueError msg)))
   \<and> (csv_files fs ''company_master.csv'' = None
      \<longrightarrow> import_companies pf fs db = Inl (FileNotFoundError ''company_master.csv''))
   \<and> (csv_files fs ''index_membership_snapshot.csv'' = None
      \<longrightarrow> import_index_membership pf fs t db
            = Inl (FileNotFoundError ''index_membership_snapshot.csv''))
   \<and> (xlsx_files fs ''price_weekly.xlsx.xlsx'' = None
      \<longrightarrow> import_prices_weekly pf (price_key keys) fs (db, t)
            = Inl (FileNotFoundError ''price_weekly.xlsx.xlsx''))
   \<and> (xlsx_files fs ''financials_annual.xlsx'' = None
      \<longrightarrow> import_financials pf fs ''financials_annual.xlsx'' ''ANNUAL'' (db, t)
            = Inl (FileNotFoundError ''financials_annual.xlsx''))
   \<and> (xlsx_files fs ''5 countries 10y yield and policy rate.xlsx'' = None
      \<longrightarrow> import_interest_rates pf (rate_key keys) fs db
            = Inl (FileNotFoundError ''5 countries 10y yield and policy rate.xlsx''))
   \<and> (main_steps pf keys create fs = before @ step # after
        \<and> run_steps before (db, Map.empty) = (st, None) \<and> step st = Inl e'
      \<longrightarrow> main pf keys create fs db = (fst st, Some e'))
   \<and> ((filename, period_type) \<in> set fix_dates_files
      \<longrightarrow> fst (fix_dates_main disk) filename
            = map_option (fix_sheet period_type) (disk filename))"
proof -
  have a: "selected_files dir = pre @ f # post \<and> collect_rows pre = Inr rows
      \<and> file_rows f = Inl e \<longrightarrow> combine_memb dir = Inl e"
    using collect_rows_fails [of pre rows f e post] by (auto simp: combine_memb_def)
  have b: "find_year name = None \<or> ''Ticker'' \<notin> set (map strip (csv_columns df))
      \<longrightarrow> (\<exists>msg. file_rows (name, df) = Inl (ValueError msg))"
    using file_rows_no_year [of name df] file_rows_no_ticker [of name _ df]
    by (cases "find_year name") auto
  have c: "main_steps pf keys create fs = before @ step # after
        \<and> run_steps before (db, Map.empty) = (st, None) \<and> step st = Inl e'
      \<longrightarrow> main pf keys create fs db = (fst st, Some e')"
    using run_steps_fails [of before "(db, Map.empty)" st step e' after]
    by (auto simp: main_def)
  show ?thesis
    by (intro conjI a b c impI missing_file_raises fix_dates_main_each)
qed

lemma demo_no_year:
  "selected_files demo_dir_no_year = [] @ hd demo_dir_no_year # []"
  "file_rows (hd demo_dir_no_year)
     = Inl (ValueError (Msg ''Cannot find year in filename: SPX as of today.xlsx''))"
  by code_simp+

lemma demo_quarterly:
  "(''financials_quarterly.xlsx'', ''QUARTERLY'') \<in> set fix_dates_files"
  "demo_disk ''financials_quarterly.xlsx'' = Some demo_sheet"
  "fix_sheet ''QUARTERLY'' demo_sheet (7, 1) = XDate 2005 3 31"
  by (simp add: fix_dates_files_def, simp add: demo_disk_def, code_simp)

theorem fatal_errors_witness:
  "combine_memb demo_dir_no_year
     = Inl (ValueError (Msg ''Cannot find year in filename: SPX as of today.xlsx''))
   \<and> snd (main demo_float demo_keys Inr demo_files empty_db)
       = Some (FileNotFoundError ''index_membership_snapshot.csv'')
   \<and> sheet_cell (fst (fix_dates_main demo_disk)) ''financials_quarterly.xlsx'' (7, 1)
       = Some (XDate 2005 3 31)"
proof -
  let ?e = "ValueError (Msg ''Cannot find year in filename: SPX as of today.xlsx'')"
  let ?m = "FileNotFoundError ''index_membership_snapshot.csv''"
  obtain db' t where run: "import_companies demo_float demo_files empty_db = Inr (db', t)"
    using demo_import_runs by blast
  let ?before = "[on_db Inr, (\<lambda>st. import_companies demo_float demo_files (fst st))]
      :: (nat database \<times> (string \<rightharpoonup> int) \<Rightarrow> error + (nat database \<times> (string \<rightharpoonup> int))) list"
  let ?step = "\<lambda>st. on_db (import_index_membership demo_float demo_files (snd st)) st"
  have nf: "csv_files demo_files ''index_membership_snapshot.csv'' = None"
    "csv_files demo_files ''company_master.csv'' \<noteq> None"
    "xlsx_files demo_files ''price_weekly.xlsx.xlsx'' = None"
    "xlsx_files demo_files ''financials_annual.xlsx'' = None"
    "xlsx_files demo_files ''5 countries 10y yield and policy rate.xlsx'' = None"
    by (simp_all add: demo_files_def)
  have h1: "main_steps demo_float demo_keys Inr demo_files
      = ?before @ ?step # drop 3 (main_steps demo_float demo_keys Inr demo_files)"
    by (simp add: main_steps_def)
  have h2: "run_steps ?before (empty_db, Map.empty) = ((db', t), None)"
    by (simp add: on_db_def run)
  have h3: "?step (db', t) = Inl ?m"
    by (simp add: on_db_def missing_file_raises(2) [OF nf(1)])
  note inst = fatal_errors [of demo_dir_no_year "[]" "hd demo_dir_no_year" "[]" "[]" ?e
      "''SPX as of today.xlsx''" "snd (hd demo_dir_no_year)" demo_files demo_float empty_db
      t demo_keys Inr ?before ?step
      "drop 3 (main_steps demo_float demo_keys Inr demo_files)" "(db', t)" ?m
      "''financials_quarterly.xlsx''" "''QUARTERLY''" demo_disk]
  have c1: "combine_memb demo_dir_no_year = Inl ?e"
    using inst demo_no_year by simp
  have c2: "main demo_float demo_keys Inr demo_files empty_db = (db', Some ?m)"
    using inst h1 h2 h3 by simp
  have c3: "fst (fix_dates_main demo_disk) ''financials_quarterly.xlsx''
      = Some (fix_sheet ''QUARTERLY'' demo_sheet)"
    using inst demo_quarterly(1,2) by simp
  show ?thesis using c1 c2 c3 demo_quarterly(3) by (simp add: sheet_cell_def)
qed

subsection \<open>Statements on a table with a unique key\<close>

lemma keys_insert_or_ignore:
  "set (map key (insert_or_ignore key r t)) = insert (key r) (set (map key t))"
  by (auto simp: insert_or_ignore_def)

lemma keys_fold_ignore:
  "set (map key (fold (insert_or_ignore key) rs t)) = set (map key rs) \<union> set (map key t)"
proof (induction rs arbitrary: t)
  case Nil
  then show ?case by simp
next
  case (Cons r rs)
  show ?case
    unfolding fold_simps comp_apply Cons.IH keys_insert_or_ignore by auto
qed

lemma fold_ignore_present:
  "set (map key rs) \<subseteq> set (map key t) \<Longrightarrow> fold (insert_or_ignore key) rs t = t"
  by (induction rs) (auto simp: insert_or_ignore_def)

lemma fold_ignore_idem:
  "fold (insert_or_ignore key) rs (fold (insert_or_ignore key) rs t)
     = fold (insert_or_ignore key) rs t"
  by (rule fold_ignore_present) (simp add: keys_fold_ignore del: set_map)

lemma distinct_insert_or_ignore:
  "distinct (map key t) \<Longrightarrow> distinct (map key (insert_or_ignore key r t))"
  by (auto simp: insert_or_ignore_def)

lemma distinct_fold_ignore:
  "distinct (map key t) \<Longrightarrow> distinct (map key (fold (insert_or_ignore key) rs t))"
  by (induction rs arbitrary: t) (simp_all add: distinct_insert_or_ignore)

text \<open>The statements on \<open>index_membership\<close>: those of the rows that have an index.\<close>

lemma fold_insert_membership:
  "fold insert_membership rs t
     = fold (insert_or_ignore membership_key) (filter (\<lambda>r. \<not> isna (im_index_id r)) rs) t"
  by (induction rs arbitrary: t) (simp_all add: insert_membership_def)

lemma fold_membership_idem:
  "fold insert_membership rs (fold insert_membership rs t) = fold insert_membership rs t"
  unfolding fold_insert_membership by (rule fold_ignore_idem)

lemma distinct_fold_membership:
  "distinct (map membership_key t) \<Longrightarrow> distinct (map membership_key (fold insert_membership rs t))"
  unfolding fold_insert_membership by (rule distinct_fold_ignore)

lemma distinct_insert_or_replace:
  "distinct (map key t) \<Longrightarrow> distinct (map key (insert_or_replace key r t))"
  by (auto simp: insert_or_replace_def distinct_map_filter)

lemma distinct_fold_replace:
  "distinct (map key t) \<Longrightarrow> distinct (map key (fold (insert_or_replace key) rs t))"
  by (induction rs arbitrary: t) (simp_all add: distinct_insert_or_replace)

lemma set_last_per_key: "set (last_per_key key rs) \<subseteq> set rs"
  by (induction rs) auto

lemma fold_replace_eq:
  "fold (insert_or_replace key) rs t
     = filter (\<lambda>x. key x \<notin> set (map key rs)) t @ last_per_key key rs"
proof (induction rs arbitrary: t)
  case Nil
  then show ?case by simp
next
  case (Cons r rs)
  have "fold (insert_or_replace key) (r # rs) t
      = filter (\<lambda>x. key x \<notin> set (map key rs)) (filter (\<lambda>x. key x \<noteq> key r) t @ [r])
        @ last_per_key key rs"
    by (simp add: Cons.IH insert_or_replace_def)
  also have "\<dots> = filter (\<lambda>x. key x \<notin> set (map key (r # rs))) t @ last_per_key key (r # rs)"
    by (auto intro: filter_cong)
  finally show ?case .
qed

lemma fold_replace_idem:
  "fold (insert_or_replace key) rs (fold (insert_or_replace key) rs t)
     = fold (insert_or_replace key) rs t"
proof -
  have "filter (\<lambda>x. key x \<notin> set (map key rs)) (last_per_key key rs) = []"
    using set_last_per_key [of key rs] by (auto simp: filter_empty_conv)
  then show ?thesis by (simp add: fold_replace_eq)
qed

subsection \<open>Steps that are oblivious of their table\<close>

lemma oblivious_Inl: "oblivious ins put rest (\<lambda>s. Inl e)"
  by (auto simp: oblivious_def)

lemma oblivious_bind:
  assumes put: "\<And>t t' s. put t (put t' s) = put t s"
    and l1: "oblivious ins put rest L1" and l2: "oblivious ins put rest L2"
  shows "oblivious ins put rest (\<lambda>s. bind_err (L1 s) L2)"
  unfolding oblivious_def
proof
  fix s
  from l1 consider e where "\<forall>t. L1 (put t s) = Inl e"
    | rs s1 where "rest s1 = rest s" "\<forall>t. L1 (put t s) = Inr (put (fold ins rs t) s1)"
    unfolding oblivious_def by blast
  then show "(\<exists>e. \<forall>t. bind_err (L1 (put t s)) L2 = Inl e)
        \<or> (\<exists>rs s'. rest s' = rest s
               \<and> (\<forall>t. bind_err (L1 (put t s)) L2 = Inr (put (fold ins rs t) s')))"
  proof cases
    case 1
    then show ?thesis by auto
  next
    case 2
    from l2 consider e where "\<forall>t. L2 (put t s1) = Inl e"
      | rs2 s2 where "rest s2 = rest s1" "\<forall>t. L2 (put t s1) = Inr (put (fold ins rs2 t) s2)"
      unfolding oblivious_def by blast
    then show ?thesis
    proof cases
      case 1
      then have "\<forall>t. bind_err (L1 (put t s)) L2 = Inl e" using 2(2) by simp
      then show ?thesis by blast
    next
      case b: 2
      have "\<forall>t. bind_err (L1 (put t s)) L2 = Inr (put (fold ins (rs @ rs2) t) s2)"
        using 2(2) b(2) by simp
      moreover have "rest s2 = rest s" using 2(1) b(1) by simp
      ultimately show ?thesis by blast
    qed
  qed
qed

lemma oblivious_for_each:
  assumes put: "\<And>t t' s. put t (put t' s) = put t s"
    and body: "\<And>x. oblivious ins put rest (body x)"
  shows "oblivious ins put rest (for_each body xs)"
proof (induction xs)
  case Nil
  show ?case unfolding oblivious_def
  proof
    fix s
    have "\<forall>t. for_each body [] (put t s) = Inr (put (fold ins [] t) s)" by simp
    then show "(\<exists>e. \<forall>t. for_each body [] (put t s) = Inl e)
        \<or> (\<exists>rs s'. rest s' = rest s
               \<and> (\<forall>t. for_each body [] (put t s) = Inr (put (fold ins rs t) s')))"
      by blast
  qed
next
  case (Cons x xs)
  have "oblivious ins put rest (\<lambda>s. bind_err (body x s) (for_each body xs))"
    by (rule oblivious_bind [OF put body Cons.IH])
  then show ?case by simp
qed

lemma oblivious_leaf:
  assumes "\<And>t s. L (put t s) = Inr (put (fold ins rs t) (k s))" "\<And>s. rest (k s) = rest s"
  shows "oblivious ins put rest L"
  unfolding oblivious_def using assms by blast

lemma oblivious_bind_read:
  assumes "\<And>t s. c (put t s) = c s" "\<And>v. oblivious ins put rest (F v)"
  shows "oblivious ins put rest (\<lambda>s. bind_err (c s) (\<lambda>v. F v s))"
  unfolding oblivious_def
proof
  fix s
  show "(\<exists>e. \<forall>t. bind_err (c (put t s)) (\<lambda>v. F v (put t s)) = Inl e)
        \<or> (\<exists>rs s'. rest s' = rest s
               \<and> (\<forall>t. bind_err (c (put t s)) (\<lambda>v. F v (put t s)) = Inr (put (fold ins rs t) s')))"
  proof (cases "c s")
    case (Inl e)
    then show ?thesis by (simp add: assms(1))
  next
    case (Inr v)
    then show ?thesis using assms(2) [of v] by (simp add: assms(1) oblivious_def)
  qed
qed

lemma oblivious_option_read:
  assumes "\<And>t s. c (put t s) = c s" "oblivious ins put rest A"
    "\<And>v. oblivious ins put rest (B v)"
  shows "oblivious ins put rest (\<lambda>s. case c s of None \<Rightarrow> A s | Some v \<Rightarrow> B v s)"
  unfolding oblivious_def
proof
  fix s
  show "(\<exists>e. \<forall>t. (case c (put t s) of None \<Rightarrow> A (put t s) | Some v \<Rightarrow> B v (put t s)) = Inl e)
        \<or> (\<exists>rs s'. rest s' = rest s
               \<and> (\<forall>t. (case c (put t s) of None \<Rightarrow> A (put t s) | Some v \<Rightarrow> B v (put t s))
                     = Inr (put (fold ins rs t) s')))"
  proof (cases "c s")
    case None
    then show ?thesis using assms(2) by (simp add: assms(1) oblivious_def)
  next
    case (Some v)
    then show ?thesis using assms(3) [of v] by (simp add: assms(1) oblivious_def)
  qed
qed

lemma oblivious_if_read:
  assumes "\<And>t s. c (put t s) = c s" "oblivious ins put rest A" "oblivious ins put rest B"
  shows "oblivious ins put rest (\<lambda>s. if c s then A s else B s)"
  unfolding oblivious_def
proof
  fix s
  show "(\<exists>e. \<forall>t. (if c (put t s) then A (put t s) else B (put t s)) = Inl e)
        \<or> (\<exists>rs s'. rest s' = rest s
               \<and> (\<forall>t. (if c (put t s) then A (put t s) else B (put t s))
                     = Inr (put (fold ins rs t) s')))"
  proof (cases "c s")
    case True
    then show ?thesis using assms(2) by (simp add: assms(1) oblivious_def)
  next
    case False
    then show ?thesis using assms(3) by (simp add: assms(1) oblivious_def)
  qed
qed

lemmas oblivious_rules = oblivious_bind_read oblivious_option_read oblivious_if_read oblivious_Inl

text \<open>import\_index\_membership\<close>

lemma membership_skip:
  "oblivious insert_membership (\<lambda>t db. db\<lparr>index_membership := t\<rparr>)
     (\<lambda>db. db\<lparr>index_membership := []\<rparr>) (\<lambda>db. Inr db)"
  by (rule oblivious_leaf [where rs = "[]" and k = "\<lambda>s. s"]) simp_all

lemma membership_insert:
  "oblivious insert_membership (\<lambda>t db. db\<lparr>index_membership := t\<rparr>)
     (\<lambda>db. db\<lparr>index_membership := []\<rparr>)
     (\<lambda>db. Inr (db\<lparr>index_membership :=
                  insert_membership r (index_membership db)\<rparr>))"
  by (rule oblivious_leaf [where rs = "[r]" and k = "\<lambda>s. s"]) simp_all

lemma membership_step_oblivious:
  "oblivious insert_membership (\<lambda>t db. db\<lparr>index_membership := t\<rparr>)
     (\<lambda>db. db\<lparr>index_membership := []\<rparr>) (membership_step pf ticker_to_id cols row)"
  unfolding membership_step_def
  by (intro oblivious_rules membership_skip membership_insert) simp_all

lemma import_index_membership_oblivious:
  "oblivious insert_membership (\<lambda>t db. db\<lparr>index_membership := t\<rparr>)
     (\<lambda>db. db\<lparr>index_membership := []\<rparr>) (import_index_membership pf fs ticker_to_id)"
  unfolding import_index_membership_def
  by (intro oblivious_rules oblivious_for_each membership_step_oblivious) simp_all

text \<open>import\_prices\_weekly\<close>

lemma prices_skip:
  "oblivious (insert_or_ignore key) (\<lambda>t st. ((fst st)\<lparr>prices_weekly := t\<rparr>, snd st))
     (\<lambda>st. (fst st)\<lparr>prices_weekly := []\<rparr>) (\<lambda>st. Inr (fst st, d))"
  "oblivious (insert_or_ignore key) (\<lambda>t st. ((fst st)\<lparr>prices_weekly := t\<rparr>, snd st))
     (\<lambda>st. (fst st)\<lparr>prices_weekly := []\<rparr>) (\<lambda>st. Inr (fst st, snd st))"
  "oblivious (insert_or_ignore key) (\<lambda>t st. ((fst st)\<lparr>prices_weekly := t\<rparr>, snd st))
     (\<lambda>st. (fst st)\<lparr>prices_weekly := []\<rparr>) (\<lambda>st. Inr st)"
  by (rule oblivious_leaf [where rs = "[]" and k = "\<lambda>s. (fst s, d)"], simp_all)
     (rule oblivious_leaf [where rs = "[]" and k = "\<lambda>s. s"], simp_all)+

lemma prices_insert:
  "oblivious (insert_or_ignore key) (\<lambda>t st. ((fst st)\<lparr>prices_weekly := t\<rparr>, snd st))
     (\<lambda>st. (fst st)\<lparr>prices_weekly := []\<rparr>)
     (\<lambda>st. Inr ((fst st)\<lparr>prices_weekly :=
                   insert_or_ignore key r (prices_weekly (fst st))\<rparr>, d))"
  by (rule oblivious_leaf [where rs = "[r]" and k = "\<lambda>s. (fst s, d)"]) simp_all

lemma price_ticker_step_oblivious:
  "oblivious (insert_or_ignore key) (\<lambda>t st. ((fst st)\<lparr>prices_weekly := t\<rparr>, snd st))
     (\<lambda>st. (fst st)\<lparr>prices_weekly := []\<rparr>)
     (price_ticker_step pf key df row_idx price_date entry)"
  unfolding price_ticker_step_def case_prod_unfold
  by (intro oblivious_rules prices_skip prices_insert) simp_all

lemma price_row_step_oblivious:
  "oblivious (insert_or_ignore key) (\<lambda>t st. ((fst st)\<lparr>prices_weekly := t\<rparr>, snd st))
     (\<lambda>st. (fst st)\<lparr>prices_weekly := []\<rparr>)
     (price_row_step pf key df ticker_cols row_idx)"
  unfolding price_row_step_def
  by (intro oblivious_rules oblivious_for_each prices_skip price_ticker_step_oblivious) simp_all

lemma import_prices_weekly_oblivious:
  "oblivious (insert_or_ignore key) (\<lambda>t st. ((fst st)\<lparr>prices_weekly := t\<rparr>, snd st))
     (\<lambda>st. (fst st)\<lparr>prices_weekly := []\<rparr>) (import_prices_weekly pf key fs)"
  unfolding import_prices_weekly_def
  by (intro oblivious_rules oblivious_for_each price_row_step_oblivious) simp_all

text \<open>import\_financials\<close>

lemma financials_skip:
  "oblivious (insert_or_replace financials_key) (\<lambda>t st. ((fst st)\<lparr>financials := t\<rparr>, snd st))
     (\<lambda>st. (fst st)\<lparr>financials := []\<rparr>) (\<lambda>st. Inr (fst st, d))"
  "oblivious (insert_or_replace financials_key) (\<lambda>t st. ((fst st)\<lparr>financials := t\<rparr>, snd st))
     (\<lambda>st. (fst st)\<lparr>financials := []\<rparr>) (\<lambda>st. Inr (fst st, snd st))"
  "oblivious (insert_or_replace financials_key) (\<lambda>t st. ((fst st)\<lparr>financials := t\<rparr>, snd st))
     (\<lambda>st. (fst st)\<lparr>financials := []\<rparr>) (\<lambda>st. Inr st)"
  by (rule oblivious_leaf [where rs = "[]" and k = "\<lambda>s. (fst s, d)"], simp_all)
     (rule oblivious_leaf [where rs = "[]" and k = "\<lambda>s. s"], simp_all)+

lemma financials_insert:
  "oblivious (insert_or_replace financials_key) (\<lambda>t st. ((fst st)\<lparr>financials := t\<rparr>, snd st))
     (\<lambda>st. (fst st)\<lparr>financials := []\<rparr>)
     (\<lambda>st. Inr ((fst st)\<lparr>financials :=
                   insert_or_replace financials_key r (financials (fst st))\<rparr>, d))"
  by (rule oblivious_leaf [where rs = "[r]" and k = "\<lambda>s. (fst s, d)"]) simp_all

lemma financials_ticker_step_oblivious:
  "oblivious (insert_or_replace financials_key) (\<lambda>t st. ((fst st)\<lparr>financials := t\<rparr>, snd st))
     (\<lambda>st. (fst st)\<lparr>financials := []\<rparr>)
     (financials_ticker_step pf df period_type row_idx period_end_date entry)"
  unfolding financials_ticker_step_def case_prod_unfold
  by (intro oblivious_rules financials_skip financials_insert) simp_all

lemma financials_row_step_oblivious:
  "oblivious (insert_or_replace financials_key) (\<lambda>t st. ((fst st)\<lparr>financials := t\<rparr>, snd st))
     (\<lambda>st. (fst st)\<lparr>financials := []\<rparr>)
     (financials_row_step pf df period_type ticker_fields row_idx)"
  unfolding financials_row_step_def
  by (intro oblivious_rules oblivious_for_each financials_skip financials_ticker_step_oblivious)
     simp_all

lemma import_financials_oblivious:
  "oblivious (insert_or_replace financials_key) (\<lambda>t st. ((fst st)\<lparr>financials := t\<rparr>, snd st))
     (\<lambda>st. (fst st)\<lparr>financials := []\<rparr>) (import_financials pf fs filename period_type)"
  unfolding import_financials_def
  by (intro oblivious_rules oblivious_for_each financials_row_step_oblivious) simp_all

text \<open>import\_macro\<close>

lemma macro_skip:
  "oblivious (insert_or_ignore key) (\<lambda>t db. db\<lparr>macro_indicators := t\<rparr>)
     (\<lambda>db. db\<lparr>macro_indicators := []\<rparr>) (\<lambda>db. Inr db)"
  by (rule oblivious_leaf [where rs = "[]" and k = "\<lambda>s. s"]) simp_all

lemma macro_insert:
  "oblivious (insert_or_ignore key) (\<lambda>t db. db\<lparr>macro_indicators := t\<rparr>)
     (\<lambda>db. db\<lparr>macro_indicators := []\<rparr>)
     (\<lambda>db. Inr (db\<lparr>macro_indicators := insert_or_ignore key r (macro_indicators db)\<rparr>))"
  by (rule oblivious_leaf [where rs = "[r]" and k = "\<lambda>s. s"]) simp_all

lemma macro_col_step_oblivious:
  "oblivious (insert_or_ignore key) (\<lambda>t db. db\<lparr>macro_indicators := t\<rparr>)
     (\<lambda>db. db\<lparr>macro_indicators := []\<rparr>)
     (macro_col_step pf key df country date_map row_idx indicator_name bloomberg_ticker col)"
  unfolding macro_col_step_def Let_def
  by (intro oblivious_rules macro_skip macro_insert) simp_all

lemma macro_row_step_oblivious:
  "oblivious (insert_or_ignore key) (\<lambda>t db. db\<lparr>macro_indicators := t\<rparr>)
     (\<lambda>db. db\<lparr>macro_indicators := []\<rparr>)
     (macro_row_step pf key df country date_map row_idx)"
  unfolding macro_row_step_def
  by (intro oblivious_rules oblivious_for_each macro_skip macro_col_step_oblivious) simp_all

lemma import_macro_oblivious:
  "oblivious (insert_or_ignore key) (\<lambda>t db. db\<lparr>macro_indicators := t\<rparr>)
     (\<lambda>db. db\<lparr>macro_indicators := []\<rparr>) (import_macro pf key fs filename country)"
  unfolding import_macro_def
  by (intro oblivious_rules oblivious_for_each macro_row_step_oblivious) simp_all

text \<open>import\_interest\_rates\<close>

lemma rates_skip:
  "oblivious (insert_or_ignore key) (\<lambda>t db. db\<lparr>interest_rates := t\<rparr>)
     (\<lambda>db. db\<lparr>interest_rates := []\<rparr>) (\<lambda>db. Inr db)"
  by (rule oblivious_leaf [where rs = "[]" and k = "\<lambda>s. s"]) simp_all

lemma rates_insert:
  "oblivious (insert_or_ignore key) (\<lambda>t db. db\<lparr>interest_rates := t\<rparr>)
     (\<lambda>db. db\<lparr>interest_rates := []\<rparr>)
     (\<lambda>db. Inr (db\<lparr>interest_rates := insert_or_ignore key r (interest_rates db)\<rparr>))"
  by (rule oblivious_leaf [where rs = "[r]" and k = "\<lambda>s. s"]) simp_all

lemma rate_col_step_oblivious:
  "oblivious (insert_or_ignore key) (\<lambda>t db. db\<lparr>interest_rates := t\<rparr>)
     (\<lambda>db. db\<lparr>interest_rates := []\<rparr>) (rate_col_step pf key df row_idx rate_date entry)"
  unfolding rate_col_step_def Let_def case_prod_unfold
  by (intro oblivious_rules rates_skip rates_insert) simp_all

lemma rate_row_step_oblivious:
  "oblivious (insert_or_ignore key) (\<lambda>t db. db\<lparr>interest_rates := t\<rparr>)
     (\<lambda>db. db\<lparr>interest_rates := []\<rparr>) (rate_row_step pf key df row_idx)"
  unfolding rate_row_step_def
  by (intro oblivious_rules oblivious_for_each rates_skip rate_col_step_oblivious) simp_all

lemma import_interest_rates_oblivious:
  "oblivious (insert_or_ignore key) (\<lambda>t db. db\<lparr>interest_rates := t\<rparr>)
     (\<lambda>db. db\<lparr>interest_rates := []\<rparr>) (import_interest_rates pf key fs)"
  unfolding import_interest_rates_def
  by (intro oblivious_rules oblivious_for_each rate_row_step_oblivious) simp_all

subsection \<open>Running a loader a second time\<close>

lemma oblivious_rerun:
  assumes obl: "oblivious ins put rest L"
    and idem: "\<And>rs t. fold ins rs (fold ins rs t) = fold ins rs t"
    and same: "put t0 s = s"
    and run: "L s = Inr s1"
  shows "\<exists>rs s'. rest s' = rest s \<and> s1 = put (fold ins rs t0) s'
           \<and> L (put (fold ins rs t0) s) = Inr s1"
proof -
  from obl consider e where "\<forall>t. L (put t s) = Inl e"
    | rs s' where "rest s' = rest s" "\<forall>t. L (put t s) = Inr (put (fold ins rs t) s')"
    unfolding oblivious_def by blast
  then show ?thesis
  proof cases
    case 1
    then have "L (put t0 s) = Inl e" by blast
    then show ?thesis using run same by simp
  next
    case 2
    have "L (put t0 s) = Inr (put (fold ins rs t0) s')" using 2(2) by blast
    then have s1: "s1 = put (fold ins rs t0) s'" using run same by simp
    have "L (put (fold ins rs t0) s) = Inr (put (fold ins rs (fold ins rs t0)) s')"
      using 2(2) by blast
    then have "L (put (fold ins rs t0) s) = Inr s1" using s1 idem by simp
    then show ?thesis using 2(1) s1 by blast
  qed
qed

lemma import_index_membership_rerun:
  assumes "import_index_membership pf fs d db = Inr db1"
  shows "import_index_membership pf fs d db1 = Inr db1"
    and "distinct (map membership_key (index_membership db))
           \<Longrightarrow> distinct (map membership_key (index_membership db1))"
    and "db1\<lparr>index_membership := []\<rparr> = db\<lparr>index_membership := []\<rparr>"
proof -
  from oblivious_rerun [OF import_index_membership_oblivious fold_membership_idem _ assms,
      of "index_membership db"]
  obtain rs s' where r: "s'\<lparr>index_membership := []\<rparr> = db\<lparr>index_membership := []\<rparr>"
    and s1: "db1 = s'\<lparr>index_membership := fold insert_membership rs (index_membership db)\<rparr>"
    and again: "import_index_membership pf fs d
        (db\<lparr>index_membership := fold insert_membership rs (index_membership db)\<rparr>) = Inr db1"
    by auto
  have "(s'\<lparr>index_membership := []\<rparr>)\<lparr>index_membership := t\<rparr>
      = (db\<lparr>index_membership := []\<rparr>)\<lparr>index_membership := t\<rparr>" for t
    by (simp only: r)
  then have eq: "s'\<lparr>index_membership := t\<rparr> = db\<lparr>index_membership := t\<rparr>" for t by simp
  show "import_index_membership pf fs d db1 = Inr db1" using again s1 eq by simp
  show "distinct (map membership_key (index_membership db))
           \<Longrightarrow> distinct (map membership_key (index_membership db1))"
    using s1 by (simp add: distinct_fold_membership)
  show "db1\<lparr>index_membership := []\<rparr> = db\<lparr>index_membership := []\<rparr>"
    using s1 r by simp
qed

lemma import_macro_rerun:
  assumes "import_macro pf key fs filename country db = Inr db1"
  shows "import_macro pf key fs filename country db1 = Inr db1"
proof -
  from oblivious_rerun [OF import_macro_oblivious fold_ignore_idem _ assms,
      of "macro_indicators db"]
  obtain rs s' where r: "s'\<lparr>macro_indicators := []\<rparr> = db\<lparr>macro_indicators := []\<rparr>"
    and s1: "db1 = s'\<lparr>macro_indicators :=
                fold (insert_or_ignore key) rs (macro_indicators db)\<rparr>"
    and again: "import_macro pf key fs filename country
        (db\<lparr>macro_indicators := fold (insert_or_ignore key) rs (macro_indicators db)\<rparr>)
          = Inr db1"
    by auto
  have "(s'\<lparr>macro_indicators := []\<rparr>)\<lparr>macro_indicators := t\<rparr>
      = (db\<lparr>macro_indicators := []\<rparr>)\<lparr>macro_indicators := t\<rparr>" for t
    by (simp only: r)
  then have eq: "s'\<lparr>macro_indicators := t\<rparr> = db\<lparr>macro_indicators := t\<rparr>" for t by simp
  show ?thesis using again s1 eq by simp
qed

lemma import_interest_rates_rerun:
  assumes "import_interest_rates pf key fs db = Inr db1"
  shows "import_interest_rates pf key fs db1 = Inr db1"
proof -
  from oblivious_rerun [OF import_interest_rates_oblivious fold_ignore_idem _ assms,
      of "interest_rates db"]
  obtain rs s' where r: "s'\<lparr>interest_rates := []\<rparr> = db\<lparr>interest_rates := []\<rparr>"
    and s1: "db1 = s'\<lparr>interest_rates :=
                fold (insert_or_ignore key) rs (interest_rates db)\<rparr>"
    and again: "import_interest_rates pf key fs
        (db\<lparr>interest_rates := fold (insert_or_ignore key) rs (interest_rates db)\<rparr>)
          = Inr db1"
    by auto
  have "(s'\<lparr>interest_rates := []\<rparr>)\<lparr>interest_rates := t\<rparr>
      = (db\<lparr>interest_rates := []\<rparr>)\<lparr>interest_rates := t\<rparr>" for t
    by (simp only: r)
  then have eq: "s'\<lparr>interest_rates := t\<rparr> = db\<lparr>interest_rates := t\<rparr>" for t by simp
  show ?thesis using again s1 eq by simp
qed

lemma import_prices_weekly_rerun:
  assumes "import_prices_weekly pf key fs (db, d) = Inr (db1, d1)"
  shows "import_prices_weekly pf key fs (db1, d) = Inr (db1, d1)"
proof -
  from oblivious_rerun [OF import_prices_weekly_oblivious fold_ignore_idem _ assms,
      of "prices_weekly db"]
  obtain rs s' where r: "(fst s')\<lparr>prices_weekly := []\<rparr> = db\<lparr>prices_weekly := []\<rparr>"
    and s1: "(db1, d1) = ((fst s')\<lparr>prices_weekly :=
                fold (insert_or_ignore key) rs (prices_weekly db)\<rparr>, snd s')"
    and again: "import_prices_weekly pf key fs
        (db\<lparr>prices_weekly := fold (insert_or_ignore key) rs (prices_weekly db)\<rparr>, d)
          = Inr (db1, d1)"
    by auto
  have "((fst s')\<lparr>prices_weekly := []\<rparr>)\<lparr>prices_weekly := t\<rparr>
      = (db\<lparr>prices_weekly := []\<rparr>)\<lparr>prices_weekly := t\<rparr>" for t
    by (simp only: r)
  then have eq: "(fst s')\<lparr>prices_weekly := t\<rparr> = db\<lparr>prices_weekly := t\<rparr>" for t by simp
  show ?thesis using again s1 eq by simp
qed

lemma import_financials_rerun:
  assumes "import_financials pf fs filename period_type (db, d) = Inr (db1, d1)"
  shows "import_financials pf fs filename period_type (db1, d) = Inr (db1, d1)"
    and "distinct (map financials_key (financials db))
           \<Longrightarrow> distinct (map financials_key (financials db1))"
proof -
  from oblivious_rerun [OF import_financials_oblivious fold_replace_idem _ assms,
      of "financials db"]
  obtain rs s' where r: "(fst s')\<lparr>financials := []\<rparr> = db\<lparr>financials := []\<rparr>"
    and s1: "(db1, d1) = ((fst s')\<lparr>financials :=
                fold (insert_or_replace financials_key) rs (financials db)\<rparr>, snd s')"
    and again: "import_financials pf fs filename period_type
        (db\<lparr>financials := fold (insert_or_replace financials_key) rs (financials db)\<rparr>, d)
          = Inr (db1, d1)"
    by auto
  have "((fst s')\<lparr>financials := []\<rparr>)\<lparr>financials := t\<rparr>
      = (db\<lparr>financials := []\<rparr>)\<lparr>financials := t\<rparr>" for t
    by (simp only: r)
  then have eq: "(fst s')\<lparr>financials := t\<rparr> = db\<lparr>financials := t\<rparr>" for t by simp
  show "import_financials pf fs filename period_type (db1, d) = Inr (db1, d1)"
    using again s1 eq by simp
  show "distinct (map financials_key (financials db))
           \<Longrightarrow> distinct (map financials_key (financials db1))"
    using s1 by (auto simp: distinct_fold_replace)
qed

lemma fold_insert_company_present:
  "set (map co_ticker recs) \<subseteq> set (map co_ticker t) \<Longrightarrow> fold insert_company recs t = t"
  by (induction recs) (auto simp: insert_company_def)

lemma import_companies_rerun:
  assumes "import_companies pf fs db = Inr (db1, d)"
  shows "import_companies pf fs db1 = Inr (db1, d)"
proof -
  from assms obtain df recs where
    f: "read_csv fs ''company_master.csv'' = Inr df"
    and recs: "for_each (company_record pf (csv_columns df)) (csv_rows df) [] = Inr recs"
    and db1: "db1 = db\<lparr>companies := fold insert_company recs (companies db)\<rparr>"
    and d: "d = ticker_dict recs"
    by (auto simp: import_companies_def bind_err_Inr_iff)
  have "set (map co_ticker recs) \<subseteq> set (map co_ticker (companies db1))"
    unfolding db1 by (simp add: tickers_fold_insert_company del: set_map)
  then have "fold insert_company recs (companies db1) = companies db1"
    by (rule fold_insert_company_present)
  then show ?thesis using f recs d by (simp add: import_companies_def db1)
qed

text \<open>
  C3.  Every loader is idempotent: when a run of a loader has finished, a second run on the
  same input files, started from the database that the first run left, finishes too and
  leaves that database unchanged (and returns the same dictionary).  The loaders of
  \<open>index_membership\<close> and \<open>financials\<close> keep the uniqueness of the business key:
  when the table has at most one row per (\<open>index_id\<close>, \<open>company_id\<close>, \<open>as_of_date\<close>),
  respectively per (\<open>company_id\<close>, \<open>period_end_date\<close>, \<open>period_type\<close>), before the
  run, it has so after it, whatever rows the input repeats.  The unique keys of the two
  tables are those the spec names, on columns that are not null (a snapshot row without
  index is not stored); those of the other tables are arbitrary.
\<close>

theorem loaders_idempotent:
  "(import_companies pf fs db = Inr (db1, d1)
      \<longrightarrow> import_companies pf fs db1 = Inr (db1, d1))
   \<and> (import_index_membership pf fs d db = Inr db1
      \<longrightarrow> import_index_membership pf fs d db1 = Inr db1
          \<and> (distinct (map membership_key (index_membership db))
                \<longrightarrow> distinct (map membership_key (index_membership db1))))
   \<and> (import_prices_weekly pf pkey fs (db, d) = Inr (db1, d1)
      \<longrightarrow> import_prices_weekly pf pkey fs (db1, d) = Inr (db1, d1))
   \<and> (import_financials pf fs filename period_type (db, d) = Inr (db1, d1)
      \<longrightarrow> import_financials pf fs filename period_type (db1, d) = Inr (db1, d1)
          \<and> (distinct (map financials_key (financials db))
                \<longrightarrow> distinct (map financials_key (financials db1))))
   \<and> (import_macro pf mkey fs filename country db = Inr db1
      \<longrightarrow> import_macro pf mkey fs filename country db1 = Inr db1)
   \<and> (import_interest_rates pf rkey fs db = Inr db1
      \<longrightarrow> import_interest_rates pf rkey fs db1 = Inr db1)"
  using import_companies_rerun [of pf fs db db1 d1]
    import_index_membership_rerun(1,2) [of pf fs d db db1]
    import_prices_weekly_rerun [of pf pkey fs db d db1 d1]
    import_financials_rerun [of pf fs filename period_type db d db1 d1]
    import_macro_rerun [of pf mkey fs filename country db db1]
    import_interest_rates_rerun [of pf rkey fs db db1]
  by blast

lemma demo_runs:
  "case import_index_membership demo_float demo_inputs (snd demo_start) (fst demo_start) of
     Inl e \<Rightarrow> False
   | Inr db1 \<Rightarrow> map im_weight (index_membership db1) = [CFloat 7, CFloat 3]"
  "case import_financials demo_float demo_inputs ''financials_annual.xlsx'' ''ANNUAL'' demo_start of
     Inl e \<Rightarrow> False
   | Inr st1 \<Rightarrow> map fi_revenue (financials (fst st1)) = [CFloat 110]"
  "index_membership (fst demo_start) = []" "financials (fst demo_start) = []"
  by code_simp+

theorem loaders_idempotent_witness:
  "(case import_index_membership demo_float demo_inputs (snd demo_start) (fst demo_start) of
      Inl e \<Rightarrow> False
    | Inr db1 \<Rightarrow>
        import_index_membership demo_float demo_inputs (snd demo_start) db1 = Inr db1
        \<and> distinct (map membership_key (index_membership db1))
        \<and> map im_weight (index_membership db1) = [CFloat 7, CFloat 3])
   \<and> (case import_financials demo_float demo_inputs ''financials_annual.xlsx'' ''ANNUAL''
             demo_start of
      Inl e \<Rightarrow> False
    | Inr st1 \<Rightarrow>
        import_financials demo_float demo_inputs ''financials_annual.xlsx'' ''ANNUAL''
            (fst st1, snd demo_start) = Inr st1
        \<and> distinct (map financials_key (financials (fst st1)))
        \<and> map fi_revenue (financials (fst st1)) = [CFloat 110])"
proof -
  obtain db1 where m: "import_index_membership demo_float demo_inputs (snd demo_start)
      (fst demo_start) = Inr db1"
    and mw: "map im_weight (index_membership db1) = [CFloat 7, CFloat 3]"
    using demo_runs(1)
    by (cases "import_index_membership demo_float demo_inputs (snd demo_start) (fst demo_start)")
       auto
  obtain db2 d2 where f: "import_financials demo_float demo_inputs ''financials_annual.xlsx''
      ''ANNUAL'' (fst demo_start, snd demo_start) = Inr (db2, d2)"
    and fr: "map fi_revenue (financials db2) = [CFloat 110]"
    using demo_runs(2)
    by (cases "import_financials demo_float demo_inputs ''financials_annual.xlsx''
      ''ANNUAL'' demo_start") auto
  from loaders_idempotent [of demo_float demo_inputs "fst demo_start" db1 Map.empty
      "snd demo_start" "price_key demo_keys" "''financials_annual.xlsx''" "''ANNUAL''"
      "macro_key demo_keys" "''US''" "rate_key demo_keys"]
    m demo_runs(3)
  have a: "import_index_membership demo_float demo_inputs (snd demo_start) db1 = Inr db1"
    "distinct (map membership_key (index_membership db1))"
    by simp_all
  from loaders_idempotent [of demo_float demo_inputs "fst demo_start" db2 d2
      "snd demo_start" "price_key demo_keys" "''financials_annual.xlsx''" "''ANNUAL''"
      "macro_key demo_keys" "''US''" "rate_key demo_keys"]
    f demo_runs(4)
  have b: "import_financials demo_float demo_inputs ''financials_annual.xlsx'' ''ANNUAL''
            (db2, snd demo_start) = Inr (db2, d2)"
    "distinct (map financials_key (financials db2))"
    by simp_all
  show ?thesis using m mw a f fr b by simp
qed


end
